theory Spec2Isabelle
  imports Main "HOL-Library.Sublist"
begin

section \<open>Strings of the Go standard library\<close>

text \<open>
  A Go string is a sequence of bytes; it is modelled as a \<^typ>\<open>string\<close>, one
  \<^typ>\<open>char\<close> per byte, so that \<^term>\<open>length\<close> is Go's \<open>len\<close>. The functions
  of packages \<open>strings\<close>, \<open>unicode\<close> and \<open>unicode/utf8\<close> that the program calls are
  modelled after the library: white space is decided rune by rune on the UTF-8 decoding
  of the bytes. Separators are single bytes, as at every call site of the program.
\<close>

definition HasPrefix :: "string \<Rightarrow> string \<Rightarrow> bool" where
  "HasPrefix s p = (length p \<le> length s \<and> take (length p) s = p)"

definition HasSuffix :: "string \<Rightarrow> string \<Rightarrow> bool" where
  "HasSuffix s p = (length p \<le> length s \<and> drop (length s - length p) s = p)"

fun Contains :: "string \<Rightarrow> string \<Rightarrow> bool" where
  "Contains [] sub = (sub = [])"
| "Contains (c # cs) sub = (HasPrefix (c # cs) sub \<or> Contains cs sub)"

definition TrimPrefix :: "string \<Rightarrow> string \<Rightarrow> string" where
  "TrimPrefix s p = (if HasPrefix s p then drop (length p) s else s)"

definition lowerChar :: "char \<Rightarrow> char" where
  "lowerChar c =
     (case map_of (zip ''ABCDEFGHIJKLMNOPQRSTUVWXYZ'' ''abcdefghijklmnopqrstuvwxyz'') c of
        None \<Rightarrow> c | Some d \<Rightarrow> d)"

text \<open>
  \<open>strings.ToLower\<close>, byte by byte: \<open>A\<close>..\<open>Z\<close> become \<open>a\<close>..\<open>z\<close>. The library
  also lowers the letters outside ASCII; the only ones whose lower case is an ASCII letter
  are U+0130 and U+212A, which become \<open>i\<close> and \<open>k\<close>. The program only looks for the
  words \<open>y\<close>, \<open>yes\<close>, \<open>elb\<close>, \<open>lambda\<close>, \<open>rds\<close>, \<open>cache\<close>, \<open>load balancer\<close> and
  \<open>nat\<close> in a lowered string, none of which has an \<open>i\<close> or a \<open>k\<close>, and for
  \<open>elasticache\<close> together with \<open>cache\<close>, so that the two lowerings give it the same
  answers.
\<close>

definition ToLower :: "string \<Rightarrow> string" where
  "ToLower s = map lowerChar s"

subsection \<open>Runes\<close>

text \<open>
  \<open>utf8.DecodeRuneInString\<close> on the bytes of a string: the first rune and its width in
  bytes. A first byte below \<open>0x80\<close> is the rune; \<open>0xC2\<close>..\<open>0xDF\<close> start a rune of two
  bytes, \<open>0xE0\<close>..\<open>0xEF\<close> of three, \<open>0xF0\<close>..\<open>0xF4\<close> of four, whose second byte is
  in the accepted range of the first and whose later bytes are in \<open>0x80\<close>..\<open>0xBF\<close>.
  Anything else is \<open>RuneError\<close> of width 1, and the empty string is \<open>RuneError\<close> of
  width 0.
\<close>

definition RuneError :: nat where
  "RuneError = 0xFFFD"

definition decodeBytes :: "nat list \<Rightarrow> nat \<times> nat" where
  "decodeBytes bs =
     (case bs of
        [] \<Rightarrow> (RuneError, 0)
      | s0 # rest \<Rightarrow>
         if s0 < 0x80 then (s0, 1)
         else if s0 < 0xC2 \<or> 0xF4 < s0 then (RuneError, 1)
         else
           (let sz = (if s0 < 0xE0 then 2 else if s0 < 0xF0 then 3 else 4);
                lo = (if s0 = 0xE0 then 0xA0 else if s0 = 0xF0 then 0x90 else 0x80);
                hi = (if s0 = 0xED then 0x9F else if s0 = 0xF4 then 0x8F else 0xBF)
            in if Suc (length rest) < sz then (RuneError, 1)
               else
                 (case rest of
                    [] \<Rightarrow> (RuneError, 1)
                  | s1 # rest1 \<Rightarrow>
                     if s1 < lo \<or> hi < s1 then (RuneError, 1)
                     else if sz \<le> 2 then ((s0 - 0xC0) * 64 + (s1 - 0x80), 2)
                     else
                       (case rest1 of
                          [] \<Rightarrow> (RuneError, 1)
                        | s2 # rest2 \<Rightarrow>
                           if s2 < 0x80 \<or> 0xBF < s2 then (RuneError, 1)
                           else if sz \<le> 3 then
                             ((s0 - 0xE0) * 4096 + (s1 - 0x80) * 64 + (s2 - 0x80), 3)
                           else
                             (case rest2 of
                                [] \<Rightarrow> (RuneError, 1)
                              | s3 # _ \<Rightarrow>
                                 if s3 < 0x80 \<or> 0xBF < s3 then (RuneError, 1)
                                 else
                                   ((s0 - 0xF0) * 262144 + (s1 - 0x80) * 4096 +
                                    (s2 - 0x80) * 64 + (s3 - 0x80), 4))))))"

definition DecodeRune :: "string \<Rightarrow> nat \<times> nat" where
  "DecodeRune s = decodeBytes (map of_char (take 4 s))"

text \<open>\<open>utf8.RuneStart\<close>: the byte is not a continuation byte.\<close>

definition RuneStart :: "char \<Rightarrow> bool" where
  "RuneStart c = (\<not> (0x80 \<le> (of_char c :: nat) \<and> (of_char c :: nat) \<le> 0xBF))"

text \<open>
  \<open>utf8.DecodeLastRuneInString\<close>: the last rune of a string and its width. The start of
  the rune is looked for among the three bytes before the last one, from the end; the
  rune decoded there has to end where the string ends.
\<close>

definition DecodeLastRune :: "string \<Rightarrow> nat \<times> nat" where
  "DecodeLastRune s =
     (if s = [] then (RuneError, 0)
      else if (of_char (last s) :: nat) < 0x80 then (of_char (last s), 1)
      else
        (let n = length s;
             lim = n - 4;
             start = (case filter (\<lambda>i. RuneStart (s ! i)) (rev [lim..<n - 1]) of
                        [] \<Rightarrow> lim - 1
                      | i # _ \<Rightarrow> i);
             (r, size) = DecodeRune (drop start s)
         in if start + size \<noteq> n then (RuneError, 1) else (r, size)))"

text \<open>\<open>unicode.IsSpace\<close>: the white-space runes of Latin-1, and those beyond it.\<close>

definition IsSpace :: "nat \<Rightarrow> bool" where
  "IsSpace r =
     (if r \<le> 0xFF then r \<in> set [0x09, 0x0A, 0x0B, 0x0C, 0x0D, 0x20, 0x85, 0xA0]
      else r = 0x1680 \<or> (0x2000 \<le> r \<and> r \<le> 0x200A) \<or> r = 0x2028 \<or> r = 0x2029 \<or>
           r = 0x202F \<or> r = 0x205F \<or> r = 0x3000)"

subsection \<open>Splitting and trimming\<close>

text \<open>\<open>strings.Fields\<close>: the maximal runs of runes that are not white space, in order.
  The first argument is the field being read; a rune of width \<open>w\<close> is consumed at each
  turn.\<close>

fun fieldsFrom :: "string \<Rightarrow> string \<Rightarrow> string list" where
  "fieldsFrom cur [] = (if cur = [] then [] else [cur])"
| "fieldsFrom cur (c # cs) =
     (let (r, w) = DecodeRune (c # cs) in
      if IsSpace r then
        (if cur = [] then fieldsFrom [] (drop (w - 1) cs)
         else cur # fieldsFrom [] (drop (w - 1) cs))
      else fieldsFrom (cur @ take w (c # cs)) (drop (w - 1) cs))"

definition Fields :: "string \<Rightarrow> string list" where
  "Fields s = fieldsFrom [] s"

text \<open>\<open>strings.TrimLeftFunc\<close> with \<open>unicode.IsSpace\<close>: the string from its first rune
  that is not white space.\<close>

fun TrimLeftFunc :: "string \<Rightarrow> string" where
  "TrimLeftFunc [] = []"
| "TrimLeftFunc (c # cs) =
     (let (r, w) = DecodeRune (c # cs) in
      if IsSpace r then TrimLeftFunc (drop (w - 1) cs) else c # cs)"

text \<open>The loop of \<open>lastIndexFunc\<close> from index \<open>i\<close> backwards: the index at which the last
  rune that is not white space starts, if there is one.\<close>

function lastIndexFunc :: "string \<Rightarrow> nat \<Rightarrow> nat option" where
  "lastIndexFunc s i =
     (if i = 0 then None
      else
        (let (r, size) = DecodeLastRune (take i s) in
         if \<not> IsSpace r then Some (i - size)
         else lastIndexFunc s (i - size)))"
  by pat_completeness auto
termination
proof (relation "measure (\<lambda>(s, i). i)", simp, goal_cases)
  case (1 s i x r size)
  have "size \<noteq> 0"
  proof
    assume "size = 0"
    with 1 have "r = RuneError"
      by (auto simp: DecodeLastRune_def Let_def split: if_splits prod.splits)
         (simp add: DecodeRune_def decodeBytes_def)
    with 1 show False by (simp add: IsSpace_def RuneError_def)
  qed
  with 1 show ?case by simp
qed

text \<open>\<open>strings.TrimRightFunc\<close> with \<open>unicode.IsSpace\<close>: the string up to the end of
  that rune.\<close>

definition TrimRightFunc :: "string \<Rightarrow> string" where
  "TrimRightFunc s =
     (case lastIndexFunc s (length s) of
        None \<Rightarrow> []
      | Some i \<Rightarrow>
          if 0x80 \<le> (of_char (s ! i) :: nat) then take (i + snd (DecodeRune (drop i s))) s
          else take (i + 1) s)"

text \<open>\<open>strings.TrimSpace\<close>: without the white space at both ends.\<close>

definition TrimSpace :: "string \<Rightarrow> string" where
  "TrimSpace s = TrimRightFunc (TrimLeftFunc s)"

text \<open>\<open>strings.Cut\<close> at the first occurrence of a separator byte.\<close>

fun Cut :: "string \<Rightarrow> char \<Rightarrow> (string \<times> string) option" where
  "Cut [] sep = None"
| "Cut (c # cs) sep =
     (if c = sep then Some ([], cs)
      else (case Cut cs sep of None \<Rightarrow> None | Some (a, b) \<Rightarrow> Some (c # a, b)))"

text \<open>\<open>strings.SplitN s sep n\<close> for \<open>n \<ge> 0\<close>: at most \<open>n\<close> substrings, the last one
  the unsplit remainder; \<open>n = 0\<close> gives the empty slice.\<close>

fun SplitN :: "string \<Rightarrow> char \<Rightarrow> nat \<Rightarrow> string list" where
  "SplitN s sep 0 = []"
| "SplitN s sep (Suc 0) = [s]"
| "SplitN s sep (Suc (Suc n)) =
     (case Cut s sep of None \<Rightarrow> [s] | Some (a, b) \<Rightarrow> a # SplitN b sep (Suc n))"

text \<open>\<open>strings.Split s sep\<close>: all the substrings between separators; never empty.
  The first argument is the substring being read.\<close>

fun splitFrom :: "string \<Rightarrow> string \<Rightarrow> char \<Rightarrow> string list" where
  "splitFrom cur [] sep = [cur]"
| "splitFrom cur (c # cs) sep =
     (if c = sep then cur # splitFrom [] cs sep else splitFrom (cur @ [c]) cs sep)"

definition Split :: "string \<Rightarrow> char \<Rightarrow> string list" where
  "Split s sep = splitFrom [] s sep"

section \<open>The name-pattern classifier\<close>

text \<open>\<open>isQuickTagCreatedName\<close> (the specification's \<open>isSelfGeneratedName\<close>): a
  \<open>switch\<close> on the resource type, \<open>false\<close> for every type that is not listed.\<close>

definition isQuickTagCreatedName :: "string \<Rightarrow> string \<Rightarrow> bool" where
  "isQuickTagCreatedName name resourceType =
    (if resourceType = ''instance'' then
       HasPrefix name ''instance-ami-'' \<or> HasPrefix name ''unknown-instance''
     else if resourceType = ''volume'' then
       name = ''unattached'' \<or> HasPrefix name ''unattached-'' \<or> HasPrefix name ''unknown-''
     else if resourceType = ''eni'' then
       name = ''unattached-eni'' \<or>
       HasPrefix name ''service-'' \<and> HasSuffix name ''-eni'' \<or>
       HasPrefix name ''attached-'' \<and> HasSuffix name ''-eni'' \<or>
       HasPrefix name ''lambda-'' \<and> HasSuffix name ''-eni'' \<or>
       HasPrefix name ''rds-'' \<and> HasSuffix name ''-eni'' \<or>
       HasPrefix name ''elasticache-'' \<and> HasSuffix name ''-eni'' \<or>
       HasPrefix name ''elb-'' \<and> HasSuffix name ''-eni'' \<or>
       HasPrefix name ''nat-'' \<and> HasSuffix name ''-eni'' \<or>
       HasPrefix name ''rds-eni-attach-'' \<or>
       HasPrefix name ''elasticache-eni-attach-'' \<or>
       HasPrefix name ''elb-eni-attach-'' \<or>
       HasPrefix name ''lambda-eni-attach-'' \<or>
       HasPrefix name ''nat-eni-attach-'' \<or>
       HasPrefix name ''service-eni-attach-'' \<or>
       HasPrefix name ''rds-ela-attach-'' \<or>
       HasPrefix name ''elasticache-ela-attach-'' \<or>
       HasPrefix name ''elb-ela-attach-'' \<or>
       HasPrefix name ''lambda-ela-attach-'' \<or>
       HasPrefix name ''nat-ela-attach-'' \<or>
       HasPrefix name ''service-ela-attach-'' \<or>
       Contains name ''-attach-'' \<and> HasSuffix name ''-eni'' \<or>
       HasPrefix name ''eni-'' \<and> 21 \<le> length name \<and> length name \<le> 25 \<or>
       name = '''' \<or>
       HasPrefix name ''Network interface'' \<or>
       Contains name ''primary'' \<and> Contains name ''interface''
     else False)"

text \<open>\<open>isQuickTagNameStillValid\<close> (the specification's \<open>isStillValid\<close>).\<close>

definition isQuickTagNameStillValid :: "string \<Rightarrow> string \<Rightarrow> string \<Rightarrow> string \<Rightarrow> bool" where
  "isQuickTagNameStillValid name resourceType currentState extraInfo =
    (if \<not> isQuickTagCreatedName name resourceType then True
     else if resourceType = ''instance'' then True
     else if resourceType = ''volume'' then
       (if name = ''unattached'' then
          currentState = ''available'' \<or> extraInfo = ''unattached''
        else if HasPrefix name ''unattached-'' then
          currentState = ''available'' \<or> extraInfo = ''unattached''
        else True)
     else if resourceType = ''eni'' then
       (if name = ''unattached-eni'' then extraInfo = ''unattached''
        else if HasPrefix name ''unattached-'' then extraInfo = ''unattached''
        else if Contains name ''-eni'' then extraInfo \<noteq> ''unattached''
        else True)
     else True)"

section \<open>Provider records and scan results\<close>

text \<open>
  The provider's records carry the fields the program reads. A Go pointer field is an
  \<^typ>\<open>'a option\<close> (\<open>nil\<close> is \<^term>\<open>None\<close>); dereferencing \<open>nil\<close> panics, which is
  the error \<open>NilDereference\<close>. A Go \<open>error\<close> is \<open>Err\<close> with its message.
\<close>

datatype error = Err string | NilDereference

definition deref :: "'a option \<Rightarrow> error + 'a" where
  "deref p = (case p of None \<Rightarrow> Inl NilDereference | Some v \<Rightarrow> Inr v)"

record Tag =
  Key :: "string option"
  Value :: "string option"

record Instance =
  InstanceId :: "string option"
  ImageId :: "string option"
  InstanceState :: "string option"  \<comment> \<open>\<open>State.Name\<close>; \<open>None\<close> when \<open>State\<close> is \<open>nil\<close>\<close>
  InstanceTags :: "Tag list"

record VolumeAttachment =
  VolInstanceId :: "string option"
  Device :: "string option"

record Volume =
  VolumeId :: "string option"
  VolumeState :: string
  Attachments :: "VolumeAttachment list"
  VolumeTags :: "Tag list"

record NetworkInterfaceAttachment =
  EniInstanceId :: "string option"
  AttachmentId :: "string option"

record NetworkInterface =
  NetworkInterfaceId :: "string option"
  Status :: string
  Attachment :: "NetworkInterfaceAttachment option"
  Description :: "string option"
  TagSet :: "Tag list"

record Image =
  AmiId :: "string option"
  AmiName :: "string option"

record ResourceInfo =
  ID :: string
  Type :: string
  Name :: string
  SuggestedName :: string
  State :: string
  Extra :: string

text \<open>The loop over a resource's tags: \<open>(hasNameTag, currentName)\<close>, the first tag
  with key \<open>Name\<close> and a value.\<close>

fun findNameTag :: "Tag list \<Rightarrow> bool \<times> string" where
  "findNameTag [] = (False, [])"
| "findNameTag (t # ts) =
     (case (Key t, Value t) of
        (Some k, Some v) \<Rightarrow> if k = ''Name'' then (True, v) else findNameTag ts
      | _ \<Rightarrow> findNameTag ts)"

text \<open>A Go \<open>map[string]bool\<close> used as a set of ids: the distinct keys, in the order of
  their first insertion.\<close>

definition insertKey :: "string \<Rightarrow> string list \<Rightarrow> string list" where
  "insertKey k ks = (if k \<in> set ks then ks else ks @ [k])"

section \<open>The attachment resolver\<close>

definition getVolumeMountPoint :: "Volume \<Rightarrow> string" where
  "getVolumeMountPoint volume =
     (case Attachments volume of
        [] \<Rightarrow> ''unattached''
      | attachment # _ \<Rightarrow> (case Device attachment of Some d \<Rightarrow> d | None \<Rightarrow> ''unknown''))"

text \<open>\<open>extractELBName\<close>: the loop over the fields of the description; \<open>elbScan\<close> is the
  loop from index \<open>i\<close> on, its argument the fields \<open>parts[i:]\<close>.\<close>

fun elbScan :: "string list \<Rightarrow> string" where
  "elbScan [] = []"
| "elbScan [part] = []"
| "elbScan (part # elbPart # rest) =
     (if ToLower part = ''elb'' then
        (let elbParts = Split elbPart (CHR ''/'') in
         if 2 \<le> length elbParts then elbParts ! 1 else elbScan (elbPart # rest))
      else elbScan (elbPart # rest))"

definition extractELBName :: "string \<Rightarrow> string" where
  "extractELBName description = elbScan (Fields description)"

definition getENIAttachmentInfo :: "NetworkInterface \<Rightarrow> string" where
  "getENIAttachmentInfo eni =
     (case Attachment eni of
        None \<Rightarrow> ''unattached''
      | Some att \<Rightarrow>
         (case EniInstanceId att of
            Some instanceId \<Rightarrow> ''attached-to-'' @ instanceId
          | None \<Rightarrow>
             (case AttachmentId att of
                None \<Rightarrow> ''attached-unknown''
              | Some attachmentId \<Rightarrow>
                 (case Description eni of
                    None \<Rightarrow> ''attached-'' @ ''service'' @ ''-'' @ attachmentId
                  | Some description \<Rightarrow>
                     (let desc = ToLower description in
                      if Contains desc ''lambda'' then
                        ''attached-'' @ ''lambda'' @ ''-'' @ attachmentId
                      else if Contains desc ''rds'' then
                        ''attached-'' @ ''rds'' @ ''-'' @ attachmentId
                      else if Contains desc ''elasticache'' \<or> Contains desc ''cache'' then
                        ''attached-'' @ ''elasticache'' @ ''-'' @ attachmentId
                      else if Contains desc ''elb'' \<or> Contains desc ''load balancer'' then
                        (let elbName = extractELBName description in
                         if elbName \<noteq> [] then ''attached-elb-'' @ elbName
                         else ''attached-'' @ ''elb'' @ ''-'' @ attachmentId)
                      else if Contains desc ''nat'' then
                        ''attached-'' @ ''nat'' @ ''-'' @ attachmentId
                      else ''attached-'' @ ''service'' @ ''-'' @ attachmentId)))))"

section \<open>The batch lookups\<close>

text \<open>
  The provider's describe-calls are parameters: a call takes the batch of ids and
  returns an error message or the records. The ids of a lookup are taken in the order
  of their insertion (Go leaves the iteration order of a map open).
\<close>

type_synonym names = "string \<rightharpoonup> string"

fun addImages :: "Image list \<Rightarrow> names \<Rightarrow> names" where
  "addImages [] amiNames = amiNames"
| "addImages (img # images) amiNames =
     (case (AmiId img, AmiName img) of
        (Some i, Some n) \<Rightarrow> addImages images (amiNames(i \<mapsto> n))
      | _ \<Rightarrow> addImages images amiNames)"

function amiBatches :: "(string list \<Rightarrow> string + Image list) \<Rightarrow> nat \<Rightarrow> string list \<Rightarrow> names
    \<Rightarrow> error + names" where
  "amiBatches describeImages batchSize ids amiNames =
     (if ids = [] \<or> batchSize = 0 then Inr amiNames
      else (case describeImages (take batchSize ids) of
              Inl e \<Rightarrow> Inl (Err e)
            | Inr images \<Rightarrow>
                amiBatches describeImages batchSize (drop batchSize ids)
                  (addImages images amiNames)))"
  by pat_completeness auto
termination
  by (relation "measure (\<lambda>(d, b, ids, m). length ids)") auto

definition getAMINames :: "(string list \<Rightarrow> string + Image list) \<Rightarrow> string list \<Rightarrow> error + names" where
  "getAMINames describeImages amiIDs =
     (if amiIDs = [] then Inr Map.empty
      else amiBatches describeImages 200 amiIDs Map.empty)"

text \<open>The instances of a describe-instances answer: the name of an instance is its
  \<open>Name\<close> tag, or its own id when it has none.\<close>

fun addInstanceNames :: "Instance list \<Rightarrow> names \<Rightarrow> names" where
  "addInstanceNames [] instanceNames = instanceNames"
| "addInstanceNames (inst # instances) instanceNames =
     (case InstanceId inst of
        None \<Rightarrow> addInstanceNames instances instanceNames
      | Some i \<Rightarrow>
         (let (hasNameTag, v) = findNameTag (InstanceTags inst);
              named = (if hasNameTag then instanceNames(i \<mapsto> v) else instanceNames)
          in addInstanceNames instances
               (case named i of None \<Rightarrow> named(i \<mapsto> i) | Some _ \<Rightarrow> named)))"

function instanceBatches :: "(string list \<Rightarrow> string + Instance list list) \<Rightarrow> nat \<Rightarrow> string list
    \<Rightarrow> names \<Rightarrow> error + names" where
  "instanceBatches describeInstances batchSize ids instanceNames =
     (if ids = [] \<or> batchSize = 0 then Inr instanceNames
      else (case describeInstances (take batchSize ids) of
              Inl e \<Rightarrow> Inl (Err e)
            | Inr reservations \<Rightarrow>
                instanceBatches describeInstances batchSize (drop batchSize ids)
                  (addInstanceNames (concat reservations) instanceNames)))"
  by pat_completeness auto
termination
  by (relation "measure (\<lambda>(d, b, ids, m). length ids)") auto

definition getInstanceNames :: "(string list \<Rightarrow> string + Instance list list) \<Rightarrow> string list
    \<Rightarrow> error + names" where
  "getInstanceNames describeInstances instanceIDs =
     (if instanceIDs = [] then Inr Map.empty
      else instanceBatches describeInstances 1000 instanceIDs Map.empty)"

definition getAttachmentNames :: "(string list \<Rightarrow> string + Instance list list) \<Rightarrow> string list
    \<Rightarrow> error + names" where
  "getAttachmentNames describeInstances attachmentIDs =
     (if attachmentIDs = [] then Inr Map.empty
      else instanceBatches describeInstances 1000 attachmentIDs Map.empty)"

section \<open>The scans\<close>

text \<open>
  A paginator is the list of the answers of its \<open>NextPage\<close> calls, each an error
  message or a page. The body of a scan loop for one record gives \<^term>\<open>Inr None\<close>
  when the record is passed over and \<^term>\<open>Inr (Some r)\<close> when \<open>r\<close> is appended to
  the candidates.
\<close>

type_synonym 'a paginator = "(string + 'a) list"

subsection \<open>Instances\<close>

text \<open>The condition \<open>needsTagging\<close> of an instance, with Go's left-to-right evaluation
  of \<open>||\<close> and \<open>&&\<close>: \<open>*instance.ImageId\<close> is read only when the instance has a
  \<open>Name\<close> tag whose value is a quick-tag name.\<close>

definition instanceNeedsTagging :: "bool \<Rightarrow> string \<Rightarrow> string \<Rightarrow> string option \<Rightarrow> error + bool" where
  "instanceNeedsTagging hasNameTag currentName stateName imageId =
     (if \<not> hasNameTag then Inr True
      else if \<not> isQuickTagCreatedName currentName ''instance'' then Inr False
      else (case deref imageId of
              Inl e \<Rightarrow> Inl e
            | Inr ami \<Rightarrow>
                Inr (\<not> isQuickTagNameStillValid currentName ''instance'' stateName ami)))"

definition scanInstance :: "Instance \<Rightarrow> error + ResourceInfo option" where
  "scanInstance inst =
     (case deref (InstanceState inst) of
        Inl e \<Rightarrow> Inl e
      | Inr stateName \<Rightarrow>
         if stateName = ''terminated'' then Inr None
         else
           (let (hasNameTag, currentName) = findNameTag (InstanceTags inst) in
            case instanceNeedsTagging hasNameTag currentName stateName (ImageId inst) of
              Inl e \<Rightarrow> Inl e
            | Inr needsTagging \<Rightarrow>
               (case ImageId inst of
                  None \<Rightarrow> Inr None
                | Some ami \<Rightarrow>
                   if needsTagging then
                     (case deref (InstanceId inst) of
                        Inl e \<Rightarrow> Inl e
                      | Inr i \<Rightarrow>
                          Inr (Some \<lparr>ID = i, Type = ''instance'', Name = currentName,
                                     SuggestedName = [], State = stateName, Extra = ami\<rparr>))
                   else Inr None)))"

text \<open>The loops over the instances of a page and over the pages; the state is the
  candidates found and the set \<open>amiIDs\<close>.\<close>

fun scanInstances :: "Instance list \<Rightarrow> ResourceInfo list \<times> string list
    \<Rightarrow> error + ResourceInfo list \<times> string list" where
  "scanInstances [] acc = Inr acc"
| "scanInstances (inst # rest) (instances, amiIDs) =
     (case scanInstance inst of
        Inl e \<Rightarrow> Inl e
      | Inr None \<Rightarrow> scanInstances rest (instances, amiIDs)
      | Inr (Some r) \<Rightarrow> scanInstances rest (instances @ [r], insertKey (Extra r) amiIDs))"

fun scanInstancePages :: "Instance list list paginator \<Rightarrow> ResourceInfo list \<times> string list
    \<Rightarrow> error + ResourceInfo list \<times> string list" where
  "scanInstancePages [] acc = Inr acc"
| "scanInstancePages (Inl e # pages) acc = Inl (Err e)"
| "scanInstancePages (Inr reservations # pages) acc =
     (case scanInstances (concat reservations) acc of
        Inl e \<Rightarrow> Inl e
      | Inr acc' \<Rightarrow> scanInstancePages pages acc')"

definition suggestInstance :: "names \<Rightarrow> ResourceInfo \<Rightarrow> ResourceInfo" where
  "suggestInstance amiNames r =
     (case amiNames (Extra r) of
        Some amiName \<Rightarrow> r\<lparr>SuggestedName := amiName\<rparr>
      | None \<Rightarrow> r\<lparr>SuggestedName := ''instance-'' @ Extra r\<rparr>)"

definition findUntaggedInstances :: "Instance list list paginator
    \<Rightarrow> (string list \<Rightarrow> string + Image list) \<Rightarrow> error + ResourceInfo list" where
  "findUntaggedInstances pages describeImages =
     (case scanInstancePages pages ([], []) of
        Inl e \<Rightarrow> Inl e
      | Inr (instances, amiIDs) \<Rightarrow>
         (case getAMINames describeImages amiIDs of
            Inl (Err e) \<Rightarrow> Inl (Err (''failed to get AMI names: '' @ e))
          | Inl e \<Rightarrow> Inl e
          | Inr amiNames \<Rightarrow> Inr (map (suggestInstance amiNames) instances)))"

subsection \<open>Volumes\<close>

definition scanVolume :: "Volume \<Rightarrow> error + ResourceInfo option" where
  "scanVolume volume =
     (let (hasNameTag, currentName) = findNameTag (VolumeTags volume);
          needsTagging = (\<not> hasNameTag \<or>
            (hasNameTag \<and> isQuickTagCreatedName currentName ''volume'' \<and>
             \<not> isQuickTagNameStillValid currentName ''volume'' (VolumeState volume)
                 (getVolumeMountPoint volume)))
      in if needsTagging then
           (case deref (VolumeId volume) of
              Inl e \<Rightarrow> Inl e
            | Inr i \<Rightarrow>
                Inr (Some \<lparr>ID = i, Type = ''volume'', Name = currentName,
                           SuggestedName = [], State = VolumeState volume,
                           Extra = getVolumeMountPoint volume\<rparr>))
         else Inr None)"

fun attachmentInstanceIDs :: "VolumeAttachment list \<Rightarrow> string list \<Rightarrow> string list" where
  "attachmentInstanceIDs [] instanceIDs = instanceIDs"
| "attachmentInstanceIDs (attachment # rest) instanceIDs =
     (case VolInstanceId attachment of
        Some i \<Rightarrow> attachmentInstanceIDs rest (insertKey i instanceIDs)
      | None \<Rightarrow> attachmentInstanceIDs rest instanceIDs)"

fun scanVolumes :: "Volume list \<Rightarrow> ResourceInfo list \<times> string list
    \<Rightarrow> error + ResourceInfo list \<times> string list" where
  "scanVolumes [] acc = Inr acc"
| "scanVolumes (volume # rest) (volumes, instanceIDs) =
     (case scanVolume volume of
        Inl e \<Rightarrow> Inl e
      | Inr None \<Rightarrow> scanVolumes rest (volumes, instanceIDs)
      | Inr (Some r) \<Rightarrow>
          scanVolumes rest
            (volumes @ [r], attachmentInstanceIDs (Attachments volume) instanceIDs))"

fun scanVolumePages :: "Volume list paginator \<Rightarrow> ResourceInfo list \<times> string list
    \<Rightarrow> error + ResourceInfo list \<times> string list" where
  "scanVolumePages [] acc = Inr acc"
| "scanVolumePages (Inl e # pages) acc = Inl (Err e)"
| "scanVolumePages (Inr page # pages) acc =
     (case scanVolumes page acc of
        Inl e \<Rightarrow> Inl e
      | Inr acc' \<Rightarrow> scanVolumePages pages acc')"

text \<open>\<open>getVolumeInstanceID\<close> asks the provider for the one volume again; a failed call
  and an empty answer both give the empty string.\<close>

definition getVolumeInstanceID :: "string \<Rightarrow> (string list \<Rightarrow> string + Volume list) \<Rightarrow> string" where
  "getVolumeInstanceID volumeID describeVolumes =
     (case describeVolumes [volumeID] of
        Inl e \<Rightarrow> []
      | Inr [] \<Rightarrow> []
      | Inr (volume # _) \<Rightarrow>
         (case Attachments volume of
            [] \<Rightarrow> []
          | attachment # _ \<Rightarrow>
             (case VolInstanceId attachment of Some i \<Rightarrow> i | None \<Rightarrow> [])))"

definition suggestVolume :: "names \<Rightarrow> (string list \<Rightarrow> string + Volume list) \<Rightarrow> ResourceInfo
    \<Rightarrow> ResourceInfo" where
  "suggestVolume instanceNames describeVolumes r =
     (let attachedInstanceID = getVolumeInstanceID (ID r) describeVolumes in
      if attachedInstanceID \<noteq> [] then
        (case instanceNames attachedInstanceID of
           Some instanceName \<Rightarrow>
             r\<lparr>SuggestedName := attachedInstanceID @ ''('' @ instanceName @ '') '' @ Extra r\<rparr>
         | None \<Rightarrow> r\<lparr>SuggestedName := attachedInstanceID @ '' '' @ Extra r\<rparr>)
      else r\<lparr>SuggestedName := ''unattached''\<rparr>)"

definition findUntaggedVolumes :: "Volume list paginator
    \<Rightarrow> (string list \<Rightarrow> string + Instance list list)
    \<Rightarrow> (string list \<Rightarrow> string + Volume list) \<Rightarrow> error + ResourceInfo list" where
  "findUntaggedVolumes pages describeInstances describeVolumes =
     (case scanVolumePages pages ([], []) of
        Inl e \<Rightarrow> Inl e
      | Inr (volumes, instanceIDs) \<Rightarrow>
         (case getInstanceNames describeInstances instanceIDs of
            Inl (Err e) \<Rightarrow> Inl (Err (''failed to get instance names: '' @ e))
          | Inl e \<Rightarrow> Inl e
          | Inr instanceNames \<Rightarrow>
              Inr (map (suggestVolume instanceNames describeVolumes) volumes)))"

subsection \<open>Network interfaces\<close>

definition scanENI :: "NetworkInterface \<Rightarrow> error + ResourceInfo option" where
  "scanENI eni =
     (let (hasNameTag, currentName) = findNameTag (TagSet eni);
          needsTagging = (\<not> hasNameTag \<or>
            (hasNameTag \<and> isQuickTagCreatedName currentName ''eni'' \<and>
             \<not> isQuickTagNameStillValid currentName ''eni'' (Status eni)
                 (getENIAttachmentInfo eni)))
      in if needsTagging then
           (case deref (NetworkInterfaceId eni) of
              Inl e \<Rightarrow> Inl e
            | Inr i \<Rightarrow>
                Inr (Some \<lparr>ID = i, Type = ''eni'', Name = currentName,
                           SuggestedName = [], State = Status eni,
                           Extra = getENIAttachmentInfo eni\<rparr>))
         else Inr None)"

definition eniInstanceIDs :: "NetworkInterface \<Rightarrow> string list \<Rightarrow> string list" where
  "eniInstanceIDs eni attachmentIDs =
     (case Attachment eni of
        None \<Rightarrow> attachmentIDs
      | Some att \<Rightarrow>
         (case EniInstanceId att of
            None \<Rightarrow> attachmentIDs
          | Some i \<Rightarrow> insertKey i attachmentIDs))"

fun scanENIs :: "NetworkInterface list \<Rightarrow> ResourceInfo list \<times> string list
    \<Rightarrow> error + ResourceInfo list \<times> string list" where
  "scanENIs [] acc = Inr acc"
| "scanENIs (eni # rest) (eniList, attachmentIDs) =
     (case scanENI eni of
        Inl e \<Rightarrow> Inl e
      | Inr None \<Rightarrow> scanENIs rest (eniList, attachmentIDs)
      | Inr (Some r) \<Rightarrow> scanENIs rest (eniList @ [r], eniInstanceIDs eni attachmentIDs))"

fun scanENIPages :: "NetworkInterface list paginator \<Rightarrow> ResourceInfo list \<times> string list
    \<Rightarrow> error + ResourceInfo list \<times> string list" where
  "scanENIPages [] acc = Inr acc"
| "scanENIPages (Inl e # pages) acc = Inl (Err e)"
| "scanENIPages (Inr page # pages) acc =
     (case scanENIs page acc of
        Inl e \<Rightarrow> Inl e
      | Inr acc' \<Rightarrow> scanENIPages pages acc')"

text \<open>The body of the loop that fills in the suggested name of a network interface
  and rewrites its \<open>Extra\<close> field for display.\<close>

definition suggestENI :: "names \<Rightarrow> ResourceInfo \<Rightarrow> ResourceInfo" where
  "suggestENI attachmentNames r =
     (if HasPrefix (Extra r) ''attached-to-'' then
        (let instanceID = TrimPrefix (Extra r) ''attached-to-'' in
         case attachmentNames instanceID of
           Some attachmentName \<Rightarrow>
             r\<lparr>SuggestedName := attachmentName @ ''-eni'',
               Extra := instanceID @ '' ('' @ attachmentName @ '')''\<rparr>
         | None \<Rightarrow> r\<lparr>SuggestedName := instanceID @ ''-eni'', Extra := instanceID\<rparr>)
      else if HasPrefix (Extra r) ''attached-'' then
        (let parts = SplitN (Extra r) (CHR ''-'') 3 in
         if 3 \<le> length parts then
           (let attachmentType = parts ! 1; attachmentID = parts ! 2 in
            if attachmentType = ''elb'' then
              r\<lparr>SuggestedName := attachmentID @ ''-eni'', Extra := ''elb-'' @ attachmentID\<rparr>
            else
              r\<lparr>SuggestedName := attachmentType @ ''-'' @ attachmentID @ ''-eni'',
                Extra := attachmentType @ ''-attachment-'' @ attachmentID\<rparr>)
         else
           (let attachmentID = TrimPrefix (Extra r) ''attached-'' in
            r\<lparr>SuggestedName := ''service-'' @ attachmentID @ ''-eni'',
              Extra := ''service-attachment-'' @ attachmentID\<rparr>))
      else r\<lparr>SuggestedName := ''unattached-eni'', Extra := ''unattached''\<rparr>)"

definition findUntaggedENIs :: "NetworkInterface list paginator
    \<Rightarrow> (string list \<Rightarrow> string + Instance list list) \<Rightarrow> error + ResourceInfo list" where
  "findUntaggedENIs pages describeInstances =
     (case scanENIPages pages ([], []) of
        Inl e \<Rightarrow> Inl e
      | Inr (eniList, attachmentIDs) \<Rightarrow>
         (case getAttachmentNames describeInstances attachmentIDs of
            Inl (Err e) \<Rightarrow> Inl (Err (''failed to get attachment names: '' @ e))
          | Inl e \<Rightarrow> Inl e
          | Inr attachmentNames \<Rightarrow> Inr (map (suggestENI attachmentNames) eniList)))"

section \<open>The history ledger, the tag applier and undo\<close>

record TagHistoryEntry =
  Account :: string
  Resource :: string
  OldValue :: string
  NewValue :: string
  Timestamp :: string
  RunID :: string
  Undone :: bool

text \<open>
  What the program reads from its surroundings and cannot control: whether the home
  directory is known, whether reading and parsing the ledger file fails, whether encoding
  and writing it fails, the YAML library (the text that \<open>yaml.Marshal\<close> gives for a
  list of entries, and the entries that \<open>yaml.Unmarshal\<close> reads from a text that it
  parses), whether the provider's client can be configured, the outcome of a
  \<open>CreateTags\<close> call on a resource with a value (\<^term>\<open>None\<close> is success), and the
  clock, taken as fixed during a run. Nothing is assumed of the YAML library: the
  entries read from a text need not be those that the text was written from.
\<close>

record env =
  homeKnown :: bool
  readFails :: "string option"
  writeFails :: "string option"
  Marshal :: "TagHistoryEntry list \<Rightarrow> string"
  Unmarshal :: "string \<Rightarrow> TagHistoryEntry list"
  configFails :: "string option"
  createTagsFails :: "string \<Rightarrow> string \<Rightarrow> string option"
  now :: string

text \<open>
  What the program changes: the text of the ledger file (\<^term>\<open>None\<close> while the file
  does not exist), the number of times the file was written, the \<open>Name\<close> tag of every
  resource at the provider (the empty string where there is none), the \<open>CreateTags\<close>
  calls issued so far, the outcomes of the reads from standard input still to come, and
  the warnings printed.
\<close>

record world =
  historyFile :: "string option"
  saves :: nat
  nameTags :: "string \<Rightarrow> string"
  tagWrites :: "(string \<times> string) list"
  stdin :: "(string + string) list"
  warnings :: "string list"

definition CreateTags :: "env \<Rightarrow> world \<Rightarrow> string \<Rightarrow> string \<Rightarrow> string option \<times> world" where
  "CreateTags e w resource v =
     (let w1 = w\<lparr>tagWrites := tagWrites w @ [(resource, v)]\<rparr> in
      case createTagsFails e resource v of
        Some err \<Rightarrow> (Some err, w1)
      | None \<Rightarrow> (None, w1\<lparr>nameTags := (nameTags w1)(resource := v)\<rparr>))"

text \<open>\<open>reader.ReadString\<close> on standard input: the next outcome, end of file when
  there is none.\<close>

definition ReadString :: "world \<Rightarrow> (string + string) \<times> world" where
  "ReadString w =
     (case stdin w of
        [] \<Rightarrow> (Inl ''EOF'', w)
      | x # xs \<Rightarrow> (x, w\<lparr>stdin := xs\<rparr>))"

definition loadHistory :: "env \<Rightarrow> world \<Rightarrow> error + TagHistoryEntry list" where
  "loadHistory e w =
     (if \<not> homeKnown e then Inr []
      else (case historyFile w of
              None \<Rightarrow> Inr []
            | Some data \<Rightarrow>
               (case readFails e of
                  Some err \<Rightarrow> Inl (Err err)
                | None \<Rightarrow> Inr (Unmarshal e data))))"

definition saveHistory :: "env \<Rightarrow> world \<Rightarrow> TagHistoryEntry list \<Rightarrow> error option \<times> world" where
  "saveHistory e w actions =
     (if \<not> homeKnown e then (Some (Err ''unable to determine home directory''), w)
      else (case writeFails e of
              Some err \<Rightarrow> (Some (Err err), w)
            | None \<Rightarrow>
                (None, w\<lparr>historyFile := Some (Marshal e actions), saves := saves w + 1\<rparr>)))"

definition addToHistory :: "env \<Rightarrow> world \<Rightarrow> string \<Rightarrow> string \<Rightarrow> string \<Rightarrow> string \<Rightarrow> string
    \<Rightarrow> error option \<times> world" where
  "addToHistory e w account resource oldValue newValue runID =
     (case loadHistory e w of
        Inl err \<Rightarrow> (Some err, w)
      | Inr actions \<Rightarrow>
          saveHistory e w
            (actions @ [\<lparr>Account = account, Resource = resource, OldValue = oldValue,
                          NewValue = newValue, Timestamp = now e, RunID = runID,
                          Undone = False\<rparr>]))"

definition errorText :: "error \<Rightarrow> string" where
  "errorText err = (case err of Err m \<Rightarrow> m | NilDereference \<Rightarrow> ''nil pointer dereference'')"

subsection \<open>applyTags\<close>

text \<open>The loop of \<open>applyTags\<close> over the selected resources. A failed tag write ends
  the loop with its error; a failed history append only prints a warning.\<close>

fun applyTags :: "env \<Rightarrow> ResourceInfo list \<Rightarrow> string \<Rightarrow> string \<Rightarrow> bool \<Rightarrow> world
    \<Rightarrow> error option \<times> world" where
  "applyTags e [] accountID runID autoApply w = (None, w)"
| "applyTags e (resource # rest) accountID runID autoApply w =
     (let (input, w0) = (if \<not> autoApply then ReadString w else (Inr [], w)) in
      case input of
        Inl err \<Rightarrow> (Some (Err (''failed to read user input: '' @ err)), w0)
      | Inr _ \<Rightarrow>
         (case CreateTags e w0 (ID resource) (SuggestedName resource) of
            (Some err, w1) \<Rightarrow>
              (Some (Err (''failed to tag '' @ Type resource @ '' '' @ ID resource @ '': '' @ err)),
               w1)
          | (None, w1) \<Rightarrow>
             (case addToHistory e w1 accountID (ID resource) (Name resource)
                     (SuggestedName resource) runID of
                (Some err, w2) \<Rightarrow>
                  applyTags e rest accountID runID autoApply
                    (w2\<lparr>warnings := warnings w2 @
                       [''Warning: Failed to log tagging action to history: '' @ errorText err]\<rparr>)
              | (None, w2) \<Rightarrow> applyTags e rest accountID runID autoApply w2)))"

subsection \<open>undoLastRun\<close>

text \<open>The loop from the end of the ledger: the run id of the last entry that is not
  undone, the empty string when every entry is undone. Its argument is the ledger
  reversed.\<close>

fun lastRunIDFrom :: "TagHistoryEntry list \<Rightarrow> string" where
  "lastRunIDFrom [] = []"
| "lastRunIDFrom (action # earlier) =
     (if \<not> Undone action then RunID action else lastRunIDFrom earlier)"

definition findLastRunID :: "TagHistoryEntry list \<Rightarrow> string" where
  "findLastRunID actions = lastRunIDFrom (rev actions)"

definition actionsOfRun :: "string \<Rightarrow> TagHistoryEntry list \<Rightarrow> TagHistoryEntry list" where
  "actionsOfRun lastRunID actions =
     filter (\<lambda>action. RunID action = lastRunID \<and> \<not> Undone action) actions"

text \<open>The loop that reverts the actions: every action is tried; the state is the
  counters \<open>(successCount, notFoundCount, errorCount)\<close> and the world.\<close>

fun revertActions :: "env \<Rightarrow> TagHistoryEntry list \<Rightarrow> (nat \<times> nat \<times> nat) \<times> world
    \<Rightarrow> (nat \<times> nat \<times> nat) \<times> world" where
  "revertActions e [] acc = acc"
| "revertActions e (action # rest) ((successCount, notFoundCount, errorCount), w) =
     (let v = (if OldValue action = [] then [] else OldValue action) in
      case CreateTags e w (Resource action) v of
        (Some err, w1) \<Rightarrow>
          if Contains err ''NotFound'' \<or> Contains err ''does not exist'' then
            revertActions e rest ((successCount, notFoundCount + 1, errorCount), w1)
          else
            revertActions e rest
              ((successCount, notFoundCount, errorCount + 1),
               w1\<lparr>warnings := warnings w1 @
                 [''Warning: Failed to revert '' @ Resource action @ '': '' @ err]\<rparr>)
      | (None, w1) \<Rightarrow>
          revertActions e rest ((successCount + 1, notFoundCount, errorCount), w1))"

definition markUndone :: "string \<Rightarrow> TagHistoryEntry list \<Rightarrow> TagHistoryEntry list" where
  "markUndone lastRunID actions =
     map (\<lambda>action. if RunID action = lastRunID \<and> \<not> Undone action
                    then action\<lparr>Undone := True\<rparr> else action) actions"

definition undoLastRun :: "env \<Rightarrow> world \<Rightarrow> error option \<times> world" where
  "undoLastRun e w =
     (case loadHistory e w of
        Inl err \<Rightarrow> (Some (Err (''failed to load history: '' @ errorText err)), w)
      | Inr actions \<Rightarrow>
         if length actions = 0 then (Some (Err ''no tagging history found''), w)
         else
           (let lastRunID = findLastRunID actions in
            if lastRunID = [] then (Some (Err ''no undone runs found''), w)
            else
              (let actionsToUndo = actionsOfRun lastRunID actions in
               if length actionsToUndo = 0 then
                 (Some (Err (''no actions found for run '' @ lastRunID)), w)
               else
                 (case ReadString w of
                    (Inl err, w0) \<Rightarrow> (Some (Err (''failed to read user input: '' @ err)), w0)
                  | (Inr line, w0) \<Rightarrow>
                     (let response = TrimSpace (ToLower line) in
                      if response \<noteq> ''y'' \<and> response \<noteq> ''yes'' then (None, w0)
                      else
                        (case configFails e of
                           Some err \<Rightarrow>
                             (Some (Err (''failed to load AWS config: '' @ err)), w0)
                         | None \<Rightarrow>
                            (let (counts, w1) = revertActions e actionsToUndo ((0, 0, 0), w0) in
                             case saveHistory e w1 (markUndone lastRunID actions) of
                               (Some err, w2) \<Rightarrow>
                                 (Some (Err (''failed to save updated history: '' @ errorText err)),
                                  w2)
                             | (None, w2) \<Rightarrow> (None, w2))))))))"

section \<open>The specification's wording\<close>

text \<open>
  The definitions of this section follow the specification, not the code, and where
  the text says so the specification as amended; the properties below compare them
  with the code.
\<close>

subsection \<open>ELB-name extraction\<close>

text \<open>The algorithm in the words of the specification: the first field equal to \<open>elb\<close>
  in any case, the field after it, its segments between slashes, and segment 1 when there
  are at least two; the empty string when the field \<open>elb\<close>, the field after it or the
  second segment is missing.\<close>

definition extractELBNameSpec :: "string \<Rightarrow> string" where
  "extractELBNameSpec description =
     (let tokens = Fields description in
      case find (\<lambda>i. ToLower (tokens ! i) = ''elb'') [0..<length tokens] of
        None \<Rightarrow> []
      | Some i \<Rightarrow>
          if i + 1 < length tokens then
            (let segments = Split (tokens ! (i + 1)) (CHR ''/'') in
             if 2 \<le> length segments then segments ! 1 else [])
          else [])"

text \<open>The algorithm as amended: its search does not stop at the first field \<open>elb\<close>
  but goes on past a field \<open>elb\<close> that is the last field or whose following field has
  fewer than two segments. The positions it looks for are those of the fields that are
  \<open>elb\<close> in any case, have a following field, and whose following field has at least
  two segments; it takes segment 1 of the field after the first such position and gives
  the empty string when there is none.\<close>

definition elbCandidates :: "string list \<Rightarrow> nat list" where
  "elbCandidates parts =
     filter (\<lambda>i. i + 1 < length parts \<and> ToLower (parts ! i) = ''elb'' \<and>
                  2 \<le> length (Split (parts ! (i + 1)) (CHR ''/'')))
       [0..<length parts]"

definition extractELBNameSearch :: "string \<Rightarrow> string" where
  "extractELBNameSearch description =
     (let parts = Fields description in
      case elbCandidates parts of
        [] \<Rightarrow> []
      | i # _ \<Rightarrow> Split (parts ! (i + 1)) (CHR ''/'') ! 1)"

text \<open>The first field \<open>elb\<close> of a description, if there is one, is followed by a field
  with at least two segments, or no field \<open>elb\<close> of the description is.\<close>

definition firstElbDecides :: "string \<Rightarrow> bool" where
  "firstElbDecides description =
     (let tokens = Fields description in
      case find (\<lambda>i. ToLower (tokens ! i) = ''elb'') [0..<length tokens] of
        None \<Rightarrow> True
      | Some i \<Rightarrow> elbCandidates tokens = [] \<or> i \<in> set (elbCandidates tokens))"

subsection \<open>Self-generated names of network interfaces\<close>

definition serviceTypes :: "string list" where
  "serviceTypes =
     [''service'', ''attached'', ''lambda'', ''rds'', ''elasticache'', ''elb'', ''nat'']"

text \<open>A name of the shape \<open>{service-type}-{id}-eni\<close>, for some id.\<close>

definition typeIdEni :: "string \<Rightarrow> string \<Rightarrow> bool" where
  "typeIdEni t name =
     (HasPrefix name (t @ ''-'') \<and> HasSuffix name ''-eni'' \<and> length t + 5 \<le> length name)"

text \<open>The shapes the specification lists for a network interface.\<close>

definition listedEniShape :: "string \<Rightarrow> bool" where
  "listedEniShape name =
     (name = ''unattached-eni'' \<or>
      list_ex (\<lambda>t. typeIdEni t name) serviceTypes \<or>
      (Contains name ''-attach-'' \<and> HasSuffix name ''-eni'') \<or>
      (HasPrefix name ''eni-'' \<and> 21 \<le> length name \<and> length name \<le> 25) \<or>
      name = [] \<or>
      HasPrefix name ''Network interface'' \<or>
      (Contains name ''primary'' \<and> Contains name ''interface''))"

text \<open>The shapes the code accepts: a service type as prefix and \<open>-eni\<close> as suffix
  (the two may share the hyphen), and the provider's attachment ids behind a service
  type, whatever their ending.\<close>

definition attachTypes :: "string list" where
  "attachTypes = [''rds'', ''elasticache'', ''elb'', ''lambda'', ''nat'', ''service'']"

definition eniShape :: "string \<Rightarrow> bool" where
  "eniShape name =
     (name = ''unattached-eni'' \<or>
      list_ex (\<lambda>t. HasPrefix name (t @ ''-'') \<and> HasSuffix name ''-eni'') serviceTypes \<or>
      list_ex (\<lambda>t. HasPrefix name (t @ ''-eni-attach-'') \<or> HasPrefix name (t @ ''-ela-attach-''))
        attachTypes \<or>
      (Contains name ''-attach-'' \<and> HasSuffix name ''-eni'') \<or>
      (HasPrefix name ''eni-'' \<and> 21 \<le> length name \<and> length name \<le> 25) \<or>
      name = [] \<or>
      HasPrefix name ''Network interface'' \<or>
      (Contains name ''primary'' \<and> Contains name ''interface''))"

subsection \<open>The candidate set\<close>

text \<open>A record needs tagging when it has no current name, or its name is
  self-generated and no longer valid.\<close>

definition needsTagging :: "bool \<Rightarrow> string \<Rightarrow> string \<Rightarrow> string \<Rightarrow> string \<Rightarrow> bool" where
  "needsTagging hasName name kind currentState extraInfo =
     (\<not> hasName \<or>
      (isQuickTagCreatedName name kind \<and>
       \<not> isQuickTagNameStillValid name kind currentState extraInfo))"

text \<open>The predicate on the records of each kind. An instance is a candidate only when,
  besides, it is not terminated and has an image id.\<close>

definition volumeCandidate :: "Volume \<Rightarrow> bool" where
  "volumeCandidate volume =
     needsTagging (fst (findNameTag (VolumeTags volume))) (snd (findNameTag (VolumeTags volume)))
       ''volume'' (VolumeState volume) (getVolumeMountPoint volume)"

definition eniCandidate :: "NetworkInterface \<Rightarrow> bool" where
  "eniCandidate eni =
     needsTagging (fst (findNameTag (TagSet eni))) (snd (findNameTag (TagSet eni)))
       ''eni'' (Status eni) (getENIAttachmentInfo eni)"

definition instanceCandidate :: "Instance \<Rightarrow> bool" where
  "instanceCandidate inst =
     (case (InstanceState inst, ImageId inst) of
        (Some stateName, Some ami) \<Rightarrow>
          stateName \<noteq> ''terminated'' \<and>
          needsTagging (fst (findNameTag (InstanceTags inst)))
            (snd (findNameTag (InstanceTags inst))) ''instance'' stateName ami
      | _ \<Rightarrow> False)"

text \<open>The records that the pages of a paginator hold.\<close>

definition pageRecords :: "'a list paginator \<Rightarrow> 'a list" where
  "pageRecords pages = concat (map (\<lambda>p. case p of Inl _ \<Rightarrow> [] | Inr xs \<Rightarrow> xs) pages)"

text \<open>The self-generated names of a network interface that say nothing about an
  attachment: placeholders such as the empty name or the bare id.\<close>

definition eniPlaceholderName :: "string \<Rightarrow> bool" where
  "eniPlaceholderName name =
     (isQuickTagCreatedName name ''eni'' \<and> name \<noteq> ''unattached-eni'' \<and>
      \<not> HasPrefix name ''unattached-'' \<and> \<not> Contains name ''-eni'')"

subsection \<open>Service types\<close>

text \<open>The keywords of each service type, in the order of their precedence; the type of a
  description is that of the first row with a keyword that the description contains, in
  any case, and \<open>service\<close> when there is no such row or no description.\<close>

definition keywordTable :: "(string list \<times> string) list" where
  "keywordTable =
     [([''lambda''], ''lambda''),
      ([''rds''], ''rds''),
      ([''elasticache'', ''cache''], ''elasticache''),
      ([''elb'', ''load balancer''], ''elb''),
      ([''nat''], ''nat'')]"

definition inferServiceType :: "string option \<Rightarrow> string" where
  "inferServiceType description =
     (case description of
        None \<Rightarrow> ''service''
      | Some d \<Rightarrow>
         (case find (\<lambda>row. list_ex (Contains (ToLower d)) (fst row)) keywordTable of
            None \<Rightarrow> ''service''
          | Some row \<Rightarrow> snd row))"

text \<open>The load-balancer name extracted from a description, empty when extraction fails or
  there is no description.\<close>

definition elbNameOf :: "string option \<Rightarrow> string" where
  "elbNameOf description = (case description of None \<Rightarrow> [] | Some d \<Rightarrow> extractELBName d)"

subsection \<open>The ledger and the tag writes\<close>

text \<open>The entries that are read from the ledger file, none while the file does not
  exist.\<close>

definition ledger :: "env \<Rightarrow> world \<Rightarrow> TagHistoryEntry list" where
  "ledger e w = (case historyFile w of None \<Rightarrow> [] | Some data \<Rightarrow> Unmarshal e data)"

text \<open>A list of entries reads back from the ledger file as it was written.\<close>

definition readsBack :: "env \<Rightarrow> TagHistoryEntry list \<Rightarrow> bool" where
  "readsBack e actions = (Unmarshal e (Marshal e actions) = actions)"

text \<open>The ledgers that are written when entries are appended to a ledger one at a
  time.\<close>

fun appendedLedgers :: "TagHistoryEntry list \<Rightarrow> TagHistoryEntry list
    \<Rightarrow> TagHistoryEntry list list" where
  "appendedLedgers h [] = []"
| "appendedLedgers h (x # xs) = (h @ [x]) # appendedLedgers (h @ [x]) xs"

text \<open>The entry that records the tagging of a resource.\<close>

definition entryOf :: "env \<Rightarrow> string \<Rightarrow> string \<Rightarrow> ResourceInfo \<Rightarrow> TagHistoryEntry" where
  "entryOf e accountID runID resource =
     \<lparr>Account = accountID, Resource = ID resource, OldValue = Name resource,
      NewValue = SuggestedName resource, Timestamp = now e, RunID = runID, Undone = False\<rparr>"

text \<open>The tag writes that apply the suggested names of a list of resources, the tags
  after them, and the tag writes that restore the old values of a list of entries.\<close>

definition applyWrites :: "ResourceInfo list \<Rightarrow> (string \<times> string) list" where
  "applyWrites resources = map (\<lambda>x. (ID x, SuggestedName x)) resources"

definition tagsAfter :: "(string \<times> string) list \<Rightarrow> (string \<Rightarrow> string) \<Rightarrow> string \<Rightarrow> string" where
  "tagsAfter writes tags = fold (\<lambda>rv m. m(fst rv := snd rv)) writes tags"

definition revertWrites :: "TagHistoryEntry list \<Rightarrow> (string \<times> string) list" where
  "revertWrites actions = map (\<lambda>a. (Resource a, OldValue a)) actions"

text \<open>Every write of a list succeeds at the provider.\<close>

definition writesSucceed :: "env \<Rightarrow> (string \<times> string) list \<Rightarrow> bool" where
  "writesSucceed e writes = list_all (\<lambda>rv. createTagsFails e (fst rv) (snd rv) = None) writes"

text \<open>The reads from standard input that tagging \<open>n\<close> resources needs all succeed:
  none is needed when the tags are applied automatically.\<close>

definition inputsReady :: "bool \<Rightarrow> nat \<Rightarrow> world \<Rightarrow> bool" where
  "inputsReady autoApply n w =
     (autoApply \<or>
      (n \<le> length (stdin w) \<and>
       list_all (\<lambda>x. case x of Inl _ \<Rightarrow> False | Inr _ \<Rightarrow> True) (take n (stdin w))))"

text \<open>The operator's next line on standard input confirms the undo.\<close>

definition confirms :: "world \<Rightarrow> bool" where
  "confirms w =
     (case stdin w of
        Inr line # _ \<Rightarrow> TrimSpace (ToLower line) = ''y'' \<or> TrimSpace (ToLower line) = ''yes''
      | _ \<Rightarrow> False)"

text \<open>The operator's next line on standard input is read and does not confirm the
  undo.\<close>

definition declines :: "world \<Rightarrow> bool" where
  "declines w =
     (case stdin w of
        Inr line # _ \<Rightarrow> TrimSpace (ToLower line) \<noteq> ''y'' \<and> TrimSpace (ToLower line) \<noteq> ''yes''
      | _ \<Rightarrow> False)"

text \<open>The ledger file can be read and written.\<close>

definition ledgerWorks :: "env \<Rightarrow> bool" where
  "ledgerWorks e = (homeKnown e \<and> readFails e = None \<and> writeFails e = None)"

section \<open>Scenarios\<close>

text \<open>Concrete records and provider answers, used to run the definitions.\<close>

definition noImages :: "string list \<Rightarrow> string + Image list" where
  "noImages ids = Inr []"

definition noInstances :: "string list \<Rightarrow> string + Instance list list" where
  "noInstances ids = Inr []"

definition noVolumes :: "string list \<Rightarrow> string + Volume list" where
  "noVolumes ids = Inr []"

definition terminatedInstance :: Instance where
  "terminatedInstance =
     \<lparr>InstanceId = Some ''i-0aa'', ImageId = Some ''ami-0abc'',
      InstanceState = Some ''terminated'', InstanceTags = []\<rparr>"

definition imagelessInstance :: Instance where
  "imagelessInstance =
     \<lparr>InstanceId = Some ''i-0bb'', ImageId = None,
      InstanceState = Some ''running'', InstanceTags = []\<rparr>"

definition untaggedInstance :: Instance where
  "untaggedInstance =
     \<lparr>InstanceId = Some ''i-0cc'', ImageId = Some ''ami-0abc'',
      InstanceState = Some ''running'', InstanceTags = []\<rparr>"

definition staleVolume :: Volume where
  "staleVolume =
     \<lparr>VolumeId = Some ''vol-01'', VolumeState = ''in-use'',
      Attachments = [\<lparr>VolInstanceId = Some ''i-0cc'', Device = Some ''/dev/xvda1''\<rparr>],
      VolumeTags = [\<lparr>Key = Some ''Name'', Value = Some ''unattached''\<rparr>]\<rparr>"

definition namedVolume :: Volume where
  "namedVolume =
     \<lparr>VolumeId = Some ''vol-02'', VolumeState = ''in-use'',
      Attachments = [\<lparr>VolInstanceId = Some ''i-0cc'', Device = Some ''/dev/sdf''\<rparr>],
      VolumeTags = [\<lparr>Key = Some ''Name'', Value = Some ''database''\<rparr>]\<rparr>"

definition emptyNamedVolume :: Volume where
  "emptyNamedVolume =
     \<lparr>VolumeId = Some ''vol-03'', VolumeState = ''available'', Attachments = [],
      VolumeTags = [\<lparr>Key = Some ''Name'', Value = Some []\<rparr>]\<rparr>"

definition elbEni :: NetworkInterface where
  "elbEni =
     \<lparr>NetworkInterfaceId = Some ''eni-01'', Status = ''in-use'',
      Attachment = Some \<lparr>EniInstanceId = None,
                          AttachmentId = Some ''ela-attach-01cacbdcc2dd3038b''\<rparr>,
      Description = Some ''ELB net/my-lb/1234567890abcdef'', TagSet = []\<rparr>"

definition bareIdEni :: NetworkInterface where
  "bareIdEni =
     \<lparr>NetworkInterfaceId = Some ''eni-02'', Status = ''in-use'',
      Attachment = Some \<lparr>EniInstanceId = Some ''i-0cc'', AttachmentId = Some ''eni-attach-7''\<rparr>,
      Description = None,
      TagSet = [\<lparr>Key = Some ''Name'', Value = Some ''eni-1234567890123456789''\<rparr>]\<rparr>"

definition unattachedEni :: NetworkInterface where
  "unattachedEni =
     \<lparr>NetworkInterfaceId = Some ''eni-03'', Status = ''available'', Attachment = None,
      Description = Some ''spare'', TagSet = []\<rparr>"

definition unknownEni :: NetworkInterface where
  "unknownEni =
     \<lparr>NetworkInterfaceId = Some ''eni-04'', Status = ''in-use'',
      Attachment = Some \<lparr>EniInstanceId = None, AttachmentId = None\<rparr>,
      Description = None, TagSet = []\<rparr>"

definition lambdaEni :: NetworkInterface where
  "lambdaEni =
     \<lparr>NetworkInterfaceId = Some ''eni-05'', Status = ''in-use'',
      Attachment = Some \<lparr>EniInstanceId = None, AttachmentId = Some ''ela-attach-5''\<rparr>,
      Description = Some ''AWS Lambda VPC ENI behind ELB app/front/0123'', TagSet = []\<rparr>"

definition cacheEni :: NetworkInterface where
  "cacheEni =
     \<lparr>NetworkInterfaceId = Some ''eni-06'', Status = ''in-use'',
      Attachment = Some \<lparr>EniInstanceId = None, AttachmentId = Some ''eni-attach-6''\<rparr>,
      Description = Some ''ElastiCache node next to ELB app/front/0123'', TagSet = []\<rparr>"

definition namedImages :: "string list \<Rightarrow> string + Image list" where
  "namedImages ids = Inr [\<lparr>AmiId = Some ''ami-0abc'', AmiName = Some ''ubuntu-22.04''\<rparr>]"

definition emptyNameImages :: "string list \<Rightarrow> string + Image list" where
  "emptyNameImages ids = Inr [\<lparr>AmiId = Some ''ami-0abc'', AmiName = Some []\<rparr>]"

definition neverFails :: "string \<Rightarrow> string \<Rightarrow> string option" where
  "neverFails resource v = None"

definition failsOnVolume :: "string \<Rightarrow> string \<Rightarrow> string option" where
  "failsOnVolume resource v =
     (if resource = ''vol-02'' then Some ''UnauthorizedOperation'' else None)"

definition goneOrDenied :: "string \<Rightarrow> string \<Rightarrow> string option" where
  "goneOrDenied resource v =
     (if resource = ''i-0cc'' then Some ''InvalidInstanceID.NotFound''
      else if resource = ''eni-01'' then Some ''RequestLimitExceeded''
      else None)"

text \<open>A stand-in for the YAML library: an entry is a line, its fields are separated by
  tabs. A list of entries whose values have neither tabs nor line breaks reads back as
  it was written.\<close>

definition sampleMarshal :: "TagHistoryEntry list \<Rightarrow> string" where
  "sampleMarshal actions =
     concat (map (\<lambda>a. Account a @ [CHR 0x09] @ Resource a @ [CHR 0x09] @ OldValue a @
                       [CHR 0x09] @ NewValue a @ [CHR 0x09] @ Timestamp a @ [CHR 0x09] @
                       RunID a @ [CHR 0x09] @ (if Undone a then ''true'' else ''false'') @
                       [CHR 0x0A]) actions)"

definition sampleUnmarshal :: "string \<Rightarrow> TagHistoryEntry list" where
  "sampleUnmarshal data =
     concat (map (\<lambda>line. case Split line (CHR 0x09) of
                     [a, r, ov, nv, t, run, u] \<Rightarrow>
                       [\<lparr>Account = a, Resource = r, OldValue = ov, NewValue = nv,
                         Timestamp = t, RunID = run, Undone = (u = ''true'')\<rparr>]
                   | _ \<Rightarrow> [])
               (Split data (CHR 0x0A)))"

definition goodEnv :: env where
  "goodEnv =
     \<lparr>homeKnown = True, readFails = None, writeFails = None, Marshal = sampleMarshal,
      Unmarshal = sampleUnmarshal, configFails = None, createTagsFails = neverFails,
      now = ''2025-01-26T10:00:00Z''\<rparr>"

definition strictEnv :: env where
  "strictEnv = goodEnv\<lparr>createTagsFails := failsOnVolume\<rparr>"

definition brokenLedgerEnv :: env where
  "brokenLedgerEnv = goodEnv\<lparr>writeFails := Some ''disk full''\<rparr>"

definition flakyEnv :: env where
  "flakyEnv = goodEnv\<lparr>createTagsFails := goneOrDenied\<rparr>"

definition noClientEnv :: env where
  "noClientEnv = goodEnv\<lparr>configFails := Some ''no credentials''\<rparr>"

definition currentTags :: "string \<Rightarrow> string" where
  "currentTags resource = (if resource = ''vol-02'' then ''X'' else [])"

definition freshWorld :: world where
  "freshWorld =
     \<lparr>historyFile = None, saves = 0, nameTags = currentTags, tagWrites = [],
      stdin = [Inr [CHR ''y'', CHR 0x0A]], warnings = []\<rparr>"

definition resA :: ResourceInfo where
  "resA =
     \<lparr>ID = ''i-0cc'', Type = ''instance'', Name = [], SuggestedName = ''ubuntu-22.04'',
      State = ''running'', Extra = ''ami-0abc''\<rparr>"

definition resB :: ResourceInfo where
  "resB =
     \<lparr>ID = ''vol-02'', Type = ''volume'', Name = ''X'', SuggestedName = ''Y'',
      State = ''in-use'', Extra = ''/dev/sdf''\<rparr>"

definition resC :: ResourceInfo where
  "resC =
     \<lparr>ID = ''eni-01'', Type = ''eni'', Name = [], SuggestedName = ''my-lb-eni'',
      State = ''in-use'', Extra = ''elb-my-lb''\<rparr>"

definition blankRunEntry :: TagHistoryEntry where
  "blankRunEntry =
     \<lparr>Account = ''123456789012'', Resource = ''vol-02'', OldValue = ''X'', NewValue = ''Y'',
      Timestamp = ''2025-01-26T10:00:00Z'', RunID = [], Undone = False\<rparr>"

definition blankRunWorld :: world where
  "blankRunWorld = freshWorld\<lparr>historyFile := Some (sampleMarshal [blankRunEntry])\<rparr>"

definition appliedWorld :: world where
  "appliedWorld =
     freshWorld\<lparr>historyFile :=
       Some (sampleMarshal (map (entryOf goodEnv ''123456789012'' ''run-1'') [resA, resB, resC]))\<rparr>"

definition declinedWorld :: world where
  "declinedWorld = appliedWorld\<lparr>stdin := [Inr [CHR ''n'', CHR 0x0A]]\<rparr>"

definition someVolumes :: "string list \<Rightarrow> string + Volume list" where
  "someVolumes ids =
     Inr (filter (\<lambda>v. VolumeId v \<in> Some ` set ids) [staleVolume, namedVolume])"

section \<open>Properties of the string functions\<close>

lemma HasPrefix_prefix: "HasPrefix s p = prefix p s"
  unfolding HasPrefix_def
  by (metis append_eq_conv_conj prefixE prefixI prefix_length_le append_take_drop_id)

lemma HasSuffix_suffix: "HasSuffix s p = suffix p s"
  unfolding HasSuffix_def
  by (metis suffix_def suffix_drop suffix_length_le append_eq_conv_conj diff_add_inverse2
      length_append)

lemma Contains_sublist: "Contains s sub = sublist sub s"
  by (induction s) (auto simp: HasPrefix_prefix sublist_Cons_right)

lemma HasPrefix_append: "HasPrefix (p @ s) p"
  by (simp add: HasPrefix_prefix)

lemma HasSuffix_append: "HasSuffix (s @ p) p"
  by (simp add: HasSuffix_suffix suffix_def)

lemma suffix_append_long: "suffix s (a @ r) \<Longrightarrow> length s \<le> length r \<Longrightarrow> suffix s r"
  by (auto simp: suffix_append)

text \<open>What \<open>Split\<close> returns: a string has at least two segments exactly when it
  contains the separator, and the segments are the string without its separators.\<close>

lemma length_splitFrom: "length (splitFrom cur s sep) = Suc (count_list s sep)"
  by (induction s arbitrary: cur) auto

lemma Split_segments: "(2 \<le> length (Split s sep)) = (sep \<in> set s)"
proof -
  have "(2 \<le> length (Split s sep)) = (0 < count_list s sep)"
    by (auto simp: Split_def length_splitFrom)
  also have "\<dots> = (sep \<in> set s)"
    using count_list_0_iff[of s sep] by auto
  finally show ?thesis .
qed

lemma concat_splitFrom:
  "concat (splitFrom cur s sep) = cur @ filter (\<lambda>c. c \<noteq> sep) s"
  by (induction s arbitrary: cur) auto

text \<open>Fields and trimming on ASCII white space and on white space outside ASCII: a
  no-break space, an ideographic space and a line separator.\<close>

lemma Fields_examples:
  "Fields ''  ELB  app/my-lb/123 '' = [''ELB'', ''app/my-lb/123'']"
  "Fields (''ELB'' @ [CHR 0xC2, CHR 0xA0] @ ''app/my-lb/123'') = [''ELB'', ''app/my-lb/123'']"
  "Fields (''a'' @ [CHR 0xE3, CHR 0x80, CHR 0x80] @ ''b'' @ [CHR 0x09, CHR 0xC3, CHR 0xA9]) =
     [''a'', ''b'', [CHR 0xC3, CHR 0xA9]]"
  "Fields [CHR 0x20, CHR 0x0A] = []"
  by code_simp+

lemma TrimSpace_examples:
  "TrimSpace [CHR 0x20, CHR ''y'', CHR ''e'', CHR ''s'', CHR 0x0D, CHR 0x0A] = ''yes''"
  "TrimSpace [CHR ''y'', CHR 0xC2, CHR 0xA0, CHR 0x0A] = ''y''"
  "TrimSpace ([CHR 0xE2, CHR 0x80, CHR 0xA8] @ ''a b'' @ [CHR 0xE3, CHR 0x80, CHR 0x80]) = ''a b''"
  "TrimSpace [CHR 0x20, CHR 0x09] = []"
  by code_simp+

section \<open>Properties of the scans\<close>

text \<open>The body of each scan loop, and the candidates that the loops collect: the ids of
  the candidates are the ids of the records that satisfy the predicate, in the order of
  the pages.\<close>

lemma scanVolume_eq:
  "scanVolume v =
     (if volumeCandidate v then
        (case VolumeId v of
           None \<Rightarrow> Inl NilDereference
         | Some i \<Rightarrow> Inr (Some \<lparr>ID = i, Type = ''volume'', Name = snd (findNameTag (VolumeTags v)),
                               SuggestedName = [], State = VolumeState v,
                               Extra = getVolumeMountPoint v\<rparr>))
      else Inr None)"
  by (auto simp: scanVolume_def volumeCandidate_def needsTagging_def deref_def
      split: prod.splits option.splits)

lemma scanENI_eq:
  "scanENI eni =
     (if eniCandidate eni then
        (case NetworkInterfaceId eni of
           None \<Rightarrow> Inl NilDereference
         | Some i \<Rightarrow> Inr (Some \<lparr>ID = i, Type = ''eni'', Name = snd (findNameTag (TagSet eni)),
                               SuggestedName = [], State = Status eni,
                               Extra = getENIAttachmentInfo eni\<rparr>))
      else Inr None)"
  by (auto simp: scanENI_def eniCandidate_def needsTagging_def deref_def
      split: prod.splits option.splits)

lemma scanInstance_Some:
  "scanInstance inst = Inr (Some r) \<Longrightarrow>
     instanceCandidate inst \<and> InstanceId inst = Some (ID r) \<and> Type r = ''instance'' \<and>
     Name r = snd (findNameTag (InstanceTags inst)) \<and> SuggestedName r = [] \<and>
     InstanceState inst = Some (State r) \<and> ImageId inst = Some (Extra r)"
  by (auto simp: scanInstance_def instanceCandidate_def instanceNeedsTagging_def needsTagging_def
      deref_def isQuickTagNameStillValid_def
      split: prod.splits option.splits if_splits sum.splits)

lemma scanInstance_None:
  "scanInstance inst = Inr None \<Longrightarrow> \<not> instanceCandidate inst"
  by (auto simp: scanInstance_def instanceCandidate_def instanceNeedsTagging_def needsTagging_def
      deref_def isQuickTagNameStillValid_def
      split: prod.splits option.splits if_splits sum.splits)

lemma scanVolumes_ids:
  "scanVolumes vs acc = Inr acc' \<Longrightarrow>
     map (\<lambda>r. Some (ID r)) (fst acc') = map (\<lambda>r. Some (ID r)) (fst acc) @ map VolumeId (filter volumeCandidate vs)"
proof (induction vs arbitrary: acc)
  case Nil
  then show ?case by simp
next
  case (Cons v vs)
  obtain cs ids where acc: "acc = (cs, ids)" by (cases acc)
  show ?case
  proof (cases "volumeCandidate v")
    case True
    with Cons.prems acc obtain i where i: "VolumeId v = Some i"
      by (auto simp: scanVolume_eq split: option.splits)
    with True Cons.prems acc Cons.IH show ?thesis
      by (auto simp: scanVolume_eq)
  next
    case False
    with Cons.prems acc Cons.IH show ?thesis
      by (auto simp: scanVolume_eq)
  qed
qed


lemma scanENIs_ids:
  "scanENIs vs acc = Inr acc' \<Longrightarrow>
     map (\<lambda>r. Some (ID r)) (fst acc') =
       map (\<lambda>r. Some (ID r)) (fst acc) @ map NetworkInterfaceId (filter eniCandidate vs)"
proof (induction vs arbitrary: acc)
  case Nil
  then show ?case by simp
next
  case (Cons v vs)
  obtain cs ids where acc: "acc = (cs, ids)" by (cases acc)
  show ?case
  proof (cases "eniCandidate v")
    case True
    with Cons.prems acc obtain i where i: "NetworkInterfaceId v = Some i"
      by (auto simp: scanENI_eq split: option.splits)
    with True Cons.prems acc Cons.IH show ?thesis
      by (auto simp: scanENI_eq)
  next
    case False
    with Cons.prems acc Cons.IH show ?thesis
      by (auto simp: scanENI_eq)
  qed
qed

lemma scanInstances_ids:
  "scanInstances vs acc = Inr acc' \<Longrightarrow>
     map (\<lambda>r. Some (ID r)) (fst acc') =
       map (\<lambda>r. Some (ID r)) (fst acc) @ map InstanceId (filter instanceCandidate vs)"
proof (induction vs arbitrary: acc)
  case Nil
  then show ?case by simp
next
  case (Cons v vs)
  obtain cs ids where acc: "acc = (cs, ids)" by (cases acc)
  from Cons.prems acc obtain x where x: "scanInstance v = Inr x"
    by (auto split: sum.splits)
  show ?case
  proof (cases x)
    case None
    with x have "\<not> instanceCandidate v" by (simp add: scanInstance_None)
    with None x Cons.prems acc Cons.IH show ?thesis by auto
  next
    case (Some r)
    with x have "instanceCandidate v" "InstanceId v = Some (ID r)"
      by (simp_all add: scanInstance_Some)
    with Some x Cons.prems acc Cons.IH[of "(cs @ [r], insertKey (Extra r) ids)"] show ?thesis
      by auto
  qed
qed

lemma scanVolumePages_ids:
  "scanVolumePages pages acc = Inr acc' \<Longrightarrow>
     map (\<lambda>r. Some (ID r)) (fst acc') =
       map (\<lambda>r. Some (ID r)) (fst acc) @ map VolumeId (filter volumeCandidate (pageRecords pages))"
proof (induction pages acc rule: scanVolumePages.induct)
  case (1 acc)
  then show ?case by (simp add: pageRecords_def)
next
  case (2 e pages acc)
  then show ?case by simp
next
  case (3 page pages acc)
  from "3.prems" obtain acc1 where a: "scanVolumes page acc = Inr acc1"
    and b: "scanVolumePages pages acc1 = Inr acc'"
    by (auto split: sum.splits)
  from "3.IH"[OF a b] scanVolumes_ids[OF a] show ?case
    by (simp add: pageRecords_def)
qed

lemma scanENIPages_ids:
  "scanENIPages pages acc = Inr acc' \<Longrightarrow>
     map (\<lambda>r. Some (ID r)) (fst acc') =
       map (\<lambda>r. Some (ID r)) (fst acc) @ map NetworkInterfaceId (filter eniCandidate (pageRecords pages))"
proof (induction pages acc rule: scanENIPages.induct)
  case (1 acc)
  then show ?case by (simp add: pageRecords_def)
next
  case (2 e pages acc)
  then show ?case by simp
next
  case (3 page pages acc)
  from "3.prems" obtain acc1 where a: "scanENIs page acc = Inr acc1"
    and b: "scanENIPages pages acc1 = Inr acc'"
    by (auto split: sum.splits)
  from "3.IH"[OF a b] scanENIs_ids[OF a] show ?case
    by (simp add: pageRecords_def)
qed

lemma scanInstancePages_ids:
  "scanInstancePages pages acc = Inr acc' \<Longrightarrow>
     map (\<lambda>r. Some (ID r)) (fst acc') =
       map (\<lambda>r. Some (ID r)) (fst acc) @
       map InstanceId (filter instanceCandidate (concat (pageRecords pages)))"
proof (induction pages acc rule: scanInstancePages.induct)
  case (1 acc)
  then show ?case by (simp add: pageRecords_def)
next
  case (2 e pages acc)
  then show ?case by simp
next
  case (3 reservations pages acc)
  from "3.prems" obtain acc1 where a: "scanInstances (concat reservations) acc = Inr acc1"
    and b: "scanInstancePages pages acc1 = Inr acc'"
    by (auto split: sum.splits)
  from "3.IH"[OF a b] scanInstances_ids[OF a] show ?case
    by (simp add: pageRecords_def)
qed

lemma ID_suggestInstance [simp]: "ID (suggestInstance names r) = ID r"
  by (simp add: suggestInstance_def split: option.splits)

lemma ID_suggestVolume [simp]: "ID (suggestVolume names dv r) = ID r"
  by (simp add: suggestVolume_def Let_def split: option.splits)

lemma ID_suggestENI [simp]: "ID (suggestENI names r) = ID r"
  by (simp add: suggestENI_def Let_def split: option.splits)

lemma findUntaggedVolumes_ids:
  assumes "findUntaggedVolumes pages di dv = Inr rs"
  shows "map (\<lambda>r. Some (ID r)) rs = map VolumeId (filter volumeCandidate (pageRecords pages))"
proof -
  from assms obtain acc where a0: "scanVolumePages pages ([], []) = Inr acc"
    by (auto simp: findUntaggedVolumes_def split: sum.splits)
  obtain cs ids where acc: "acc = (cs, ids)" by (cases acc)
  from assms a0 acc obtain names where rs: "rs = map (suggestVolume names dv) cs"
    by (auto simp: findUntaggedVolumes_def split: sum.splits error.splits)
  from a0 acc have a: "scanVolumePages pages ([], []) = Inr (cs, ids)" by simp
  from scanVolumePages_ids[OF a] rs show ?thesis by (simp add: comp_def)
qed

lemma findUntaggedENIs_ids:
  assumes "findUntaggedENIs pages di = Inr rs"
  shows "map (\<lambda>r. Some (ID r)) rs = map NetworkInterfaceId (filter eniCandidate (pageRecords pages))"
proof -
  from assms obtain acc where a0: "scanENIPages pages ([], []) = Inr acc"
    by (auto simp: findUntaggedENIs_def split: sum.splits)
  obtain cs ids where acc: "acc = (cs, ids)" by (cases acc)
  from assms a0 acc obtain names where rs: "rs = map (suggestENI names) cs"
    by (auto simp: findUntaggedENIs_def split: sum.splits error.splits)
  from a0 acc have a: "scanENIPages pages ([], []) = Inr (cs, ids)" by simp
  from scanENIPages_ids[OF a] rs show ?thesis by (simp add: comp_def)
qed

lemma findUntaggedInstances_ids:
  assumes "findUntaggedInstances pages di = Inr rs"
  shows "map (\<lambda>r. Some (ID r)) rs =
    map InstanceId (filter instanceCandidate (concat (pageRecords pages)))"
proof -
  from assms obtain acc where a0: "scanInstancePages pages ([], []) = Inr acc"
    by (auto simp: findUntaggedInstances_def split: sum.splits)
  obtain cs ids where acc: "acc = (cs, ids)" by (cases acc)
  from assms a0 acc obtain names where rs: "rs = map (suggestInstance names) cs"
    by (auto simp: findUntaggedInstances_def split: sum.splits error.splits)
  from a0 acc have a: "scanInstancePages pages ([], []) = Inr (cs, ids)" by simp
  from scanInstancePages_ids[OF a] rs show ?thesis by (simp add: comp_def)
qed

section \<open>The classifier\<close>

text \<open>
  Claim C3. For a volume, a name that says "unattached" (the name \<open>unattached\<close> itself
  or a name with the prefix \<open>unattached-\<close>) is still valid exactly when the current state
  is \<open>available\<close> or the extra info is \<open>unattached\<close>; every other self-generated volume
  name is valid in every state and with every extra info. In particular \<open>unattached\<close> is
  stale on a volume in use at \<open>/dev/xvda1\<close> and valid on an available, unattached one.
\<close>

theorem isStillValid_volume_unattached:
  "(name = ''unattached'' \<or> HasPrefix name ''unattached-'' \<longrightarrow>
      isQuickTagNameStillValid name ''volume'' currentState extraInfo =
        (currentState = ''available'' \<or> extraInfo = ''unattached''))
   \<and> (isQuickTagCreatedName name ''volume'' \<and> name \<noteq> ''unattached'' \<and>
          \<not> HasPrefix name ''unattached-'' \<longrightarrow>
        isQuickTagNameStillValid name ''volume'' currentState extraInfo)
   \<and> isQuickTagNameStillValid ''unattached'' ''volume'' ''in-use'' ''/dev/xvda1'' = False
   \<and> isQuickTagNameStillValid ''unattached'' ''volume'' ''available'' ''unattached'' = True"
  by (simp add: isQuickTagNameStillValid_def isQuickTagCreatedName_def)

theorem isStillValid_volume_unattached_witness:
  "HasPrefix ''unattached-/dev/xvda1'' ''unattached-''
   \<and> isQuickTagNameStillValid ''unattached-/dev/xvda1'' ''volume'' ''in-use'' ''/dev/xvda1'' = False
   \<and> isQuickTagCreatedName ''unknown-vol'' ''volume'' \<and> ''unknown-vol'' \<noteq> ''unattached''
   \<and> \<not> HasPrefix ''unknown-vol'' ''unattached-''
   \<and> isQuickTagNameStillValid ''unknown-vol'' ''volume'' ''in-use'' ''/dev/sdf''"
  using isStillValid_volume_unattached [of "''unattached-/dev/xvda1''" "''in-use''" "''/dev/xvda1''"]
    isStillValid_volume_unattached [of "''unknown-vol''" "''in-use''" "''/dev/sdf''"]
  by (simp add: HasPrefix_def isQuickTagCreatedName_def)

lemma typeIdEni_iff: "typeIdEni t name = (\<exists>id. name = t @ ''-'' @ id @ ''-eni'')"
proof
  assume a: "typeIdEni t name"
  then obtain r where r: "name = (t @ ''-'') @ r"
    unfolding typeIdEni_def HasPrefix_prefix by (auto elim: prefixE)
  from a have s: "suffix ''-eni'' name" and l: "length t + 5 \<le> length name"
    unfolding typeIdEni_def HasSuffix_suffix by auto
  from l r have "length ''-eni'' \<le> length r" by simp
  moreover from s r have "suffix ''-eni'' ((t @ ''-'') @ r)" by simp
  ultimately have "suffix ''-eni'' r"
    by (rule suffix_append_long[rotated])
  then obtain i where "r = i @ ''-eni''" by (auto simp: suffix_def)
  with r show "\<exists>id. name = t @ ''-'' @ id @ ''-eni''" by auto
next
  assume "\<exists>id. name = t @ ''-'' @ id @ ''-eni''"
  then obtain i where "name = t @ ''-'' @ i @ ''-eni''" by blast
  then show "typeIdEni t name"
    unfolding typeIdEni_def HasPrefix_prefix HasSuffix_suffix
    by (simp add: suffix_def)
qed

lemma created_eni_eq_shape: "isQuickTagCreatedName name ''eni'' = eniShape name"
  unfolding isQuickTagCreatedName_def eniShape_def serviceTypes_def attachTypes_def
  apply simp
  apply (rule iffI)
   apply (elim disjE conjE; simp)
  apply (elim disjE conjE; simp)
  done

lemma typeIdEni_created:
  assumes "t \<in> set serviceTypes"
  shows "isQuickTagCreatedName (t @ ''-'' @ i @ ''-eni'') ''eni''"
proof -
  let ?n = "t @ ''-'' @ i @ ''-eni''"
  have p: "HasPrefix ?n (t @ ''-'')"
    using HasPrefix_append[of "t @ ''-''" "i @ ''-eni''"] by simp
  have s: "HasSuffix ?n ''-eni''"
    using HasSuffix_append[of "t @ ''-'' @ i" "''-eni''"] by simp
  from assms p s have "list_ex (\<lambda>u. HasPrefix ?n (u @ ''-'') \<and> HasSuffix ?n ''-eni'') serviceTypes"
    unfolding list_ex_iff by blast
  then show ?thesis
    unfolding created_eni_eq_shape eniShape_def by blast
qed

lemma listed_shape_created: "listedEniShape name \<Longrightarrow> isQuickTagCreatedName name ''eni''"
  unfolding created_eni_eq_shape listedEniShape_def eniShape_def typeIdEni_def list_ex_iff
  by blast

text \<open>
  Claim C4, amended. For a network interface, a name is self-generated exactly when it
  has one of the shapes of \<open>eniShape\<close>: the shapes the specification lists, where
  \<open>{service-type}-{id}-eni\<close> is read as "prefix \<open>{service-type}-\<close> and suffix
  \<open>-eni\<close>" (so \<open>service-eni\<close> counts), together with every name that begins with
  \<open>{type}-eni-attach-\<close> or \<open>{type}-ela-attach-\<close> for a type among rds, elasticache,
  elb, lambda, nat and service, whatever its ending. Every listed shape is accepted, in
  particular every \<open>t-id-eni\<close> with \<open>t\<close> a service type. The empty name is
  self-generated for a network interface and for no instance or volume.
\<close>

theorem isSelfGenerated_eni_shapes:
  "isQuickTagCreatedName name ''eni'' = eniShape name
   \<and> (listedEniShape name \<longrightarrow> isQuickTagCreatedName name ''eni'')
   \<and> (t \<in> set serviceTypes \<longrightarrow> isQuickTagCreatedName (t @ ''-'' @ i @ ''-eni'') ''eni'')
   \<and> typeIdEni t name = (\<exists>id. name = t @ ''-'' @ id @ ''-eni'')
   \<and> isQuickTagCreatedName [] ''eni''
   \<and> \<not> isQuickTagCreatedName [] ''instance''
   \<and> \<not> isQuickTagCreatedName [] ''volume''"
proof -
  have "isQuickTagCreatedName [] ''eni''" "\<not> isQuickTagCreatedName [] ''instance''"
    "\<not> isQuickTagCreatedName [] ''volume''"
    by (simp_all add: isQuickTagCreatedName_def HasPrefix_def)
  then show ?thesis
    using created_eni_eq_shape listed_shape_created typeIdEni_created typeIdEni_iff
    by blast
qed

theorem isSelfGenerated_eni_shapes_witness:
  "listedEniShape ''rds-abc-eni'' \<and> ''rds'' \<in> set serviceTypes
   \<and> isQuickTagCreatedName ''rds-abc-eni'' ''eni'' \<and> eniShape ''rds-abc-eni''
   \<and> typeIdEni ''rds'' ''rds-abc-eni''"
proof -
  have a: "listedEniShape ''rds-abc-eni''" by code_simp
  have b: "''rds'' \<in> set serviceTypes" by (simp add: serviceTypes_def)
  from a b isSelfGenerated_eni_shapes [of "''rds-abc-eni''" "''rds''" "''abc''"]
  show ?thesis by auto
qed

text \<open>The claim as it is written fails: the code accepts \<open>rds-eni-attach-123\<close> and
  \<open>service-eni\<close>, and neither is one of the listed shapes.\<close>

theorem isSelfGenerated_eni_listed_counterexample:
  "isQuickTagCreatedName ''rds-eni-attach-123'' ''eni''
   \<and> \<not> listedEniShape ''rds-eni-attach-123''
   \<and> isQuickTagCreatedName ''service-eni'' ''eni''
   \<and> \<not> listedEniShape ''service-eni''"
  by code_simp

lemma placeholder_valid:
  "eniPlaceholderName name \<Longrightarrow> isQuickTagNameStillValid name ''eni'' currentState extraInfo"
  by (simp add: eniPlaceholderName_def isQuickTagNameStillValid_def)

lemma placeholder_not_candidate:
  "findNameTag (TagSet eni) = (True, name) \<Longrightarrow> eniPlaceholderName name \<Longrightarrow> \<not> eniCandidate eni"
  by (simp add: eniCandidate_def needsTagging_def placeholder_valid)

lemma placeholder_scanENI:
  "findNameTag (TagSet eni) = (True, name) \<Longrightarrow> eniPlaceholderName name \<Longrightarrow> scanENI eni = Inr None"
  by (simp add: scanENI_eq placeholder_not_candidate)

lemma placeholder_never_listed:
  assumes rs: "findUntaggedENIs pages di = Inr rs"
    and all: "list_all (\<lambda>eni. NetworkInterfaceId eni \<noteq> Some i \<or>
                 (fst (findNameTag (TagSet eni)) \<and> eniPlaceholderName (snd (findNameTag (TagSet eni)))))
               (pageRecords pages)"
  shows "i \<notin> ID ` set rs"
proof
  assume "i \<in> ID ` set rs"
  then have "Some i \<in> set (map (\<lambda>r. Some (ID r)) rs)" by auto
  with findUntaggedENIs_ids[OF rs]
  obtain eni where e: "eni \<in> set (pageRecords pages)" "eniCandidate eni"
      "NetworkInterfaceId eni = Some i"
    by auto
  with all have "fst (findNameTag (TagSet eni))"
    "eniPlaceholderName (snd (findNameTag (TagSet eni)))"
    by (auto simp: list_all_iff)
  then have "\<not> eniCandidate eni"
    using placeholder_not_candidate[of eni "snd (findNameTag (TagSet eni))"]
    by (cases "findNameTag (TagSet eni)") auto
  with e show False by simp
qed

lemma not_sub_eni_prefix: "HasPrefix name ''eni-'' \<Longrightarrow> \<not> HasPrefix name ''unattached-''"
  unfolding HasPrefix_prefix using prefix_same_cases[of "''eni-''" name "''unattached-''"]
  by auto

lemma not_sub_ni_prefix: "HasPrefix name ''Network interface'' \<Longrightarrow> \<not> HasPrefix name ''unattached-''"
  unfolding HasPrefix_prefix
  using prefix_same_cases[of "''Network interface''" name "''unattached-''"]
  by auto

lemma unattached_eni_contains: "Contains ''unattached-eni'' ''-eni''"
  by code_simp

lemma placeholder_classes:
  "eniPlaceholderName []"
  "HasPrefix name ''eni-'' \<and> 21 \<le> length name \<and> length name \<le> 25 \<and> \<not> Contains name ''-eni''
     \<Longrightarrow> eniPlaceholderName name"
  "HasPrefix name ''Network interface'' \<and> \<not> Contains name ''-eni'' \<Longrightarrow> eniPlaceholderName name"
  "Contains name ''primary'' \<and> Contains name ''interface'' \<and> \<not> HasPrefix name ''unattached-''
     \<and> \<not> Contains name ''-eni'' \<Longrightarrow> eniPlaceholderName name"
proof -
  show "eniPlaceholderName []" by code_simp
  show "HasPrefix name ''eni-'' \<and> 21 \<le> length name \<and> length name \<le> 25 \<and> \<not> Contains name ''-eni''
     \<Longrightarrow> eniPlaceholderName name"
    using unattached_eni_contains not_sub_eni_prefix[of name]
    by (auto simp: eniPlaceholderName_def isQuickTagCreatedName_def)
  show "HasPrefix name ''Network interface'' \<and> \<not> Contains name ''-eni'' \<Longrightarrow> eniPlaceholderName name"
    using unattached_eni_contains not_sub_ni_prefix[of name]
    by (auto simp: eniPlaceholderName_def isQuickTagCreatedName_def)
  show "Contains name ''primary'' \<and> Contains name ''interface'' \<and> \<not> HasPrefix name ''unattached-''
     \<and> \<not> Contains name ''-eni'' \<Longrightarrow> eniPlaceholderName name"
    using unattached_eni_contains
    by (auto simp: eniPlaceholderName_def isQuickTagCreatedName_def)
qed


text \<open>
  Claim C10. A self-generated name of a network interface that is not \<open>unattached-eni\<close>,
  does not begin with \<open>unattached-\<close> and does not contain \<open>-eni\<close> is still valid in
  every state and with every extra info. The empty name, a bare id (\<open>eni-\<close> and 21 to 25
  bytes), a name that begins with \<open>Network interface\<close> and a name that contains
  \<open>primary\<close> and \<open>interface\<close> are such names whenever they meet the three conditions.
  A network interface whose \<open>Name\<close> tag holds such a name is passed over by the scan,
  and an id that only such interfaces carry is not among the candidates.
\<close>

theorem eni_placeholder_names_stay_valid:
  "(eniPlaceholderName name \<longrightarrow> isQuickTagNameStillValid name ''eni'' currentState extraInfo)
   \<and> (fst (findNameTag (TagSet eni)) \<and> eniPlaceholderName (snd (findNameTag (TagSet eni)))
        \<longrightarrow> scanENI eni = Inr None)
   \<and> (findUntaggedENIs pages describeInstances = Inr rs \<and>
        list_all (\<lambda>eni. NetworkInterfaceId eni \<noteq> Some i \<or>
                    (fst (findNameTag (TagSet eni)) \<and>
                     eniPlaceholderName (snd (findNameTag (TagSet eni)))))
          (pageRecords pages)
        \<longrightarrow> i \<notin> ID ` set rs)
   \<and> eniPlaceholderName []
   \<and> (HasPrefix name ''eni-'' \<and> 21 \<le> length name \<and> length name \<le> 25 \<and>
        \<not> Contains name ''-eni'' \<longrightarrow> eniPlaceholderName name)
   \<and> (HasPrefix name ''Network interface'' \<and> \<not> Contains name ''-eni''
        \<longrightarrow> eniPlaceholderName name)
   \<and> (Contains name ''primary'' \<and> Contains name ''interface'' \<and>
        \<not> HasPrefix name ''unattached-'' \<and> \<not> Contains name ''-eni''
        \<longrightarrow> eniPlaceholderName name)"
proof -
  have "fst (findNameTag (TagSet eni)) \<and> eniPlaceholderName (snd (findNameTag (TagSet eni)))
        \<longrightarrow> scanENI eni = Inr None"
    using placeholder_scanENI[of eni "snd (findNameTag (TagSet eni))"]
    by (cases "findNameTag (TagSet eni)") auto
  then show ?thesis
    using placeholder_valid placeholder_never_listed placeholder_classes by blast
qed

theorem eni_placeholder_names_stay_valid_witness:
  "HasPrefix ''eni-1234567890123456789'' ''eni-''
   \<and> \<not> Contains ''eni-1234567890123456789'' ''-eni''
   \<and> eniPlaceholderName ''eni-1234567890123456789''
   \<and> isQuickTagNameStillValid ''eni-1234567890123456789'' ''eni'' ''in-use'' ''attached-to-i-0cc''
   \<and> findNameTag (TagSet bareIdEni) = (True, ''eni-1234567890123456789'')
   \<and> scanENI bareIdEni = Inr None
   \<and> findUntaggedENIs [Inr [bareIdEni]] noInstances = Inr []
   \<and> ''eni-02'' \<notin> ID ` set []"
proof -
  have a: "HasPrefix ''eni-1234567890123456789'' ''eni-''"
    and b: "\<not> Contains ''eni-1234567890123456789'' ''-eni''"
    by code_simp+
  have c: "findNameTag (TagSet bareIdEni) = (True, ''eni-1234567890123456789'')"
    by (simp add: bareIdEni_def)
  have d: "findUntaggedENIs [Inr [bareIdEni]] noInstances = Inr []"
    by code_simp
  have e: "pageRecords [Inr [bareIdEni]] = [bareIdEni]"
    by (simp add: pageRecords_def)
  from a b c d e
    eni_placeholder_names_stay_valid [of "''eni-1234567890123456789''" "''in-use''"
      "''attached-to-i-0cc''" bareIdEni "[Inr [bareIdEni]]" noInstances "[]" "''eni-02''"]
  show ?thesis by simp
qed

section \<open>The candidate set\<close>

lemma human_name_kept:
  "hasName \<Longrightarrow> \<not> isQuickTagCreatedName name kind \<Longrightarrow> \<not> needsTagging hasName name kind st ex"
  by (simp add: needsTagging_def)

lemma human_volume:
  assumes "fst (findNameTag (VolumeTags volume))"
    and "\<not> isQuickTagCreatedName (snd (findNameTag (VolumeTags volume))) ''volume''"
  shows "\<not> volumeCandidate volume" "scanVolume volume = Inr None"
  using assms by (simp_all add: scanVolume_eq volumeCandidate_def human_name_kept)

lemma human_eni:
  assumes "fst (findNameTag (TagSet eni))"
    and "\<not> isQuickTagCreatedName (snd (findNameTag (TagSet eni))) ''eni''"
  shows "\<not> eniCandidate eni" "scanENI eni = Inr None"
  using assms by (simp_all add: scanENI_eq eniCandidate_def human_name_kept)

lemma human_instance:
  assumes "fst (findNameTag (InstanceTags inst))"
    and "\<not> isQuickTagCreatedName (snd (findNameTag (InstanceTags inst))) ''instance''"
  shows "\<not> instanceCandidate inst" "scanInstance inst \<noteq> Inr (Some r)"
proof -
  from assms show c: "\<not> instanceCandidate inst"
    by (auto simp: instanceCandidate_def human_name_kept split: option.splits)
  from c scanInstance_Some[of inst r] show "scanInstance inst \<noteq> Inr (Some r)" by blast
qed

text \<open>
  Claim C1, amended. When a scan succeeds, the candidates of the volume scan and of the
  network-interface scan are, in the order of the pages, exactly the records that have no
  \<open>Name\<close> tag with a value, or whose name is self-generated and no longer valid. The
  candidates of the instance scan are the instances that satisfy the same predicate and,
  besides, are not terminated and have an image id. A record whose \<open>Name\<close> tag holds a
  name that is not self-generated is never a candidate, for any kind.
\<close>

theorem candidates_need_tagging:
  "(findUntaggedVolumes vpages describeInstances describeVolumes = Inr vs \<longrightarrow>
      map (\<lambda>r. Some (ID r)) vs = map VolumeId (filter volumeCandidate (pageRecords vpages)))
   \<and> (findUntaggedENIs epages describeInstances = Inr es \<longrightarrow>
      map (\<lambda>r. Some (ID r)) es =
        map NetworkInterfaceId (filter eniCandidate (pageRecords epages)))
   \<and> (findUntaggedInstances ipages describeImages = Inr ins \<longrightarrow>
      map (\<lambda>r. Some (ID r)) ins =
        map InstanceId (filter instanceCandidate (concat (pageRecords ipages))))
   \<and> (fst (findNameTag (VolumeTags volume)) \<and>
       \<not> isQuickTagCreatedName (snd (findNameTag (VolumeTags volume))) ''volume'' \<longrightarrow>
         \<not> volumeCandidate volume \<and> scanVolume volume = Inr None)
   \<and> (fst (findNameTag (TagSet eni)) \<and>
       \<not> isQuickTagCreatedName (snd (findNameTag (TagSet eni))) ''eni'' \<longrightarrow>
         \<not> eniCandidate eni \<and> scanENI eni = Inr None)
   \<and> (fst (findNameTag (InstanceTags inst)) \<and>
       \<not> isQuickTagCreatedName (snd (findNameTag (InstanceTags inst))) ''instance'' \<longrightarrow>
         \<not> instanceCandidate inst \<and> scanInstance inst \<noteq> Inr (Some r))"
  using findUntaggedVolumes_ids findUntaggedENIs_ids findUntaggedInstances_ids
    human_volume human_eni human_instance
  by blast

theorem candidates_need_tagging_witness:
  "findUntaggedVolumes [Inr [staleVolume, namedVolume]] noInstances someVolumes =
     Inr [\<lparr>ID = ''vol-01'', Type = ''volume'', Name = ''unattached'',
           SuggestedName = ''i-0cc /dev/xvda1'', State = ''in-use'', Extra = ''/dev/xvda1''\<rparr>]
   \<and> map VolumeId (filter volumeCandidate [staleVolume, namedVolume]) = [Some ''vol-01'']
   \<and> findUntaggedENIs [Inr [elbEni, bareIdEni]] noInstances =
     Inr [\<lparr>ID = ''eni-01'', Type = ''eni'', Name = [], SuggestedName = ''my-lb-eni'',
           State = ''in-use'', Extra = ''elb-my-lb''\<rparr>]
   \<and> map NetworkInterfaceId (filter eniCandidate [elbEni, bareIdEni]) = [Some ''eni-01'']
   \<and> findUntaggedInstances [Inr [[terminatedInstance, imagelessInstance, untaggedInstance]]]
       noImages =
     Inr [\<lparr>ID = ''i-0cc'', Type = ''instance'', Name = [],
           SuggestedName = ''instance-ami-0abc'', State = ''running'', Extra = ''ami-0abc''\<rparr>]
   \<and> map InstanceId
       (filter instanceCandidate [terminatedInstance, imagelessInstance, untaggedInstance]) =
     [Some ''i-0cc'']
   \<and> fst (findNameTag (VolumeTags namedVolume))
   \<and> \<not> isQuickTagCreatedName (snd (findNameTag (VolumeTags namedVolume))) ''volume''
   \<and> scanVolume namedVolume = Inr None"
proof -
  have v: "findUntaggedVolumes [Inr [staleVolume, namedVolume]] noInstances someVolumes =
     Inr [\<lparr>ID = ''vol-01'', Type = ''volume'', Name = ''unattached'',
           SuggestedName = ''i-0cc /dev/xvda1'', State = ''in-use'', Extra = ''/dev/xvda1''\<rparr>]"
    by code_simp
  have e: "findUntaggedENIs [Inr [elbEni, bareIdEni]] noInstances =
     Inr [\<lparr>ID = ''eni-01'', Type = ''eni'', Name = [], SuggestedName = ''my-lb-eni'',
           State = ''in-use'', Extra = ''elb-my-lb''\<rparr>]"
    by code_simp
  have i: "findUntaggedInstances [Inr [[terminatedInstance, imagelessInstance, untaggedInstance]]]
       noImages =
     Inr [\<lparr>ID = ''i-0cc'', Type = ''instance'', Name = [],
           SuggestedName = ''instance-ami-0abc'', State = ''running'', Extra = ''ami-0abc''\<rparr>]"
    by code_simp
  have n: "fst (findNameTag (VolumeTags namedVolume))"
    "\<not> isQuickTagCreatedName (snd (findNameTag (VolumeTags namedVolume))) ''volume''"
    by code_simp+
  have p: "pageRecords [Inr [staleVolume, namedVolume]] = [staleVolume, namedVolume]"
    "pageRecords [Inr [elbEni, bareIdEni]] = [elbEni, bareIdEni]"
    "concat (pageRecords [Inr [[terminatedInstance, imagelessInstance, untaggedInstance]]]) =
       [terminatedInstance, imagelessInstance, untaggedInstance]"
    by (simp_all add: pageRecords_def)
  note t = candidates_need_tagging [of "[Inr [staleVolume, namedVolume]]" noInstances someVolumes
      "[\<lparr>ID = ''vol-01'', Type = ''volume'', Name = ''unattached'',
           SuggestedName = ''i-0cc /dev/xvda1'', State = ''in-use'', Extra = ''/dev/xvda1''\<rparr>]"
      "[Inr [elbEni, bareIdEni]]"
      "[\<lparr>ID = ''eni-01'', Type = ''eni'', Name = [], SuggestedName = ''my-lb-eni'',
           State = ''in-use'', Extra = ''elb-my-lb''\<rparr>]"
      "[Inr [[terminatedInstance, imagelessInstance, untaggedInstance]]]" noImages
      "[\<lparr>ID = ''i-0cc'', Type = ''instance'', Name = [],
           SuggestedName = ''instance-ami-0abc'', State = ''running'', Extra = ''ami-0abc''\<rparr>]"
      namedVolume]
  from t v p(1) have fv:
    "map VolumeId (filter volumeCandidate [staleVolume, namedVolume]) = [Some ''vol-01'']"
    by (simp del: filter.simps)
  from t e p(2) have fe:
    "map NetworkInterfaceId (filter eniCandidate [elbEni, bareIdEni]) = [Some ''eni-01'']"
    by (simp del: filter.simps)
  from t i p(3) have fi:
    "map InstanceId
       (filter instanceCandidate [terminatedInstance, imagelessInstance, untaggedInstance]) =
     [Some ''i-0cc'']"
    by (simp del: filter.simps)
  from t n have sv: "scanVolume namedVolume = Inr None"
    by blast
  from v e i n fv fe fi sv show ?thesis
    by blast
qed

text \<open>The claim as it is written fails for instances: an instance without a \<open>Name\<close> tag
  needs tagging by the predicate, and is no candidate when it is terminated or has no
  image id. It also fails where "no current name" is an empty name: a volume whose
  \<open>Name\<close> tag holds the empty string is no candidate.\<close>

theorem candidates_need_tagging_counterexample:
  "needsTagging (fst (findNameTag (InstanceTags terminatedInstance)))
     (snd (findNameTag (InstanceTags terminatedInstance))) ''instance'' ''terminated'' ''ami-0abc''
   \<and> findUntaggedInstances [Inr [[terminatedInstance]]] noImages = Inr []
   \<and> needsTagging (fst (findNameTag (InstanceTags imagelessInstance)))
     (snd (findNameTag (InstanceTags imagelessInstance))) ''instance'' ''running'' []
   \<and> findUntaggedInstances [Inr [[imagelessInstance]]] noImages = Inr []
   \<and> snd (findNameTag (VolumeTags emptyNamedVolume)) = []
   \<and> findUntaggedVolumes [Inr [emptyNamedVolume]] noInstances noVolumes = Inr []"
  by code_simp

section \<open>ELB-name extraction and the attachment resolver\<close>

lemma elbCandidates_Cons:
  "elbCandidates (x # y # ys) =
     (if ToLower x = ''elb'' \<and> 2 \<le> length (Split y (CHR ''/'')) then [0] else []) @
     map Suc (elbCandidates (y # ys))"
proof -
  have u: "[0..<length (x # y # ys)] = 0 # map Suc [0..<length (y # ys)]"
    by (simp add: upt_conv_Cons map_Suc_upt del: upt_Suc)
  show ?thesis
    unfolding elbCandidates_def u
    by (simp add: filter_map comp_def del: upt_Suc)
qed

lemma elbCandidates_short: "elbCandidates [] = []" "elbCandidates [x] = []"
  by (simp_all add: elbCandidates_def)

lemma elbScan_spec:
  "elbScan parts =
     (case elbCandidates parts of [] \<Rightarrow> [] | i # _ \<Rightarrow> Split (parts ! (i + 1)) (CHR ''/'') ! 1)"
proof (induction parts rule: elbScan.induct)
  case 1
  then show ?case by (simp add: elbCandidates_short)
next
  case (2 part)
  then show ?case by (simp add: elbCandidates_short)
next
  case (3 part elbPart rest)
  then show ?case
    by (auto simp: elbCandidates_Cons Let_def split: list.splits)
qed

lemma extractELBName_search: "extractELBName description = extractELBNameSearch description"
  by (simp add: extractELBName_def extractELBNameSearch_def elbScan_spec Let_def)

lemma no_candidates_empty:
  "elbCandidates (Fields description) = [] \<Longrightarrow> extractELBName description = []"
  by (simp add: extractELBName_search extractELBNameSearch_def)

lemma no_elb_token:
  assumes "list_all (\<lambda>p. ToLower p \<noteq> ''elb'') (Fields description)"
  shows "extractELBName description = []"
proof -
  from assms have "elbCandidates (Fields description) = []"
    by (auto simp: elbCandidates_def list_all_iff filter_empty_conv)
  then show ?thesis by (rule no_candidates_empty)
qed

text \<open>The first candidate is the first field \<open>elb\<close> when that field is a candidate.\<close>

lemma first_candidate:
  assumes f: "find (\<lambda>i. ToLower (parts ! i) = ''elb'') [0..<length parts] = Some i"
    and c: "i \<in> set (elbCandidates parts)"
  shows "\<exists>js. elbCandidates parts = i # js"
proof -
  let ?Q = "\<lambda>i. i + 1 < length parts \<and> ToLower (parts ! i) = ''elb'' \<and>
                  2 \<le> length (Split (parts ! (i + 1)) (CHR ''/''))"
  from f have n: "i < length parts" and first: "\<forall>k<i. ToLower (parts ! k) \<noteq> ''elb''"
    by (auto simp: find_Some_iff)
  from c have q: "?Q i" by (simp add: elbCandidates_def)
  from n have u: "[0..<length parts] = [0..<i] @ i # [Suc i..<length parts]"
    by (metis le_add2 less_imp_add_positive less_or_eq_imp_le plus_nat.add_0 upt_add_eq_append
        upt_conv_Cons zero_le)
  from first have e: "filter ?Q [0..<i] = []"
    by (auto simp: filter_empty_conv)
  have "elbCandidates parts = filter ?Q ([0..<i] @ i # [Suc i..<length parts])"
    unfolding elbCandidates_def using u by simp
  also have "\<dots> = i # filter ?Q [Suc i..<length parts]"
    using e q by simp
  finally show ?thesis by blast
qed

lemma spec_agrees:
  assumes "firstElbDecides description"
  shows "extractELBNameSpec description = extractELBNameSearch description"
proof (cases "find (\<lambda>i. ToLower (Fields description ! i) = ''elb'')
                [0..<length (Fields description)]")
  case None
  then have "elbCandidates (Fields description) = []"
    by (auto simp: find_None_iff elbCandidates_def filter_empty_conv)
  with None show ?thesis
    by (simp add: extractELBNameSpec_def extractELBNameSearch_def)
next
  case (Some i)
  with assms have d: "elbCandidates (Fields description) = [] \<or>
      i \<in> set (elbCandidates (Fields description))"
    by (simp add: firstElbDecides_def Let_def)
  show ?thesis
  proof (cases "i \<in> set (elbCandidates (Fields description))")
    case True
    from first_candidate[OF Some True] obtain js
      where js: "elbCandidates (Fields description) = i # js" by blast
    from True have "i + 1 < length (Fields description) \<and>
        2 \<le> length (Split (Fields description ! (i + 1)) (CHR ''/''))"
      by (simp add: elbCandidates_def)
    with Some js show ?thesis
      by (simp add: extractELBNameSpec_def extractELBNameSearch_def)
  next
    case False
    with d have e: "elbCandidates (Fields description) = []" by simp
    from Some have "i < length (Fields description)"
      "ToLower (Fields description ! i) = ''elb''"
      by (auto simp: find_Some_iff)
    with False have "\<not> (i + 1 < length (Fields description) \<and>
        2 \<le> length (Split (Fields description ! (i + 1)) (CHR ''/'')))"
      by (simp add: elbCandidates_def)
    with Some e show ?thesis
      by (auto simp: extractELBNameSpec_def extractELBNameSearch_def Let_def)
  qed
qed

text \<open>
  Claim C2, amended. \<open>extractELBName\<close> splits the description into its fields at white
  space, looks for the first field equal to \<open>elb\<close> in any case that has a following field
  with at least two segments between slashes, and returns segment 1 of that following
  field; a field \<open>elb\<close> that is the last field, or whose following field has fewer than
  two segments, is passed over and the search goes on. When there is no such field the
  result is the empty string. The result is the one of the specification's algorithm, which
  stops at the first field \<open>elb\<close>, on every description whose first field \<open>elb\<close> is
  followed by a field with at least two segments, or where no field \<open>elb\<close> is. The three
  examples of the specification hold.
\<close>

theorem extractELBName_algorithm:
  "extractELBName description = extractELBNameSearch description
   \<and> (elbCandidates (Fields description) = [] \<longrightarrow> extractELBName description = [])
   \<and> (list_all (\<lambda>p. ToLower p \<noteq> ''elb'') (Fields description) \<longrightarrow>
        extractELBName description = [])
   \<and> (firstElbDecides description \<longrightarrow>
        extractELBName description = extractELBNameSpec description)
   \<and> extractELBName ''ELB app/canvas-lb-sbx/35b9ec36d721abfe'' = ''canvas-lb-sbx''
   \<and> extractELBName ''Not an ELB description'' = []
   \<and> extractELBName [] = []"
proof -
  have "extractELBName ''ELB app/canvas-lb-sbx/35b9ec36d721abfe'' = ''canvas-lb-sbx''"
    by code_simp
  moreover have "extractELBName ''Not an ELB description'' = []"
    by code_simp
  moreover have "extractELBName [] = []"
    by code_simp
  moreover have "firstElbDecides description \<longrightarrow>
        extractELBName description = extractELBNameSpec description"
    using spec_agrees[of description] extractELBName_search[of description] by simp
  ultimately show ?thesis
    using extractELBName_search no_candidates_empty no_elb_token by blast
qed

theorem extractELBName_algorithm_witness:
  "list_all (\<lambda>p. ToLower p \<noteq> ''elb'') (Fields ''Primary network interface'')
   \<and> elbCandidates (Fields ''Primary network interface'') = []
   \<and> extractELBName ''Primary network interface'' = []
   \<and> firstElbDecides ''an elb net/my-lb/1234567890abcdef in front''
   \<and> extractELBName ''an elb net/my-lb/1234567890abcdef in front'' = ''my-lb''
   \<and> extractELBNameSpec ''an elb net/my-lb/1234567890abcdef in front'' = ''my-lb''
   \<and> extractELBName (''ELB'' @ [CHR 0xC2, CHR 0xA0] @ ''app/my-lb/123'') = ''my-lb''
   \<and> extractELBName ''ELB noslash ELB a/b/c'' = ''b''"
proof -
  have a: "list_all (\<lambda>p. ToLower p \<noteq> ''elb'') (Fields ''Primary network interface'')"
    by code_simp
  have b: "elbCandidates (Fields ''Primary network interface'') = []"
    by code_simp
  have c: "firstElbDecides ''an elb net/my-lb/1234567890abcdef in front''"
    by code_simp
  have d: "extractELBNameSpec ''an elb net/my-lb/1234567890abcdef in front'' = ''my-lb''"
    by code_simp
  have e: "extractELBNameSearch (''ELB'' @ [CHR 0xC2, CHR 0xA0] @ ''app/my-lb/123'') = ''my-lb''"
    by code_simp
  have f: "extractELBNameSearch ''ELB noslash ELB a/b/c'' = ''b''"
    by code_simp
  note t1 = extractELBName_algorithm [of "''Primary network interface''"]
  note t2 = extractELBName_algorithm [of "''an elb net/my-lb/1234567890abcdef in front''"]
  note t3 = extractELBName_algorithm [of "''ELB'' @ [CHR 0xC2, CHR 0xA0] @ ''app/my-lb/123''"]
  note t4 = extractELBName_algorithm [of "''ELB noslash ELB a/b/c''"]
  from t1 a have r1: "extractELBName ''Primary network interface'' = []" by blast
  from t2 c have "extractELBName ''an elb net/my-lb/1234567890abcdef in front'' =
      extractELBNameSpec ''an elb net/my-lb/1234567890abcdef in front''"
    by blast
  with d have r2: "extractELBName ''an elb net/my-lb/1234567890abcdef in front'' = ''my-lb''"
    by (simp only:)
  from t3 have "extractELBName (''ELB'' @ [CHR 0xC2, CHR 0xA0] @ ''app/my-lb/123'') =
      extractELBNameSearch (''ELB'' @ [CHR 0xC2, CHR 0xA0] @ ''app/my-lb/123'')"
    by blast
  with e have r3: "extractELBName (''ELB'' @ [CHR 0xC2, CHR 0xA0] @ ''app/my-lb/123'') = ''my-lb''"
    by (simp only:)
  from t4 have "extractELBName ''ELB noslash ELB a/b/c'' =
      extractELBNameSearch ''ELB noslash ELB a/b/c''"
    by blast
  with f have r4: "extractELBName ''ELB noslash ELB a/b/c'' = ''b''"
    by (simp only:)
  from a b r1 c r2 d r3 r4 show ?thesis by (intro conjI)
qed

text \<open>The claim as it is written fails where a field \<open>elb\<close> without a following field of
  two segments comes before one that has it: the specification's algorithm stops at the
  first and gives the empty string, the code goes on to the second.\<close>

theorem extractELBName_algorithm_counterexample:
  "extractELBName ''ELB noslash ELB a/b/c'' = ''b''
   \<and> extractELBNameSpec ''ELB noslash ELB a/b/c'' = []
   \<and> extractELBName ''the elb ELB net/my-lb/12'' = ''my-lb''
   \<and> extractELBNameSpec ''the elb ELB net/my-lb/12'' = []"
  by code_simp

lemma inferServiceType_Some:
  "inferServiceType (Some d) =
     (let desc = ToLower d in
      if Contains desc ''lambda'' then ''lambda''
      else if Contains desc ''rds'' then ''rds''
      else if Contains desc ''elasticache'' \<or> Contains desc ''cache'' then ''elasticache''
      else if Contains desc ''elb'' \<or> Contains desc ''load balancer'' then ''elb''
      else if Contains desc ''nat'' then ''nat''
      else ''service'')"
  by (simp add: inferServiceType_def keywordTable_def Let_def)

lemma inferServiceType_None: "inferServiceType None = ''service''"
  by (simp add: inferServiceType_def)

lemma serviceAttachmentInfo:
  assumes "Attachment eni = Some att" "EniInstanceId att = None"
    "AttachmentId att = Some attachmentId"
  shows "getENIAttachmentInfo eni =
     (if inferServiceType (Description eni) = ''elb'' \<and> elbNameOf (Description eni) \<noteq> []
      then ''attached-elb-'' @ elbNameOf (Description eni)
      else ''attached-'' @ inferServiceType (Description eni) @ ''-'' @ attachmentId)"
proof (cases "Description eni")
  case None
  with assms show ?thesis
    by (simp add: getENIAttachmentInfo_def inferServiceType_None elbNameOf_def)
next
  case (Some d)
  with assms show ?thesis
    by (simp add: getENIAttachmentInfo_def inferServiceType_Some elbNameOf_def Let_def)
qed


text \<open>
  Claim C5. A network interface without an attachment resolves to \<open>unattached\<close>, one
  attached to an instance to \<open>attached-to-<instanceId>\<close>, one whose attachment has
  neither an instance id nor an attachment id to \<open>attached-unknown\<close>. One that has an
  attachment id and no instance id resolves to \<open>attached-<type>-<attachmentId>\<close>, where
  the type is inferred from the description, in any case, by the first keyword found in
  the order lambda, rds, elasticache or cache, elb or load balancer, nat, and is
  \<open>service\<close> when none is found; for the type elb, a load-balancer name extracted from
  the description replaces the attachment id. So lambda wins over elb, and cache wins
  over elb where no keyword of higher precedence is present.
\<close>

theorem getENIAttachmentInfo_resolution:
  "(Attachment eni = None \<longrightarrow> getENIAttachmentInfo eni = ''unattached'')
   \<and> (Attachment eni = Some att \<and> EniInstanceId att = Some instanceId \<longrightarrow>
        getENIAttachmentInfo eni = ''attached-to-'' @ instanceId)
   \<and> (Attachment eni = Some att \<and> EniInstanceId att = None \<and> AttachmentId att = None \<longrightarrow>
        getENIAttachmentInfo eni = ''attached-unknown'')
   \<and> (Attachment eni = Some att \<and> EniInstanceId att = None \<and>
       AttachmentId att = Some attachmentId \<longrightarrow>
        getENIAttachmentInfo eni =
          (if inferServiceType (Description eni) = ''elb'' \<and> elbNameOf (Description eni) \<noteq> []
           then ''attached-elb-'' @ elbNameOf (Description eni)
           else ''attached-'' @ inferServiceType (Description eni) @ ''-'' @ attachmentId))
   \<and> inferServiceType (Some d) =
        (if Contains (ToLower d) ''lambda'' then ''lambda''
         else if Contains (ToLower d) ''rds'' then ''rds''
         else if Contains (ToLower d) ''elasticache'' \<or> Contains (ToLower d) ''cache''
           then ''elasticache''
         else if Contains (ToLower d) ''elb'' \<or> Contains (ToLower d) ''load balancer''
           then ''elb''
         else if Contains (ToLower d) ''nat'' then ''nat''
         else ''service'')
   \<and> inferServiceType None = ''service''
   \<and> (Contains (ToLower d) ''lambda'' \<and> Contains (ToLower d) ''elb'' \<longrightarrow>
        inferServiceType (Some d) = ''lambda'')
   \<and> (Contains (ToLower d) ''cache'' \<and> Contains (ToLower d) ''elb'' \<and>
       \<not> Contains (ToLower d) ''lambda'' \<and> \<not> Contains (ToLower d) ''rds'' \<longrightarrow>
        inferServiceType (Some d) = ''elasticache'')"
proof -
  have a: "Attachment eni = None \<longrightarrow> getENIAttachmentInfo eni = ''unattached''"
    by (simp add: getENIAttachmentInfo_def)
  have b: "Attachment eni = Some att \<and> EniInstanceId att = Some instanceId \<longrightarrow>
        getENIAttachmentInfo eni = ''attached-to-'' @ instanceId"
    by (simp add: getENIAttachmentInfo_def)
  have c: "Attachment eni = Some att \<and> EniInstanceId att = None \<and> AttachmentId att = None \<longrightarrow>
        getENIAttachmentInfo eni = ''attached-unknown''"
    by (simp add: getENIAttachmentInfo_def)
  note d = serviceAttachmentInfo[of eni att attachmentId]
  note e = inferServiceType_Some[of d, unfolded Let_def]
  from e have f: "Contains (ToLower d) ''lambda'' \<and> Contains (ToLower d) ''elb'' \<longrightarrow>
        inferServiceType (Some d) = ''lambda''"
    by simp
  from e have g: "Contains (ToLower d) ''cache'' \<and> Contains (ToLower d) ''elb'' \<and>
       \<not> Contains (ToLower d) ''lambda'' \<and> \<not> Contains (ToLower d) ''rds'' \<longrightarrow>
        inferServiceType (Some d) = ''elasticache''"
    by simp
  from a b c d e f g inferServiceType_None show ?thesis
    by blast
qed

theorem getENIAttachmentInfo_resolution_witness:
  "Attachment unattachedEni = None \<and> getENIAttachmentInfo unattachedEni = ''unattached''
   \<and> getENIAttachmentInfo bareIdEni = ''attached-to-i-0cc''
   \<and> getENIAttachmentInfo unknownEni = ''attached-unknown''
   \<and> getENIAttachmentInfo elbEni = ''attached-elb-my-lb''
   \<and> Contains (ToLower ''AWS Lambda VPC ENI behind ELB app/front/0123'') ''lambda''
   \<and> Contains (ToLower ''AWS Lambda VPC ENI behind ELB app/front/0123'') ''elb''
   \<and> inferServiceType (Description lambdaEni) = ''lambda''
   \<and> getENIAttachmentInfo lambdaEni = ''attached-lambda-ela-attach-5''
   \<and> Contains (ToLower ''ElastiCache node next to ELB app/front/0123'') ''cache''
   \<and> Contains (ToLower ''ElastiCache node next to ELB app/front/0123'') ''elb''
   \<and> inferServiceType (Description cacheEni) = ''elasticache''
   \<and> getENIAttachmentInfo cacheEni = ''attached-elasticache-eni-attach-6''"
proof -
  have u: "Attachment unattachedEni = None"
    by (simp add: unattachedEni_def)
  have i: "Attachment bareIdEni = Some \<lparr>EniInstanceId = Some ''i-0cc'', AttachmentId = Some ''eni-attach-7''\<rparr>"
    by (simp add: bareIdEni_def)
  have k: "Attachment unknownEni = Some \<lparr>EniInstanceId = None, AttachmentId = None\<rparr>"
    by (simp add: unknownEni_def)
  have l: "Attachment lambdaEni = Some \<lparr>EniInstanceId = None, AttachmentId = Some ''ela-attach-5''\<rparr>"
    "Description lambdaEni = Some ''AWS Lambda VPC ENI behind ELB app/front/0123''"
    by (simp_all add: lambdaEni_def)
  have c: "Attachment cacheEni = Some \<lparr>EniInstanceId = None, AttachmentId = Some ''eni-attach-6''\<rparr>"
    "Description cacheEni = Some ''ElastiCache node next to ELB app/front/0123''"
    by (simp_all add: cacheEni_def)
  have b: "Attachment elbEni = Some \<lparr>EniInstanceId = None,
      AttachmentId = Some ''ela-attach-01cacbdcc2dd3038b''\<rparr>"
    "inferServiceType (Description elbEni) = ''elb''"
    "elbNameOf (Description elbEni) = ''my-lb''"
    by code_simp+
  have cl: "Contains (ToLower ''AWS Lambda VPC ENI behind ELB app/front/0123'') ''lambda''"
    "Contains (ToLower ''AWS Lambda VPC ENI behind ELB app/front/0123'') ''elb''"
    by code_simp+
  have cc: "Contains (ToLower ''ElastiCache node next to ELB app/front/0123'') ''cache''"
    "Contains (ToLower ''ElastiCache node next to ELB app/front/0123'') ''elb''"
    "\<not> Contains (ToLower ''ElastiCache node next to ELB app/front/0123'') ''lambda''"
    "\<not> Contains (ToLower ''ElastiCache node next to ELB app/front/0123'') ''rds''"
    by code_simp+
  note t1 = getENIAttachmentInfo_resolution [of unattachedEni]
  note t2 = getENIAttachmentInfo_resolution [of bareIdEni
      "\<lparr>EniInstanceId = Some ''i-0cc'', AttachmentId = Some ''eni-attach-7''\<rparr>" "''i-0cc''"]
  note t3 = getENIAttachmentInfo_resolution [of unknownEni
      "\<lparr>EniInstanceId = None, AttachmentId = None\<rparr>"]
  note t4 = getENIAttachmentInfo_resolution [of elbEni
      "\<lparr>EniInstanceId = None, AttachmentId = Some ''ela-attach-01cacbdcc2dd3038b''\<rparr>" _
      "''ela-attach-01cacbdcc2dd3038b''"]
  note t5 = getENIAttachmentInfo_resolution [of lambdaEni
      "\<lparr>EniInstanceId = None, AttachmentId = Some ''ela-attach-5''\<rparr>" _ "''ela-attach-5''"
      "''AWS Lambda VPC ENI behind ELB app/front/0123''"]
  note t6 = getENIAttachmentInfo_resolution [of cacheEni
      "\<lparr>EniInstanceId = None, AttachmentId = Some ''eni-attach-6''\<rparr>" _ "''eni-attach-6''"
      "''ElastiCache node next to ELB app/front/0123''"]
  from t1 u have r1: "getENIAttachmentInfo unattachedEni = ''unattached''" by blast
  from t2 i have r2: "getENIAttachmentInfo bareIdEni = ''attached-to-i-0cc''" by simp
  from t3 k have r3: "getENIAttachmentInfo unknownEni = ''attached-unknown''" by simp
  from t4 b have r4: "getENIAttachmentInfo elbEni = ''attached-elb-my-lb''" by simp
  from t5 cl l have r5: "inferServiceType (Description lambdaEni) = ''lambda''" by metis
  from t5 l r5 have r6: "getENIAttachmentInfo lambdaEni = ''attached-lambda-ela-attach-5''"
    by simp
  from t6 cc c have r7: "inferServiceType (Description cacheEni) = ''elasticache''" by metis
  from t6 c r7 have r8: "getENIAttachmentInfo cacheEni = ''attached-elasticache-eni-attach-6''"
    by simp
  from u r1 r2 r3 r4 cl r5 r6 cc r7 r8 show ?thesis by blast
qed

section \<open>The name-suggestion engine\<close>

lemma Cut_first: "sep \<notin> set a \<Longrightarrow> Cut (a @ sep # b) sep = Some (a, b)"
  by (induction a) auto

lemma Cut_none: "sep \<notin> set s \<Longrightarrow> Cut s sep = None"
  by (induction s) auto

lemma SplitN_three:
  assumes "CHR ''-'' \<notin> set t"
  shows "SplitN (''attached-'' @ t @ ''-'' @ x) (CHR ''-'') 3 = [''attached'', t, x]"
proof -
  have a: "Cut (''attached-'' @ t @ ''-'' @ x) (CHR ''-'') = Some (''attached'', t @ ''-'' @ x)"
    using Cut_first[of "CHR ''-''" "''attached''" "t @ ''-'' @ x"] by simp
  have b: "Cut (t @ ''-'' @ x) (CHR ''-'') = Some (t, x)"
    using Cut_first[of "CHR ''-''" t x] assms by simp
  show ?thesis
    using a b by (simp add: numeral_3_eq_3)
qed

lemma SplitN_two:
  assumes "CHR ''-'' \<notin> set x"
  shows "SplitN (''attached-'' @ x) (CHR ''-'') 3 = [''attached'', x]"
proof -
  have a: "Cut (''attached-'' @ x) (CHR ''-'') = Some (''attached'', x)"
    using Cut_first[of "CHR ''-''" "''attached''" x] by simp
  have b: "Cut x (CHR ''-'') = None"
    using Cut_none assms by simp
  show ?thesis
    using a b by (simp add: numeral_3_eq_3)
qed

lemma not_attached_to:
  assumes "CHR ''-'' \<notin> set t" "t \<noteq> ''to''"
  shows "\<not> HasPrefix (''attached-'' @ t @ ''-'' @ x) ''attached-to-''"
proof
  assume "HasPrefix (''attached-'' @ t @ ''-'' @ x) ''attached-to-''"
  then have p: "prefix ''to-'' (t @ ''-'' @ x)"
    by (simp add: HasPrefix_prefix)
  show False
  proof (cases t)
    case Nil
    with p show False by simp
  next
    case (Cons a t1)
    note c1 = Cons
    show False
    proof (cases t1)
      case Nil
      with p c1 show False by simp
    next
      case (Cons b t2)
      with p c1 assms show False by (cases t2) auto
    qed
  qed
qed

lemma not_attached_to_short:
  assumes "CHR ''-'' \<notin> set x"
  shows "\<not> HasPrefix (''attached-'' @ x) ''attached-to-''"
proof
  assume "HasPrefix (''attached-'' @ x) ''attached-to-''"
  then have "prefix ''to-'' x" by (simp add: HasPrefix_prefix)
  then have "CHR ''-'' \<in> set x" by (auto simp: prefix_def)
  with assms show False by simp
qed

lemma attached_prefix: "HasPrefix (''attached-'' @ s) ''attached-''"
  using HasPrefix_append[of "''attached-''" s] by simp

lemma TrimPrefix_attached: "TrimPrefix (''attached-'' @ s) ''attached-'' = s"
  using attached_prefix[of s] by (simp add: TrimPrefix_def)

lemma suggestENI_service:
  assumes "CHR ''-'' \<notin> set t" "t \<noteq> ''to''" "Extra r = ''attached-'' @ t @ ''-'' @ x"
  shows "suggestENI names r =
    (if t = ''elb'' then r\<lparr>SuggestedName := x @ ''-eni'', Extra := ''elb-'' @ x\<rparr>
     else r\<lparr>SuggestedName := t @ ''-'' @ x @ ''-eni'', Extra := t @ ''-attachment-'' @ x\<rparr>)"
  using assms not_attached_to[of t x] attached_prefix[of "t @ ''-'' @ x"] SplitN_three[of t x]
  by (simp add: suggestENI_def Let_def)

lemma suggestENI_fallback:
  assumes "CHR ''-'' \<notin> set x" "Extra r = ''attached-'' @ x"
  shows "suggestENI names r =
    r\<lparr>SuggestedName := ''service-'' @ x @ ''-eni'', Extra := ''service-attachment-'' @ x\<rparr>"
  using assms not_attached_to_short[of x] attached_prefix[of x] SplitN_two[of x]
    TrimPrefix_attached[of x]
  by (simp add: suggestENI_def Let_def)

lemma inferServiceType_shape:
  "CHR ''-'' \<notin> set (inferServiceType description) \<and> inferServiceType description \<noteq> ''to''"
  by (cases description) (simp_all add: inferServiceType_None inferServiceType_Some Let_def)

lemma elb_end_to_end:
  "findUntaggedENIs [Inr [elbEni]] describeInstances =
     Inr [\<lparr>ID = ''eni-01'', Type = ''eni'', Name = [], SuggestedName = ''my-lb-eni'',
           State = ''in-use'', Extra = ''elb-my-lb''\<rparr>]"
  by code_simp


text \<open>
  Claim C6. For a candidate whose extra info is \<open>attached-<type>-<id>\<close>, with a type
  without a hyphen that is not \<open>to\<close> (every service type that the resolver infers is
  such a type), the extra info splits on the hyphen into the three parts \<open>attached\<close>,
  type and id; for the type elb the suggested name is \<open><id>-eni\<close> and the extra info
  becomes \<open>elb-<id>\<close>, for every other type they are \<open><type>-<id>-eni\<close> and
  \<open><type>-attachment-<id>\<close>. When the split gives fewer than three parts (there is no
  hyphen behind \<open>attached-\<close>), the rest is taken as the id, the suggested name is
  \<open>service-<id>-eni\<close> and the extra info \<open>service-attachment-<id>\<close>. The network
  interface of the end-to-end scenario resolves to \<open>attached-elb-my-lb\<close> and is listed
  with the suggested name \<open>my-lb-eni\<close> and the extra info \<open>elb-my-lb\<close>.
\<close>

theorem suggestENI_service_attachment:
  "(CHR ''-'' \<notin> set t \<and> t \<noteq> ''to'' \<and> Extra r = ''attached-'' @ t @ ''-'' @ x \<longrightarrow>
      SplitN (Extra r) (CHR ''-'') 3 = [''attached'', t, x] \<and>
      suggestENI attachmentNames r =
        (if t = ''elb'' then r\<lparr>SuggestedName := x @ ''-eni'', Extra := ''elb-'' @ x\<rparr>
         else r\<lparr>SuggestedName := t @ ''-'' @ x @ ''-eni'',
                Extra := t @ ''-attachment-'' @ x\<rparr>))
   \<and> (CHR ''-'' \<notin> set x \<and> Extra r = ''attached-'' @ x \<longrightarrow>
      length (SplitN (Extra r) (CHR ''-'') 3) < 3 \<and>
      suggestENI attachmentNames r =
        r\<lparr>SuggestedName := ''service-'' @ x @ ''-eni'',
          Extra := ''service-attachment-'' @ x\<rparr>)
   \<and> CHR ''-'' \<notin> set (inferServiceType description)
   \<and> inferServiceType description \<noteq> ''to''
   \<and> Description elbEni = Some ''ELB net/my-lb/1234567890abcdef''
   \<and> getENIAttachmentInfo elbEni = ''attached-elb-my-lb''
   \<and> findUntaggedENIs [Inr [elbEni]] describeInstances =
        Inr [\<lparr>ID = ''eni-01'', Type = ''eni'', Name = [], SuggestedName = ''my-lb-eni'',
              State = ''in-use'', Extra = ''elb-my-lb''\<rparr>]"
proof -
  have a: "CHR ''-'' \<notin> set t \<and> t \<noteq> ''to'' \<and> Extra r = ''attached-'' @ t @ ''-'' @ x \<longrightarrow>
      SplitN (Extra r) (CHR ''-'') 3 = [''attached'', t, x] \<and>
      suggestENI attachmentNames r =
        (if t = ''elb'' then r\<lparr>SuggestedName := x @ ''-eni'', Extra := ''elb-'' @ x\<rparr>
         else r\<lparr>SuggestedName := t @ ''-'' @ x @ ''-eni'',
                Extra := t @ ''-attachment-'' @ x\<rparr>)"
    using SplitN_three[of t x] suggestENI_service[of t r x attachmentNames] by simp
  have b: "CHR ''-'' \<notin> set x \<and> Extra r = ''attached-'' @ x \<longrightarrow>
      length (SplitN (Extra r) (CHR ''-'') 3) < 3 \<and>
      suggestENI attachmentNames r =
        r\<lparr>SuggestedName := ''service-'' @ x @ ''-eni'',
          Extra := ''service-attachment-'' @ x\<rparr>"
    using SplitN_two[of x] suggestENI_fallback[of x r attachmentNames] by simp
  have c: "Description elbEni = Some ''ELB net/my-lb/1234567890abcdef''"
    by (simp add: elbEni_def)
  have d: "getENIAttachmentInfo elbEni = ''attached-elb-my-lb''"
    by code_simp
  from a b c d inferServiceType_shape[of description] elb_end_to_end[of describeInstances]
  show ?thesis by blast
qed

theorem suggestENI_service_attachment_witness:
  "CHR ''-'' \<notin> set ''rds''
   \<and> suggestENI Map.empty
        \<lparr>ID = ''eni-09'', Type = ''eni'', Name = [], SuggestedName = [], State = ''in-use'',
         Extra = ''attached-rds-eni-attach-9''\<rparr> =
      \<lparr>ID = ''eni-09'', Type = ''eni'', Name = [], SuggestedName = ''rds-eni-attach-9-eni'',
       State = ''in-use'', Extra = ''rds-attachment-eni-attach-9''\<rparr>
   \<and> suggestENI Map.empty
        \<lparr>ID = ''eni-04'', Type = ''eni'', Name = [], SuggestedName = [], State = ''in-use'',
         Extra = ''attached-unknown''\<rparr> =
      \<lparr>ID = ''eni-04'', Type = ''eni'', Name = [], SuggestedName = ''service-unknown-eni'',
       State = ''in-use'', Extra = ''service-attachment-unknown''\<rparr>"
proof -
  note t1 = suggestENI_service_attachment [of "''rds''"
      "\<lparr>ID = ''eni-09'', Type = ''eni'', Name = [], SuggestedName = [], State = ''in-use'',
         Extra = ''attached-rds-eni-attach-9''\<rparr>" "''eni-attach-9''" Map.empty]
  note t2 = suggestENI_service_attachment [of _
      "\<lparr>ID = ''eni-04'', Type = ''eni'', Name = [], SuggestedName = [], State = ''in-use'',
         Extra = ''attached-unknown''\<rparr>" "''unknown''" Map.empty]
  from t1 have r1: "suggestENI Map.empty
        \<lparr>ID = ''eni-09'', Type = ''eni'', Name = [], SuggestedName = [], State = ''in-use'',
         Extra = ''attached-rds-eni-attach-9''\<rparr> =
      \<lparr>ID = ''eni-09'', Type = ''eni'', Name = [], SuggestedName = ''rds-eni-attach-9-eni'',
       State = ''in-use'', Extra = ''rds-attachment-eni-attach-9''\<rparr>"
    by simp
  from t2 have r2: "suggestENI Map.empty
        \<lparr>ID = ''eni-04'', Type = ''eni'', Name = [], SuggestedName = [], State = ''in-use'',
         Extra = ''attached-unknown''\<rparr> =
      \<lparr>ID = ''eni-04'', Type = ''eni'', Name = [], SuggestedName = ''service-unknown-eni'',
       State = ''in-use'', Extra = ''service-attachment-unknown''\<rparr>"
    by simp
  from r1 r2 show ?thesis by simp
qed

lemma suggestENI_suffix: "HasSuffix (SuggestedName (suggestENI names r)) ''-eni''"
  unfolding HasSuffix_suffix
  by (auto simp: suggestENI_def Let_def suffix_def split: option.splits)

lemma HasSuffix_nonempty: "HasSuffix s ''-eni'' \<Longrightarrow> s \<noteq> []"
  by (auto simp: HasSuffix_def)

lemma suggestVolume_forms:
  "SuggestedName (suggestVolume names dv r) = ''unattached'' \<or>
   (\<exists>i n. i \<noteq> [] \<and> SuggestedName (suggestVolume names dv r) = i @ ''('' @ n @ '') '' @ Extra r) \<or>
   (\<exists>i. i \<noteq> [] \<and> SuggestedName (suggestVolume names dv r) = i @ '' '' @ Extra r)"
  by (auto simp: suggestVolume_def Let_def split: option.splits)

lemma Extra_suggestVolume [simp]: "Extra (suggestVolume names dv r) = Extra r"
  by (simp add: suggestVolume_def Let_def split: option.splits)

lemma Extra_suggestInstance [simp]: "Extra (suggestInstance names r) = Extra r"
  by (simp add: suggestInstance_def split: option.splits)

lemma suggestVolume_nonempty: "SuggestedName (suggestVolume names dv r) \<noteq> []"
  using suggestVolume_forms[of names dv r] by auto

lemma suggestInstance_forms:
  "SuggestedName (suggestInstance names r) = ''instance-'' @ Extra r \<or>
   names (Extra r) = Some (SuggestedName (suggestInstance names r))"
  by (auto simp: suggestInstance_def split: option.splits)

lemma addImages_source:
  "addImages images names k = Some n \<Longrightarrow>
     names k = Some n \<or> (\<exists>img \<in> set images. AmiId img = Some k \<and> AmiName img = Some n)"
proof (induction images arbitrary: names)
  case Nil
  then show ?case by simp
next
  case (Cons img images)
  show ?case
  proof (cases "AmiId img")
    case None
    with Cons show ?thesis by auto
  next
    case (Some i)
    note i = Some
    show ?thesis
    proof (cases "AmiName img")
      case None
      with i Cons show ?thesis by auto
    next
      case (Some m)
      with i Cons.prems have "addImages images (names(i \<mapsto> m)) k = Some n" by simp
      from Cons.IH[OF this] i Some show ?thesis
        by (auto split: if_splits)
    qed
  qed
qed

lemma amiBatches_source:
  "amiBatches describeImages b ids names = Inr names' \<Longrightarrow> names' k = Some n \<Longrightarrow>
     names k = Some n \<or>
     (\<exists>batch images img. describeImages batch = Inr images \<and> img \<in> set images \<and>
        AmiId img = Some k \<and> AmiName img = Some n)"
proof (induction describeImages b ids names rule: amiBatches.induct)
  case (1 describeImages batchSize ids amiNames)
  show ?case
  proof (cases "ids = [] \<or> batchSize = 0")
    case True
    with "1.prems" show ?thesis by simp
  next
    case False
    with "1.prems" obtain images where im: "describeImages (take batchSize ids) = Inr images"
      and rest: "amiBatches describeImages batchSize (drop batchSize ids)
                   (addImages images amiNames) = Inr names'"
      by (auto split: sum.splits)
    from "1.IH"[OF False im rest "1.prems"(2)]
    show ?thesis
      using addImages_source[of images amiNames k n] im by blast
  qed
qed

lemma getAMINames_source:
  "getAMINames describeImages ids = Inr names \<Longrightarrow> names k = Some n \<Longrightarrow>
     (\<exists>batch images img. describeImages batch = Inr images \<and> img \<in> set images \<and>
        AmiId img = Some k \<and> AmiName img = Some n)"
  using amiBatches_source[of describeImages 200 ids Map.empty names k n]
  by (auto simp: getAMINames_def split: if_splits)


lemma findUntaggedVolumes_member:
  assumes "findUntaggedVolumes pages di dv = Inr rs" "r \<in> set rs"
  shows "\<exists>names c. r = suggestVolume names dv c"
  using assms
  by (fastforce simp: findUntaggedVolumes_def split: sum.splits error.splits prod.splits)

lemma findUntaggedENIs_member:
  assumes "findUntaggedENIs pages di = Inr rs" "r \<in> set rs"
  shows "\<exists>names c. r = suggestENI names c"
  using assms
  by (fastforce simp: findUntaggedENIs_def split: sum.splits error.splits prod.splits)

lemma findUntaggedInstances_member:
  assumes "findUntaggedInstances pages di = Inr rs" "r \<in> set rs"
  shows "\<exists>names ids c. getAMINames di ids = Inr names \<and> r = suggestInstance names c"
  using assms
  by (fastforce simp: findUntaggedInstances_def split: sum.splits error.splits prod.splits)

lemma volume_suggestion:
  assumes "findUntaggedVolumes pages di dv = Inr rs" "r \<in> set rs"
  shows "SuggestedName r \<noteq> [] \<and>
     (SuggestedName r = ''unattached'' \<or>
      (\<exists>i n. i \<noteq> [] \<and> SuggestedName r = i @ ''('' @ n @ '') '' @ Extra r) \<or>
      (\<exists>i. i \<noteq> [] \<and> SuggestedName r = i @ '' '' @ Extra r))"
proof -
  from findUntaggedVolumes_member[OF assms] obtain names c
    where r: "r = suggestVolume names dv c" by blast
  from suggestVolume_forms[of names dv c] suggestVolume_nonempty[of names dv c] r
  show ?thesis by simp
qed

lemma eni_suggestion:
  assumes "findUntaggedENIs pages di = Inr rs" "r \<in> set rs"
  shows "SuggestedName r \<noteq> [] \<and> HasSuffix (SuggestedName r) ''-eni''"
proof -
  from findUntaggedENIs_member[OF assms] obtain names c
    where r: "r = suggestENI names c" by blast
  from suggestENI_suffix[of names c] r HasSuffix_nonempty[of "SuggestedName r"]
  show ?thesis by simp
qed

lemma instance_suggestion:
  assumes "findUntaggedInstances pages di = Inr rs" "r \<in> set rs"
  shows "SuggestedName r = ''instance-'' @ Extra r \<or>
     (\<exists>batch images img. di batch = Inr images \<and> img \<in> set images \<and>
        AmiId img = Some (Extra r) \<and> AmiName img = Some (SuggestedName r))"
proof -
  from findUntaggedInstances_member[OF assms] obtain names ids c
    where g: "getAMINames di ids = Inr names" and r: "r = suggestInstance names c" by blast
  from suggestInstance_forms[of names c] r
  consider "SuggestedName r = ''instance-'' @ Extra r"
    | "names (Extra r) = Some (SuggestedName r)" by auto
  then show ?thesis
  proof cases
    case 1
    then show ?thesis by simp
  next
    case 2
    from getAMINames_source[OF g 2] show ?thesis by blast
  qed
qed

text \<open>
  Claim C7, amended. Every candidate that the volume scan or the network-interface scan
  returns has a non-empty suggested name: a volume gets \<open>unattached\<close>,
  \<open><instanceId>(<instanceName>) <device>\<close> or \<open><instanceId> <device>\<close> with a
  non-empty instance id, a network interface a name that ends in \<open>-eni\<close>. Every
  candidate that the instance scan returns gets \<open>instance-<amiId>\<close> or the name that the
  provider returned for its image; its suggested name is empty only when the provider
  returned the empty name for that image.
\<close>

theorem suggested_names:
  "(findUntaggedVolumes vpages describeInstances describeVolumes = Inr vs \<and> v \<in> set vs \<longrightarrow>
      SuggestedName v \<noteq> [] \<and>
      (SuggestedName v = ''unattached'' \<or>
       (\<exists>i n. i \<noteq> [] \<and> SuggestedName v = i @ ''('' @ n @ '') '' @ Extra v) \<or>
       (\<exists>i. i \<noteq> [] \<and> SuggestedName v = i @ '' '' @ Extra v)))
   \<and> (findUntaggedENIs epages describeInstances = Inr es \<and> e \<in> set es \<longrightarrow>
      SuggestedName e \<noteq> [] \<and> HasSuffix (SuggestedName e) ''-eni'')
   \<and> (findUntaggedInstances ipages describeImages = Inr ins \<and> inst \<in> set ins \<longrightarrow>
      (SuggestedName inst = ''instance-'' @ Extra inst \<or>
       (\<exists>batch images img. describeImages batch = Inr images \<and> img \<in> set images \<and>
          AmiId img = Some (Extra inst) \<and> AmiName img = Some (SuggestedName inst))) \<and>
      (SuggestedName inst = [] \<longrightarrow>
       (\<exists>batch images img. describeImages batch = Inr images \<and> img \<in> set images \<and>
          AmiId img = Some (Extra inst) \<and> AmiName img = Some [])))"
proof -
  have i: "findUntaggedInstances ipages describeImages = Inr ins \<and> inst \<in> set ins \<longrightarrow>
      (SuggestedName inst = ''instance-'' @ Extra inst \<or>
       (\<exists>batch images img. describeImages batch = Inr images \<and> img \<in> set images \<and>
          AmiId img = Some (Extra inst) \<and> AmiName img = Some (SuggestedName inst))) \<and>
      (SuggestedName inst = [] \<longrightarrow>
       (\<exists>batch images img. describeImages batch = Inr images \<and> img \<in> set images \<and>
          AmiId img = Some (Extra inst) \<and> AmiName img = Some []))"
    using instance_suggestion[of ipages describeImages ins inst] by auto
  from i volume_suggestion[of vpages describeInstances describeVolumes vs v]
    eni_suggestion[of epages describeInstances es e]
  show ?thesis by blast
qed

theorem suggested_names_witness:
  "findUntaggedVolumes [Inr [staleVolume, namedVolume]] noInstances someVolumes =
     Inr [\<lparr>ID = ''vol-01'', Type = ''volume'', Name = ''unattached'',
           SuggestedName = ''i-0cc /dev/xvda1'', State = ''in-use'', Extra = ''/dev/xvda1''\<rparr>]
   \<and> findUntaggedENIs [Inr [elbEni, bareIdEni]] noInstances =
     Inr [\<lparr>ID = ''eni-01'', Type = ''eni'', Name = [], SuggestedName = ''my-lb-eni'',
           State = ''in-use'', Extra = ''elb-my-lb''\<rparr>]
   \<and> HasSuffix ''my-lb-eni'' ''-eni''
   \<and> findUntaggedInstances [Inr [[untaggedInstance]]] namedImages =
     Inr [\<lparr>ID = ''i-0cc'', Type = ''instance'', Name = [], SuggestedName = ''ubuntu-22.04'',
           State = ''running'', Extra = ''ami-0abc''\<rparr>]
   \<and> (\<exists>batch images img. namedImages batch = Inr images \<and> img \<in> set images \<and>
          AmiId img = Some ''ami-0abc'' \<and> AmiName img = Some ''ubuntu-22.04'')"
proof -
  have v: "findUntaggedVolumes [Inr [staleVolume, namedVolume]] noInstances someVolumes =
     Inr [\<lparr>ID = ''vol-01'', Type = ''volume'', Name = ''unattached'',
           SuggestedName = ''i-0cc /dev/xvda1'', State = ''in-use'', Extra = ''/dev/xvda1''\<rparr>]"
    by code_simp
  have e: "findUntaggedENIs [Inr [elbEni, bareIdEni]] noInstances =
     Inr [\<lparr>ID = ''eni-01'', Type = ''eni'', Name = [], SuggestedName = ''my-lb-eni'',
           State = ''in-use'', Extra = ''elb-my-lb''\<rparr>]"
    by code_simp
  have i: "findUntaggedInstances [Inr [[untaggedInstance]]] namedImages =
     Inr [\<lparr>ID = ''i-0cc'', Type = ''instance'', Name = [], SuggestedName = ''ubuntu-22.04'',
           State = ''running'', Extra = ''ami-0abc''\<rparr>]"
    by code_simp
  note t = suggested_names [of "[Inr [staleVolume, namedVolume]]" noInstances someVolumes
      "[\<lparr>ID = ''vol-01'', Type = ''volume'', Name = ''unattached'',
           SuggestedName = ''i-0cc /dev/xvda1'', State = ''in-use'', Extra = ''/dev/xvda1''\<rparr>]"
      "\<lparr>ID = ''vol-01'', Type = ''volume'', Name = ''unattached'',
           SuggestedName = ''i-0cc /dev/xvda1'', State = ''in-use'', Extra = ''/dev/xvda1''\<rparr>"
      "[Inr [elbEni, bareIdEni]]"
      "[\<lparr>ID = ''eni-01'', Type = ''eni'', Name = [], SuggestedName = ''my-lb-eni'',
           State = ''in-use'', Extra = ''elb-my-lb''\<rparr>]"
      "\<lparr>ID = ''eni-01'', Type = ''eni'', Name = [], SuggestedName = ''my-lb-eni'',
           State = ''in-use'', Extra = ''elb-my-lb''\<rparr>"
      "[Inr [[untaggedInstance]]]" namedImages
      "[\<lparr>ID = ''i-0cc'', Type = ''instance'', Name = [], SuggestedName = ''ubuntu-22.04'',
           State = ''running'', Extra = ''ami-0abc''\<rparr>]"
      "\<lparr>ID = ''i-0cc'', Type = ''instance'', Name = [], SuggestedName = ''ubuntu-22.04'',
           State = ''running'', Extra = ''ami-0abc''\<rparr>"]
  from t e have s: "HasSuffix ''my-lb-eni'' ''-eni''" by simp
  from t i have n: "\<exists>batch images img. namedImages batch = Inr images \<and> img \<in> set images \<and>
          AmiId img = Some ''ami-0abc'' \<and> AmiName img = Some ''ubuntu-22.04''"
    by simp
  from v e i s n show ?thesis by blast
qed

text \<open>The claim as it is written fails for instances: the provider's answer may name an
  image with the empty string, and the instance is then listed with an empty suggested
  name.\<close>

theorem suggested_names_counterexample:
  "findUntaggedInstances [Inr [[untaggedInstance]]] emptyNameImages =
     Inr [\<lparr>ID = ''i-0cc'', Type = ''instance'', Name = [], SuggestedName = [],
           State = ''running'', Extra = ''ami-0abc''\<rparr>]"
  by code_simp

section \<open>The tag applier\<close>

lemma CreateTags_ok:
  "createTagsFails e r v = None \<Longrightarrow>
     CreateTags e w r v =
       (None, w\<lparr>tagWrites := tagWrites w @ [(r, v)], nameTags := (nameTags w)(r := v)\<rparr>)"
  by (simp add: CreateTags_def Let_def)

lemma CreateTags_fail:
  "createTagsFails e r v = Some err \<Longrightarrow>
     CreateTags e w r v = (Some err, w\<lparr>tagWrites := tagWrites w @ [(r, v)]\<rparr>)"
  by (simp add: CreateTags_def Let_def)

lemma addToHistory_keeps:
  "addToHistory e w a r ov nv run = (res, w') \<Longrightarrow>
     tagWrites w' = tagWrites w \<and> nameTags w' = nameTags w \<and> stdin w' = stdin w \<and>
     warnings w' = warnings w"
  by (auto simp: addToHistory_def saveHistory_def split: sum.splits if_splits option.splits)

lemma addToHistory_works:
  "ledgerWorks e \<Longrightarrow>
     addToHistory e w a r ov nv run =
       (None, w\<lparr>historyFile := Some (Marshal e (ledger e w @
           [\<lparr>Account = a, Resource = r, OldValue = ov, NewValue = nv, Timestamp = now e,
             RunID = run, Undone = False\<rparr>])),
          saves := saves w + 1\<rparr>)"
  by (auto simp: addToHistory_def saveHistory_def loadHistory_def ledgerWorks_def ledger_def
      split: option.splits)

lemma addToHistory_write_fails:
  "homeKnown e \<Longrightarrow> readFails e = None \<Longrightarrow> writeFails e = Some msg \<Longrightarrow>
     addToHistory e w a r ov nv run = (Some (Err msg), w)"
  by (auto simp: addToHistory_def saveHistory_def loadHistory_def split: option.splits)

lemma inputsReady_step:
  assumes "inputsReady autoApply (Suc n) w" "\<not> autoApply"
  shows "\<exists>line. ReadString w = (Inr line, w\<lparr>stdin := tl (stdin w)\<rparr>)"
    and "inputsReady autoApply n (w\<lparr>stdin := tl (stdin w)\<rparr>)"
proof -
  from assms obtain x xs where s: "stdin w = x # xs"
    by (cases "stdin w") (auto simp: inputsReady_def)
  with assms obtain line where x: "x = Inr line"
    by (cases x) (auto simp: inputsReady_def)
  from s x show "\<exists>line. ReadString w = (Inr line, w\<lparr>stdin := tl (stdin w)\<rparr>)"
    by (simp add: ReadString_def)
  from s assms show "inputsReady autoApply n (w\<lparr>stdin := tl (stdin w)\<rparr>)"
    by (simp add: inputsReady_def)
qed

text \<open>One turn of the loop of \<open>applyTags\<close> whose tag write succeeds.\<close>

lemma applyTags_step:
  assumes ready: "inputsReady autoApply (Suc n) w"
    and ok: "createTagsFails e (ID x) (SuggestedName x) = None"
  shows "\<exists>w'. applyTags e (x # rest) a run autoApply w = applyTags e rest a run autoApply w' \<and>
     tagWrites w' = tagWrites w @ [(ID x, SuggestedName x)] \<and>
     nameTags w' = (nameTags w)(ID x := SuggestedName x) \<and>
     inputsReady autoApply n w' \<and>
     stdin w' = (if autoApply then stdin w else tl (stdin w)) \<and>
     (ledgerWorks e \<longrightarrow>
        historyFile w' = Some (Marshal e (ledger e w @ [entryOf e a run x])) \<and>
        warnings w' = warnings w) \<and>
     (homeKnown e \<and> readFails e = None \<and> writeFails e = Some msg \<longrightarrow>
        historyFile w' = historyFile w \<and>
        warnings w' = warnings w @
          [''Warning: Failed to log tagging action to history: '' @ msg])"
proof -
  obtain w0 where w0: "\<exists>line. (if \<not> autoApply then ReadString w else (Inr [], w)) = (Inr line, w0)"
    and k0: "tagWrites w0 = tagWrites w" "nameTags w0 = nameTags w"
      "historyFile w0 = historyFile w" "warnings w0 = warnings w"
      "stdin w0 = (if autoApply then stdin w else tl (stdin w))"
    and r0: "inputsReady autoApply n w0"
  proof (cases autoApply)
    case True
    then show ?thesis using that[of w] by (simp add: inputsReady_def)
  next
    case False
    from inputsReady_step[OF ready False] that[of "w\<lparr>stdin := tl (stdin w)\<rparr>"] False
    show ?thesis by auto
  qed
  let ?w1 = "w0\<lparr>tagWrites := tagWrites w0 @ [(ID x, SuggestedName x)],
                 nameTags := (nameTags w0)(ID x := SuggestedName x)\<rparr>"
  have c: "CreateTags e w0 (ID x) (SuggestedName x) = (None, ?w1)"
    using CreateTags_ok[OF ok] by simp
  obtain res w2 where h: "addToHistory e ?w1 a (ID x) (Name x) (SuggestedName x) run = (res, w2)"
    by (cases "addToHistory e ?w1 a (ID x) (Name x) (SuggestedName x) run")
  note k2 = addToHistory_keeps[OF h]
  let ?w3 = "case res of None \<Rightarrow> w2
     | Some err \<Rightarrow> w2\<lparr>warnings := warnings w2 @
         [''Warning: Failed to log tagging action to history: '' @ errorText err]\<rparr>"
  have step: "applyTags e (x # rest) a run autoApply w = applyTags e rest a run autoApply ?w3"
    using w0 c h by (cases res) (auto simp: Let_def)
  have f: "tagWrites ?w3 = tagWrites w @ [(ID x, SuggestedName x)]"
    "nameTags ?w3 = (nameTags w)(ID x := SuggestedName x)"
    "stdin ?w3 = stdin w0"
    using k2 k0 by (cases res; simp)+
  from f(3) r0 have g: "inputsReady autoApply n ?w3"
    by (simp add: inputsReady_def)
  have l: "ledgerWorks e \<longrightarrow>
        historyFile ?w3 = Some (Marshal e (ledger e w @ [entryOf e a run x])) \<and>
        warnings ?w3 = warnings w"
  proof
    assume lw: "ledgerWorks e"
    from addToHistory_works[OF lw, of ?w1 a "ID x" "Name x" "SuggestedName x" run] h k0
    show "historyFile ?w3 = Some (Marshal e (ledger e w @ [entryOf e a run x])) \<and>
        warnings ?w3 = warnings w"
      by (auto simp: ledger_def entryOf_def)
  qed
  have m: "homeKnown e \<and> readFails e = None \<and> writeFails e = Some msg \<longrightarrow>
        historyFile ?w3 = historyFile w \<and>
        warnings ?w3 = warnings w @
          [''Warning: Failed to log tagging action to history: '' @ msg]"
  proof
    assume "homeKnown e \<and> readFails e = None \<and> writeFails e = Some msg"
    then have "addToHistory e ?w1 a (ID x) (Name x) (SuggestedName x) run = (Some (Err msg), ?w1)"
      using addToHistory_write_fails by blast
    with h k0 show "historyFile ?w3 = historyFile w \<and>
        warnings ?w3 = warnings w @
          [''Warning: Failed to log tagging action to history: '' @ msg]"
      by (auto simp: errorText_def)
  qed
  from step f(1,2) g f(3) k0(5) l m show ?thesis by auto
qed

text \<open>A turn whose tag write fails ends the loop.\<close>

lemma applyTags_fail:
  assumes ready: "inputsReady autoApply (Suc n) w"
    and bad: "createTagsFails e (ID x) (SuggestedName x) = Some err"
  shows "\<exists>w'. applyTags e (x # rest) a run autoApply w =
       (Some (Err (''failed to tag '' @ Type x @ '' '' @ ID x @ '': '' @ err)), w') \<and>
     tagWrites w' = tagWrites w @ [(ID x, SuggestedName x)] \<and>
     nameTags w' = nameTags w \<and> historyFile w' = historyFile w \<and> warnings w' = warnings w"
proof (cases autoApply)
  case True
  let ?w' = "w\<lparr>tagWrites := tagWrites w @ [(ID x, SuggestedName x)]\<rparr>"
  have "applyTags e (x # rest) a run autoApply w =
       (Some (Err (''failed to tag '' @ Type x @ '' '' @ ID x @ '': '' @ err)), ?w')"
    using True by (simp add: CreateTags_fail[OF bad])
  then show ?thesis by (intro exI[of _ ?w']) simp
next
  case False
  from inputsReady_step(1)[OF ready False] obtain line
    where r: "ReadString w = (Inr line, w\<lparr>stdin := tl (stdin w)\<rparr>)" by blast
  let ?w' = "w\<lparr>stdin := tl (stdin w), tagWrites := tagWrites w @ [(ID x, SuggestedName x)]\<rparr>"
  have "applyTags e (x # rest) a run autoApply w =
       (Some (Err (''failed to tag '' @ Type x @ '' '' @ ID x @ '': '' @ err)), ?w')"
    using False r by (simp add: CreateTags_fail[OF bad])
  then show ?thesis by (intro exI[of _ ?w']) simp
qed

lemma tagsAfter_snoc: "tagsAfter (ws @ [(r, v)]) m = (tagsAfter ws m)(r := v)"
  by (simp add: tagsAfter_def)

lemma tagsAfter_Cons: "tagsAfter ((r, v) # ws) m = tagsAfter ws (m(r := v))"
  by (simp add: tagsAfter_def)

text \<open>The turns of a prefix of resources whose tag writes all succeed.\<close>

lemma applyTags_prefix:
  assumes "inputsReady autoApply (length pre + n) w"
    and "writesSucceed e (applyWrites pre)"
  shows "\<exists>w'. applyTags e (pre @ rest) a run autoApply w = applyTags e rest a run autoApply w' \<and>
     tagWrites w' = tagWrites w @ applyWrites pre \<and>
     nameTags w' = tagsAfter (applyWrites pre) (nameTags w) \<and>
     inputsReady autoApply n w' \<and>
     stdin w' = (if autoApply then stdin w else drop (length pre) (stdin w)) \<and>
     (ledgerWorks e \<and>
      list_all (readsBack e) (appendedLedgers (ledger e w) (map (entryOf e a run) pre)) \<longrightarrow>
        ledger e w' = ledger e w @ map (entryOf e a run) pre \<and> warnings w' = warnings w) \<and>
     (homeKnown e \<and> readFails e = None \<and> writeFails e = Some msg \<longrightarrow>
        historyFile w' = historyFile w \<and>
        warnings w' = warnings w @
          replicate (length pre) (''Warning: Failed to log tagging action to history: '' @ msg))"
  using assms
proof (induction pre arbitrary: w)
  case Nil
  then show ?case by (intro exI[of _ w]) (simp add: applyWrites_def tagsAfter_def)
next
  case (Cons x pre)
  from Cons.prems have ready: "inputsReady autoApply (Suc (length pre + n)) w"
    and ok: "createTagsFails e (ID x) (SuggestedName x) = None"
    and oks: "writesSucceed e (applyWrites pre)"
    by (simp_all add: writesSucceed_def applyWrites_def)
  from applyTags_step[OF ready ok, of "pre @ rest" a run msg] obtain w1 where
    s: "applyTags e (x # pre @ rest) a run autoApply w = applyTags e (pre @ rest) a run autoApply w1"
    and f: "tagWrites w1 = tagWrites w @ [(ID x, SuggestedName x)]"
      "nameTags w1 = (nameTags w)(ID x := SuggestedName x)"
      "inputsReady autoApply (length pre + n) w1"
      "stdin w1 = (if autoApply then stdin w else tl (stdin w))"
      "ledgerWorks e \<longrightarrow>
        historyFile w1 = Some (Marshal e (ledger e w @ [entryOf e a run x])) \<and>
        warnings w1 = warnings w"
      "homeKnown e \<and> readFails e = None \<and> writeFails e = Some msg \<longrightarrow>
        historyFile w1 = historyFile w \<and>
        warnings w1 = warnings w @
          [''Warning: Failed to log tagging action to history: '' @ msg]"
    by blast
  from Cons.IH[OF f(3) oks] obtain w' where
    t: "applyTags e (pre @ rest) a run autoApply w1 = applyTags e rest a run autoApply w'"
    and g: "tagWrites w' = tagWrites w1 @ applyWrites pre"
      "nameTags w' = tagsAfter (applyWrites pre) (nameTags w1)"
      "inputsReady autoApply n w'"
      "stdin w' = (if autoApply then stdin w1 else drop (length pre) (stdin w1))"
      "ledgerWorks e \<and>
       list_all (readsBack e) (appendedLedgers (ledger e w1) (map (entryOf e a run) pre)) \<longrightarrow>
        ledger e w' = ledger e w1 @ map (entryOf e a run) pre \<and> warnings w' = warnings w1"
      "homeKnown e \<and> readFails e = None \<and> writeFails e = Some msg \<longrightarrow>
        historyFile w' = historyFile w1 \<and>
        warnings w' = warnings w1 @
          replicate (length pre) (''Warning: Failed to log tagging action to history: '' @ msg)"
    by blast
  have "applyTags e ((x # pre) @ rest) a run autoApply w = applyTags e rest a run autoApply w'"
    using s t by simp
  moreover have "tagWrites w' = tagWrites w @ applyWrites (x # pre)"
    using f(1) g(1) by (simp add: applyWrites_def)
  moreover have "nameTags w' = tagsAfter (applyWrites (x # pre)) (nameTags w)"
    using f(2) g(2) by (simp add: applyWrites_def tagsAfter_Cons)
  moreover have "stdin w' = (if autoApply then stdin w else drop (length (x # pre)) (stdin w))"
    using f(4) g(4) by (simp add: drop_Suc)
  moreover have "ledgerWorks e \<and>
      list_all (readsBack e) (appendedLedgers (ledger e w) (map (entryOf e a run) (x # pre))) \<longrightarrow>
        ledger e w' = ledger e w @ map (entryOf e a run) (x # pre) \<and> warnings w' = warnings w"
  proof
    assume h: "ledgerWorks e \<and>
      list_all (readsBack e) (appendedLedgers (ledger e w) (map (entryOf e a run) (x # pre)))"
    then have rb: "readsBack e (ledger e w @ [entryOf e a run x])"
      and rbs: "list_all (readsBack e)
         (appendedLedgers (ledger e w @ [entryOf e a run x]) (map (entryOf e a run) pre))"
      by simp_all
    from h f(5) have hf: "historyFile w1 = Some (Marshal e (ledger e w @ [entryOf e a run x]))"
      and w1: "warnings w1 = warnings w" by simp_all
    from hf rb have l1: "ledger e w1 = ledger e w @ [entryOf e a run x]"
      by (simp add: ledger_def readsBack_def)
    from h rbs l1 g(5) w1
    show "ledger e w' = ledger e w @ map (entryOf e a run) (x # pre) \<and> warnings w' = warnings w"
      by simp
  qed
  moreover have "homeKnown e \<and> readFails e = None \<and> writeFails e = Some msg \<longrightarrow>
        historyFile w' = historyFile w \<and>
        warnings w' = warnings w @
          replicate (length (x # pre))
            (''Warning: Failed to log tagging action to history: '' @ msg)"
    using f(6) g(6) by simp
  ultimately show ?case using g(3) by blast
qed


lemma applyTags_stops:
  assumes "inputsReady autoApply (Suc (length pre)) w"
    and "writesSucceed e (applyWrites pre)"
    and "createTagsFails e (ID r) (SuggestedName r) = Some err"
  shows "fst (applyTags e (pre @ r # post) a run autoApply w) =
       Some (Err (''failed to tag '' @ Type r @ '' '' @ ID r @ '': '' @ err))"
    and "tagWrites (snd (applyTags e (pre @ r # post) a run autoApply w)) =
       tagWrites w @ applyWrites pre @ [(ID r, SuggestedName r)]"
    and "nameTags (snd (applyTags e (pre @ r # post) a run autoApply w)) =
       tagsAfter (applyWrites pre) (nameTags w)"
proof -
  from assms(1) have "inputsReady autoApply (length pre + Suc 0) w" by simp
  from applyTags_prefix[OF this assms(2), of "r # post" a run "[]"] obtain w1 where
    p: "applyTags e (pre @ r # post) a run autoApply w = applyTags e (r # post) a run autoApply w1"
    and f: "tagWrites w1 = tagWrites w @ applyWrites pre"
      "nameTags w1 = tagsAfter (applyWrites pre) (nameTags w)"
      "inputsReady autoApply (Suc 0) w1"
    by auto
  from applyTags_fail[OF f(3) assms(3), of post a run] obtain w2 where
    q: "applyTags e (r # post) a run autoApply w1 =
       (Some (Err (''failed to tag '' @ Type r @ '' '' @ ID r @ '': '' @ err)), w2)"
    and g: "tagWrites w2 = tagWrites w1 @ [(ID r, SuggestedName r)]" "nameTags w2 = nameTags w1"
    by blast
  from p q show "fst (applyTags e (pre @ r # post) a run autoApply w) =
       Some (Err (''failed to tag '' @ Type r @ '' '' @ ID r @ '': '' @ err))" by simp
  from p q f g show "tagWrites (snd (applyTags e (pre @ r # post) a run autoApply w)) =
       tagWrites w @ applyWrites pre @ [(ID r, SuggestedName r)]" by simp
  from p q f g show "nameTags (snd (applyTags e (pre @ r # post) a run autoApply w)) =
       tagsAfter (applyWrites pre) (nameTags w)" by simp
qed

lemma applyTags_all:
  assumes "inputsReady autoApply (length rs) w"
    and "writesSucceed e (applyWrites rs)"
  shows "fst (applyTags e rs a run autoApply w) = None"
    and "tagWrites (snd (applyTags e rs a run autoApply w)) = tagWrites w @ applyWrites rs"
    and "nameTags (snd (applyTags e rs a run autoApply w)) =
       tagsAfter (applyWrites rs) (nameTags w)"
    and "ledgerWorks e \<and>
         list_all (readsBack e) (appendedLedgers (ledger e w) (map (entryOf e a run) rs)) \<Longrightarrow>
       ledger e (snd (applyTags e rs a run autoApply w)) = ledger e w @ map (entryOf e a run) rs"
    and "stdin (snd (applyTags e rs a run autoApply w)) =
       (if autoApply then stdin w else drop (length rs) (stdin w))"
    and "homeKnown e \<and> readFails e = None \<and> writeFails e = Some msg \<Longrightarrow>
       historyFile (snd (applyTags e rs a run autoApply w)) = historyFile w \<and>
       warnings (snd (applyTags e rs a run autoApply w)) =
         warnings w @
         replicate (length rs) (''Warning: Failed to log tagging action to history: '' @ msg)"
proof -
  from assms(1) have "inputsReady autoApply (length rs + 0) w" by simp
  from applyTags_prefix[OF this assms(2), of "[]" a run msg] obtain w1 where
    p: "applyTags e rs a run autoApply w = (None, w1)"
    and f: "tagWrites w1 = tagWrites w @ applyWrites rs"
      "nameTags w1 = tagsAfter (applyWrites rs) (nameTags w)"
      "stdin w1 = (if autoApply then stdin w else drop (length rs) (stdin w))"
      "ledgerWorks e \<and>
       list_all (readsBack e) (appendedLedgers (ledger e w) (map (entryOf e a run) rs)) \<longrightarrow>
        ledger e w1 = ledger e w @ map (entryOf e a run) rs \<and> warnings w1 = warnings w"
      "homeKnown e \<and> readFails e = None \<and> writeFails e = Some msg \<longrightarrow>
        historyFile w1 = historyFile w \<and>
        warnings w1 = warnings w @
          replicate (length rs) (''Warning: Failed to log tagging action to history: '' @ msg)"
    by auto
  from p show "fst (applyTags e rs a run autoApply w) = None" by simp
  from p f show "tagWrites (snd (applyTags e rs a run autoApply w)) = tagWrites w @ applyWrites rs"
    by simp
  from p f show "nameTags (snd (applyTags e rs a run autoApply w)) =
       tagsAfter (applyWrites rs) (nameTags w)" by simp
  from p f show "ledgerWorks e \<and>
         list_all (readsBack e) (appendedLedgers (ledger e w) (map (entryOf e a run) rs)) \<Longrightarrow>
       ledger e (snd (applyTags e rs a run autoApply w)) = ledger e w @ map (entryOf e a run) rs"
    by simp
  from p f show "stdin (snd (applyTags e rs a run autoApply w)) =
       (if autoApply then stdin w else drop (length rs) (stdin w))" by simp
  from p f show "homeKnown e \<and> readFails e = None \<and> writeFails e = Some msg \<Longrightarrow>
       historyFile (snd (applyTags e rs a run autoApply w)) = historyFile w \<and>
       warnings (snd (applyTags e rs a run autoApply w)) =
         warnings w @
         replicate (length rs) (''Warning: Failed to log tagging action to history: '' @ msg)"
    by simp
qed


text \<open>
  Claim C9. \<open>applyTags\<close> writes the tags of the selected resources in their order. When
  the tag write of a resource fails after those of the resources before it succeeded,
  \<open>applyTags\<close> returns that error, has issued exactly the writes up to and including the
  failed one, so that no later resource is tried, and the tags of the earlier resources
  stay applied. When every tag write succeeds, \<open>applyTags\<close> returns no error, has issued
  every write and applied every tag, whatever happens to the history; and when every
  history append fails, each resource only adds a warning and the ledger file is left as
  it was. (The reads from standard input that the prompts need are taken to succeed.)
\<close>

theorem applyTags_short_circuit:
  "(inputsReady autoApply (Suc (length pre)) w \<and> writesSucceed e (applyWrites pre) \<and>
    createTagsFails e (ID r) (SuggestedName r) = Some err \<longrightarrow>
      fst (applyTags e (pre @ r # post) accountID runID autoApply w) =
        Some (Err (''failed to tag '' @ Type r @ '' '' @ ID r @ '': '' @ err)) \<and>
      tagWrites (snd (applyTags e (pre @ r # post) accountID runID autoApply w)) =
        tagWrites w @ applyWrites pre @ [(ID r, SuggestedName r)] \<and>
      nameTags (snd (applyTags e (pre @ r # post) accountID runID autoApply w)) =
        tagsAfter (applyWrites pre) (nameTags w))
   \<and> (inputsReady autoApply (length rs) w \<and> writesSucceed e (applyWrites rs) \<longrightarrow>
      fst (applyTags e rs accountID runID autoApply w) = None \<and>
      tagWrites (snd (applyTags e rs accountID runID autoApply w)) =
        tagWrites w @ applyWrites rs \<and>
      nameTags (snd (applyTags e rs accountID runID autoApply w)) =
        tagsAfter (applyWrites rs) (nameTags w))
   \<and> (inputsReady autoApply (length rs) w \<and> writesSucceed e (applyWrites rs) \<and>
       homeKnown e \<and> readFails e = None \<and> writeFails e = Some msg \<longrightarrow>
      historyFile (snd (applyTags e rs accountID runID autoApply w)) = historyFile w \<and>
      warnings (snd (applyTags e rs accountID runID autoApply w)) =
        warnings w @
        replicate (length rs) (''Warning: Failed to log tagging action to history: '' @ msg))"
  using applyTags_stops[of autoApply pre w e r err post accountID runID]
    applyTags_all(1,2,3)[of autoApply rs w e accountID runID]
    applyTags_all(6)[of autoApply rs w e msg accountID runID]
  by blast

theorem applyTags_short_circuit_witness:
  "inputsReady True (Suc (length [resA])) freshWorld
   \<and> writesSucceed strictEnv (applyWrites [resA])
   \<and> createTagsFails strictEnv (ID resB) (SuggestedName resB) = Some ''UnauthorizedOperation''
   \<and> fst (applyTags strictEnv ([resA] @ resB # [resC]) ''123456789012'' ''run-1'' True freshWorld) =
       Some (Err ''failed to tag volume vol-02: UnauthorizedOperation'')
   \<and> tagWrites (snd (applyTags strictEnv ([resA] @ resB # [resC]) ''123456789012'' ''run-1'' True
         freshWorld)) =
       [(''i-0cc'', ''ubuntu-22.04''), (''vol-02'', ''Y'')]
   \<and> nameTags (snd (applyTags strictEnv ([resA] @ resB # [resC]) ''123456789012'' ''run-1'' True
         freshWorld)) ''i-0cc'' = ''ubuntu-22.04''
   \<and> writesSucceed brokenLedgerEnv (applyWrites [resA, resB, resC])
   \<and> writeFails brokenLedgerEnv = Some ''disk full''
   \<and> fst (applyTags brokenLedgerEnv [resA, resB, resC] ''123456789012'' ''run-1'' True
         freshWorld) = None
   \<and> tagWrites (snd (applyTags brokenLedgerEnv [resA, resB, resC] ''123456789012'' ''run-1'' True
         freshWorld)) =
       [(''i-0cc'', ''ubuntu-22.04''), (''vol-02'', ''Y''), (''eni-01'', ''my-lb-eni'')]
   \<and> historyFile (snd (applyTags brokenLedgerEnv [resA, resB, resC] ''123456789012'' ''run-1''
         True freshWorld)) = None
   \<and> warnings (snd (applyTags brokenLedgerEnv [resA, resB, resC] ''123456789012'' ''run-1'' True
         freshWorld)) =
       replicate 3 ''Warning: Failed to log tagging action to history: disk full''"
proof -
  have h1: "inputsReady True (Suc (length [resA])) freshWorld"
    "inputsReady True (length [resA, resB, resC]) freshWorld"
    by (simp_all add: inputsReady_def)
  have h2: "writesSucceed strictEnv (applyWrites [resA])"
    by code_simp
  have h3: "createTagsFails strictEnv (ID resB) (SuggestedName resB) = Some ''UnauthorizedOperation''"
    by code_simp
  have h4: "writesSucceed brokenLedgerEnv (applyWrites [resA, resB, resC])"
    by code_simp
  have h5: "homeKnown brokenLedgerEnv" "readFails brokenLedgerEnv = None"
    "writeFails brokenLedgerEnv = Some ''disk full''"
    by (simp_all add: brokenLedgerEnv_def goodEnv_def)
  have f: "tagWrites freshWorld = []" "warnings freshWorld = []" "historyFile freshWorld = None"
    "nameTags freshWorld = currentTags"
    by (simp_all add: freshWorld_def)
  have v: "Type resB = ''volume''" "ID resB = ''vol-02''" "ID resA = ''i-0cc''"
    "SuggestedName resA = ''ubuntu-22.04''" "SuggestedName resB = ''Y''"
    "applyWrites [resA] = [(''i-0cc'', ''ubuntu-22.04'')]"
    "applyWrites [resA, resB, resC] =
       [(''i-0cc'', ''ubuntu-22.04''), (''vol-02'', ''Y''), (''eni-01'', ''my-lb-eni'')]"
    by (simp_all add: resA_def resB_def resC_def applyWrites_def)
  note t1 = applyTags_short_circuit [of True "[resA]" freshWorld strictEnv resB
      "''UnauthorizedOperation''" "[resC]" "''123456789012''" "''run-1''"]
  note t2 = applyTags_short_circuit [of True "[]" freshWorld brokenLedgerEnv resA "[]" "[]"
      "''123456789012''" "''run-1''" "[resA, resB, resC]" "''disk full''"]
  from t1 h1(1) h2 h3 have r1:
    "fst (applyTags strictEnv ([resA] @ resB # [resC]) ''123456789012'' ''run-1'' True freshWorld) =
       Some (Err ''failed to tag volume vol-02: UnauthorizedOperation'')"
    "tagWrites (snd (applyTags strictEnv ([resA] @ resB # [resC]) ''123456789012'' ''run-1'' True
         freshWorld)) =
       [(''i-0cc'', ''ubuntu-22.04''), (''vol-02'', ''Y'')]"
    "nameTags (snd (applyTags strictEnv ([resA] @ resB # [resC]) ''123456789012'' ''run-1'' True
         freshWorld)) ''i-0cc'' = ''ubuntu-22.04''"
    by (simp_all add: f v tagsAfter_def del: applyTags.simps)
  from t2 h1(2) h4 h5 have r2:
    "fst (applyTags brokenLedgerEnv [resA, resB, resC] ''123456789012'' ''run-1'' True
         freshWorld) = None"
    "tagWrites (snd (applyTags brokenLedgerEnv [resA, resB, resC] ''123456789012'' ''run-1'' True
         freshWorld)) =
       [(''i-0cc'', ''ubuntu-22.04''), (''vol-02'', ''Y''), (''eni-01'', ''my-lb-eni'')]"
    "historyFile (snd (applyTags brokenLedgerEnv [resA, resB, resC] ''123456789012'' ''run-1''
         True freshWorld)) = None"
    "warnings (snd (applyTags brokenLedgerEnv [resA, resB, resC] ''123456789012'' ''run-1'' True
         freshWorld)) =
       replicate 3 ''Warning: Failed to log tagging action to history: disk full''"
    by (simp_all add: f v numeral_3_eq_3 del: applyTags.simps)
  from h1(1) h2 h3 r1 h4 h5(3) r2 show ?thesis by blast
qed

section \<open>Undo\<close>

lemma lastRunIDFrom_filter:
  "lastRunIDFrom xs = (case filter (\<lambda>a. \<not> Undone a) xs of [] \<Rightarrow> [] | a # _ \<Rightarrow> RunID a)"
  by (induction xs) auto

lemma findLastRunID_last:
  "findLastRunID actions =
     (if list_all Undone actions then []
      else RunID (last (filter (\<lambda>a. \<not> Undone a) actions)))"
proof -
  have r: "filter (\<lambda>a. \<not> Undone a) (rev actions) = rev (filter (\<lambda>a. \<not> Undone a) actions)"
    by (simp add: rev_filter)
  show ?thesis
  proof (cases "filter (\<lambda>a. \<not> Undone a) actions = []")
    case True
    then have "list_all Undone actions"
      by (auto simp: filter_empty_conv list_all_iff)
    with True show ?thesis
      by (simp add: findLastRunID_def lastRunIDFrom_filter r)
  next
    case False
    then have n: "\<not> list_all Undone actions"
      by (auto simp: filter_empty_conv list_all_iff)
    from False obtain y ys where ys: "rev (filter (\<lambda>a. \<not> Undone a) actions) = y # ys"
      by (cases "rev (filter (\<lambda>a. \<not> Undone a) actions)") auto
    then have "last (filter (\<lambda>a. \<not> Undone a) actions) = y"
      by (metis False hd_rev list.sel(1))
    with ys n show ?thesis
      by (simp add: findLastRunID_def lastRunIDFrom_filter r)
  qed
qed

lemma actionsOfRun_nonempty:
  assumes "findLastRunID actions = run" "run \<noteq> []"
  shows "actionsOfRun run actions \<noteq> []"
proof -
  from assms have n: "\<not> list_all Undone actions"
    by (auto simp: findLastRunID_last split: if_splits)
  then have ne: "filter (\<lambda>a. \<not> Undone a) actions \<noteq> []"
    by (auto simp: filter_empty_conv list_all_iff)
  let ?a = "last (filter (\<lambda>a. \<not> Undone a) actions)"
  from ne have "?a \<in> set (filter (\<lambda>a. \<not> Undone a) actions)" by (rule last_in_set)
  then have m: "?a \<in> set actions" "\<not> Undone ?a" by auto
  from assms n have "RunID ?a = run" by (simp add: findLastRunID_last)
  with m have "?a \<in> set (actionsOfRun run actions)" by (simp add: actionsOfRun_def)
  then show ?thesis by auto
qed

lemma markUndone_eq:
  "markUndone run actions =
     map (\<lambda>a. if RunID a = run then a\<lparr>Undone := True\<rparr> else a) actions"
  unfolding markUndone_def
  by (rule map_cong) auto

lemma revertActions_effect:
  "tagWrites (snd (revertActions e actions (c, w))) = tagWrites w @ revertWrites actions \<and>
   historyFile (snd (revertActions e actions (c, w))) = historyFile w \<and>
   saves (snd (revertActions e actions (c, w))) = saves w \<and>
   stdin (snd (revertActions e actions (c, w))) = stdin w \<and>
   (writesSucceed e (revertWrites actions) \<longrightarrow>
      nameTags (snd (revertActions e actions (c, w))) =
        tagsAfter (revertWrites actions) (nameTags w))"
proof (induction actions arbitrary: c w)
  case Nil
  then show ?case by (simp add: revertWrites_def tagsAfter_def)
next
  case (Cons a actions)
  obtain s n f where c: "c = (s, n, f)" by (cases c)
  have v: "(if OldValue a = [] then [] else OldValue a) = OldValue a" by simp
  show ?case
  proof (cases "createTagsFails e (Resource a) (OldValue a)")
    case None
    note ct = CreateTags_ok[OF None, of w]
    show ?thesis
      unfolding c using Cons.IH[of "(s + 1, n, f)"] None
      by (simp add: ct v revertWrites_def tagsAfter_def writesSucceed_def del: One_nat_def)
  next
    case (Some err)
    note ct = CreateTags_fail[OF Some, of w]
    show ?thesis
      unfolding c
      using Cons.IH[of "(s, n + 1, f)"] Cons.IH[of "(s, n, f + 1)"] Some
      by (simp add: ct v revertWrites_def writesSucceed_def del: One_nat_def)
  qed
qed


lemma confirms_ReadString:
  assumes "confirms w"
  shows "\<exists>line. ReadString w = (Inr line, w\<lparr>stdin := tl (stdin w)\<rparr>) \<and>
     (TrimSpace (ToLower line) = ''y'' \<or> TrimSpace (ToLower line) = ''yes'')"
  using assms
  by (auto simp: confirms_def ReadString_def split: list.splits sum.splits)

text \<open>An undo that the operator confirms, on a ledger whose last entry that is not undone
  carries a run id.\<close>

lemma undoLastRun_confirmed:
  assumes load: "loadHistory e w = Inr actions"
    and run: "findLastRunID actions = run" "run \<noteq> []"
    and yes: "confirms w"
    and cfg: "configFails e = None"
  shows "undoLastRun e w =
     (case saveHistory e
        (snd (revertActions e (actionsOfRun run actions) ((0, 0, 0), w\<lparr>stdin := tl (stdin w)\<rparr>)))
        (markUndone run actions) of
        (Some err, w2) \<Rightarrow>
          (Some (Err (''failed to save updated history: '' @ errorText err)), w2)
      | (None, w2) \<Rightarrow> (None, w2))"
proof -
  from run have ne: "actions \<noteq> []"
    by (auto simp: findLastRunID_def)
  from actionsOfRun_nonempty[OF run] have ae: "actionsOfRun run actions \<noteq> []" .
  from confirms_ReadString[OF yes] obtain line where
    r: "ReadString w = (Inr line, w\<lparr>stdin := tl (stdin w)\<rparr>)"
    and y: "TrimSpace (ToLower line) = ''y'' \<or> TrimSpace (ToLower line) = ''yes''"
    by blast
  from y have ny: "\<not> (TrimSpace (ToLower line) \<noteq> ''y'' \<and> TrimSpace (ToLower line) \<noteq> ''yes'')"
    by blast
  show ?thesis
    unfolding undoLastRun_def
    using load ne run ae r y cfg
    by (auto simp: Let_def split: prod.splits option.splits)
qed

lemma undoLastRun_effect:
  assumes load: "loadHistory e w = Inr actions"
    and run: "findLastRunID actions = run" "run \<noteq> []"
    and yes: "confirms w"
    and cfg: "configFails e = None"
  shows "tagWrites (snd (undoLastRun e w)) = tagWrites w @ revertWrites (actionsOfRun run actions)"
    and "homeKnown e \<and> writeFails e = None \<Longrightarrow>
       fst (undoLastRun e w) = None \<and>
       historyFile (snd (undoLastRun e w)) = Some (Marshal e (markUndone run actions)) \<and>
       saves (snd (undoLastRun e w)) = saves w + 1"
    and "writesSucceed e (revertWrites (actionsOfRun run actions)) \<Longrightarrow>
       nameTags (snd (undoLastRun e w)) =
         tagsAfter (revertWrites (actionsOfRun run actions)) (nameTags w)"
    and "\<not> homeKnown e \<or> writeFails e \<noteq> None \<Longrightarrow>
       (\<exists>m. fst (undoLastRun e w) = Some (Err (''failed to save updated history: '' @ m))) \<and>
       historyFile (snd (undoLastRun e w)) = historyFile w"
proof -
  let ?w1 = "snd (revertActions e (actionsOfRun run actions)
               ((0, 0, 0), w\<lparr>stdin := tl (stdin w)\<rparr>))"
  note u = undoLastRun_confirmed[OF assms]
  note r = revertActions_effect[of e "actionsOfRun run actions" "(0, 0, 0)"
      "w\<lparr>stdin := tl (stdin w)\<rparr>"]
  show "tagWrites (snd (undoLastRun e w)) = tagWrites w @ revertWrites (actionsOfRun run actions)"
    using u r by (auto simp: saveHistory_def split: option.splits)
  show "homeKnown e \<and> writeFails e = None \<Longrightarrow>
       fst (undoLastRun e w) = None \<and>
       historyFile (snd (undoLastRun e w)) = Some (Marshal e (markUndone run actions)) \<and>
       saves (snd (undoLastRun e w)) = saves w + 1"
    using u r by (auto simp: saveHistory_def split: option.splits)
  show "writesSucceed e (revertWrites (actionsOfRun run actions)) \<Longrightarrow>
       nameTags (snd (undoLastRun e w)) =
         tagsAfter (revertWrites (actionsOfRun run actions)) (nameTags w)"
    using u r by (auto simp: saveHistory_def split: option.splits)
  show "\<not> homeKnown e \<or> writeFails e \<noteq> None \<Longrightarrow>
       (\<exists>m. fst (undoLastRun e w) = Some (Err (''failed to save updated history: '' @ m))) \<and>
       historyFile (snd (undoLastRun e w)) = historyFile w"
    using u r by (auto simp: saveHistory_def errorText_def split: option.splits)
qed

text \<open>An undo that the operator does not confirm, and one whose provider client cannot
  be configured.\<close>

lemma undoLastRun_declined:
  assumes load: "loadHistory e w = Inr actions"
    and run: "findLastRunID actions = run" "run \<noteq> []"
    and no: "declines w"
  shows "undoLastRun e w = (None, w\<lparr>stdin := tl (stdin w)\<rparr>)"
proof -
  from run have ne: "actions \<noteq> []"
    by (auto simp: findLastRunID_def)
  from actionsOfRun_nonempty[OF run] have ae: "actionsOfRun run actions \<noteq> []" .
  from no obtain line where
    r: "ReadString w = (Inr line, w\<lparr>stdin := tl (stdin w)\<rparr>)"
    and y: "TrimSpace (ToLower line) \<noteq> ''y''" "TrimSpace (ToLower line) \<noteq> ''yes''"
    by (auto simp: declines_def ReadString_def split: list.splits sum.splits)
  show ?thesis
    unfolding undoLastRun_def
    using load ne run ae r y
    by (simp add: Let_def)
qed

lemma undoLastRun_no_client:
  assumes load: "loadHistory e w = Inr actions"
    and run: "findLastRunID actions = run" "run \<noteq> []"
    and yes: "confirms w"
    and cfg: "configFails e = Some err"
  shows "undoLastRun e w =
     (Some (Err (''failed to load AWS config: '' @ err)), w\<lparr>stdin := tl (stdin w)\<rparr>)"
proof -
  from run have ne: "actions \<noteq> []"
    by (auto simp: findLastRunID_def)
  from actionsOfRun_nonempty[OF run] have ae: "actionsOfRun run actions \<noteq> []" .
  from confirms_ReadString[OF yes] obtain line where
    r: "ReadString w = (Inr line, w\<lparr>stdin := tl (stdin w)\<rparr>)"
    and y: "TrimSpace (ToLower line) = ''y'' \<or> TrimSpace (ToLower line) = ''yes''"
    by blast
  show ?thesis
    unfolding undoLastRun_def
    using load ne run ae r y cfg
    by (auto simp: Let_def)
qed

lemma undoLastRun_all_undone:
  assumes "loadHistory e w = Inr actions" "actions \<noteq> []" "list_all Undone actions"
  shows "undoLastRun e w = (Some (Err ''no undone runs found''), w)"
  using assms by (simp add: undoLastRun_def findLastRunID_last Let_def)

lemma undoLastRun_empty:
  assumes "loadHistory e w = Inr []"
  shows "undoLastRun e w = (Some (Err ''no tagging history found''), w)"
  using assms by (simp add: undoLastRun_def)

lemma tagsAfter_distinct:
  assumes "distinct (map fst ws)" "(r, v) \<in> set ws"
  shows "tagsAfter ws m r = v"
  using assms
proof (induction ws arbitrary: m)
  case Nil
  then show ?case by simp
next
  case (Cons x ws)
  obtain r' v' where x: "x = (r', v')" by (cases x)
  show ?case
  proof (cases "(r, v) \<in> set ws")
    case True
    with Cons x show ?thesis by (simp add: tagsAfter_Cons)
  next
    case False
    with Cons.prems x have e: "r' = r" "v' = v" and n: "r \<notin> fst ` set ws" by auto
    have k: "\<And>m. r \<notin> fst ` set ws \<Longrightarrow> tagsAfter ws m r = m r"
      by (induction ws) (auto simp: tagsAfter_def)
    from k[OF n] x e show ?thesis by (simp add: tagsAfter_Cons)
  qed
qed


lemma loadHistory_works: "ledgerWorks e \<Longrightarrow> loadHistory e w = Inr (ledger e w)"
  by (auto simp: loadHistory_def ledgerWorks_def ledger_def split: option.splits)

lemma findLastRunID_append:
  assumes "es \<noteq> []" "\<not> Undone (last es)"
  shows "findLastRunID (h @ es) = RunID (last es)"
proof -
  from assms(1) obtain y ys where r: "rev es = y # ys" by (cases "rev es") auto
  then have "last es = y" by (metis assms(1) hd_rev list.sel(1))
  with r assms(2) show ?thesis by (simp add: findLastRunID_def)
qed

lemma actionsOfRun_entries:
  "actionsOfRun run (map (entryOf e a run) rs) = map (entryOf e a run) rs"
  by (induction rs) (auto simp: actionsOfRun_def entryOf_def)

lemma markUndone_entries:
  "markUndone run (map (entryOf e a run) rs) = map (\<lambda>x. (entryOf e a run x)\<lparr>Undone := True\<rparr>) rs"
  by (induction rs) (auto simp: markUndone_def entryOf_def)

lemma markUndone_none:
  "actionsOfRun run h = [] \<Longrightarrow> markUndone run h = h"
  by (induction h) (auto simp: markUndone_def actionsOfRun_def split: if_splits)

lemma revertWrites_entries:
  "revertWrites (map (entryOf e a run) rs) = map (\<lambda>x. (ID x, Name x)) rs"
  by (simp add: revertWrites_def entryOf_def comp_def)

text \<open>Applying a run and undoing it, where the ledgers that applying writes read back
  as they were written.\<close>

lemma apply_then_undo:
  assumes lw: "ledgerWorks e" and cfg: "configFails e = None"
    and ready: "inputsReady autoApply (length rs) w"
    and aw: "writesSucceed e (applyWrites rs)"
    and ne: "rs \<noteq> []" "run \<noteq> []"
    and fresh: "actionsOfRun run (ledger e w) = []"
    and dist: "distinct (map ID rs)"
    and rw: "writesSucceed e (map (\<lambda>x. (ID x, Name x)) rs)"
    and rb: "list_all (readsBack e) (appendedLedgers (ledger e w) (map (entryOf e a run) rs))"
    and yes: "confirms (snd (applyTags e rs a run autoApply w))"
  shows "fst (undoLastRun e (snd (applyTags e rs a run autoApply w))) = None"
    and "\<forall>x\<in>set rs.
       nameTags (snd (undoLastRun e (snd (applyTags e rs a run autoApply w)))) (ID x) = Name x"
    and "historyFile (snd (undoLastRun e (snd (applyTags e rs a run autoApply w)))) =
       Some (Marshal e (ledger e w @ map (\<lambda>x. (entryOf e a run x)\<lparr>Undone := True\<rparr>) rs))"
proof -
  let ?w1 = "snd (applyTags e rs a run autoApply w)"
  let ?es = "map (entryOf e a run) rs"
  let ?h = "ledger e w @ ?es"
  from lw rb have "ledgerWorks e \<and> list_all (readsBack e) (appendedLedgers (ledger e w) ?es)"
    by simp
  from applyTags_all(4)[OF ready aw this] have l1: "ledger e ?w1 = ?h" .
  from loadHistory_works[OF lw, of ?w1] l1 have load: "loadHistory e ?w1 = Inr ?h" by simp
  from ne(1) have es: "?es \<noteq> []" by simp
  have last: "last ?es = entryOf e a run (last rs)"
    using ne(1) by (simp add: last_map)
  then have nu: "\<not> Undone (last ?es)" and ri: "RunID (last ?es) = run"
    by (simp_all add: entryOf_def)
  from findLastRunID_append[OF es nu, of "ledger e w"] ri
  have flr: "findLastRunID ?h = run" by simp
  have aor: "actionsOfRun run ?h = ?es"
    using fresh actionsOfRun_entries[of run e a rs] by (simp add: actionsOfRun_def)
  have mu: "markUndone run ?h =
      ledger e w @ map (\<lambda>x. (entryOf e a run x)\<lparr>Undone := True\<rparr>) rs"
    using markUndone_none[OF fresh] markUndone_entries[of run e a rs]
    by (simp add: markUndone_def)
  note eff = undoLastRun_effect[OF load flr ne(2) yes cfg]
  from lw have hk: "homeKnown e \<and> writeFails e = None" by (simp add: ledgerWorks_def)
  from eff(2)[OF hk] show "fst (undoLastRun e ?w1) = None" by simp
  from eff(2)[OF hk] mu show "historyFile (snd (undoLastRun e ?w1)) =
       Some (Marshal e (ledger e w @ map (\<lambda>x. (entryOf e a run x)\<lparr>Undone := True\<rparr>) rs))"
    by simp
  from rw aor have "writesSucceed e (revertWrites (actionsOfRun run ?h))"
    by (simp add: revertWrites_entries)
  from eff(3)[OF this] aor
  have nt: "nameTags (snd (undoLastRun e ?w1)) =
      tagsAfter (map (\<lambda>x. (ID x, Name x)) rs) (nameTags ?w1)"
    by (simp add: revertWrites_entries)
  have d: "distinct (map fst (map (\<lambda>x. (ID x, Name x)) rs))"
    using dist by (simp add: comp_def)
  show "\<forall>x\<in>set rs. nameTags (snd (undoLastRun e ?w1)) (ID x) = Name x"
  proof
    fix x assume "x \<in> set rs"
    then have "(ID x, Name x) \<in> set (map (\<lambda>x. (ID x, Name x)) rs)" by auto
    from tagsAfter_distinct[OF d this] nt
    show "nameTags (snd (undoLastRun e ?w1)) (ID x) = Name x" by simp
  qed
qed

lemma restored_values:
  assumes "nameTags w' = tagsAfter (revertWrites actions) m"
    and "distinct (map Resource actions)"
  shows "list_all (\<lambda>a. nameTags w' (Resource a) = OldValue a) actions"
proof -
  have d: "distinct (map fst (revertWrites actions))"
    using assms(2) by (simp add: revertWrites_def comp_def)
  have "\<And>a. a \<in> set actions \<Longrightarrow> nameTags w' (Resource a) = OldValue a"
  proof -
    fix a assume "a \<in> set actions"
    then have "(Resource a, OldValue a) \<in> set (revertWrites actions)"
      by (auto simp: revertWrites_def)
    from tagsAfter_distinct[OF d this] assms(1) show "nameTags w' (Resource a) = OldValue a"
      by simp
  qed
  then show ?thesis by (simp add: list_all_iff)
qed

lemma undoLastRun_blank:
  assumes "loadHistory e w = Inr actions" "actions \<noteq> []" "findLastRunID actions = []"
  shows "undoLastRun e w = (Some (Err ''no undone runs found''), w)"
  using assms by (simp add: undoLastRun_def Let_def)

text \<open>The ledger after the undo, and a second undo, where the marked ledger reads back
  as well.\<close>

lemma second_undo:
  assumes lw: "ledgerWorks e" and cfg: "configFails e = None"
    and ready: "inputsReady autoApply (length rs) w"
    and aw: "writesSucceed e (applyWrites rs)"
    and ne: "rs \<noteq> []" "run \<noteq> []"
    and fresh: "actionsOfRun run (ledger e w) = []"
    and dist: "distinct (map ID rs)"
    and rw: "writesSucceed e (map (\<lambda>x. (ID x, Name x)) rs)"
    and rb: "list_all (readsBack e) (appendedLedgers (ledger e w) (map (entryOf e a run) rs))"
    and yes: "confirms (snd (applyTags e rs a run autoApply w))"
    and rbm: "readsBack e (ledger e w @ map (\<lambda>x. (entryOf e a run x)\<lparr>Undone := True\<rparr>) rs)"
  shows "ledger e (snd (undoLastRun e (snd (applyTags e rs a run autoApply w)))) =
       ledger e w @ map (\<lambda>x. (entryOf e a run x)\<lparr>Undone := True\<rparr>) rs"
    and "list_all Undone (ledger e w) \<Longrightarrow>
       undoLastRun e (snd (undoLastRun e (snd (applyTags e rs a run autoApply w)))) =
         (Some (Err ''no undone runs found''),
          snd (undoLastRun e (snd (applyTags e rs a run autoApply w))))"
proof -
  let ?w2 = "snd (undoLastRun e (snd (applyTags e rs a run autoApply w)))"
  from apply_then_undo(3)[OF lw cfg ready aw ne fresh dist rw rb yes] rbm
  show l: "ledger e ?w2 = ledger e w @ map (\<lambda>x. (entryOf e a run x)\<lparr>Undone := True\<rparr>) rs"
    by (simp add: ledger_def readsBack_def)
  assume all: "list_all Undone (ledger e w)"
  from l ne(1) have n: "ledger e ?w2 \<noteq> []" by simp
  from l all have u: "list_all Undone (ledger e ?w2)" by (auto simp: list_all_iff)
  from undoLastRun_all_undone[OF loadHistory_works[OF lw] n u]
  show "undoLastRun e ?w2 = (Some (Err ''no undone runs found''), ?w2)" .
qed

text \<open>
  Claim C8, amended. The run that undo selects is that of the last entry of the ledger
  that is not undone; an empty run id counts as "none found", and undo then fails with
  \<open>no undone runs found\<close> and changes nothing. When the run id is not empty, undo asks
  the operator to confirm. When the answer is neither \<open>y\<close> nor \<open>yes\<close>, undo returns
  without an error and writes neither a tag nor the ledger; when the operator confirms
  and the provider's client cannot be configured, undo fails with that error and writes
  neither. When the operator confirms and the client can be configured, undo issues one
  tag write per entry of the run that is not undone, in the order of the ledger and
  whatever the outcome of each write, each restoring the recorded old value; it then
  marks every entry of the run undone and, where the ledger file can be written, writes
  it once. Where the writes succeed and the resources of the run are distinct, every
  resource has its recorded old value again. An undo on a ledger that is not empty and
  whose entries are all undone fails with \<open>no undone runs found\<close> and changes nothing.
  Where the ledgers that applying a run writes read back from the file as they were
  written, applying the run and undoing it restores the name each resource had and
  writes the ledger with the entries of the run marked undone; where that ledger reads
  back as well, a second undo fails with \<open>no undone runs found\<close>.
\<close>

theorem undo_last_run:
  "findLastRunID actions =
     (if list_all Undone actions then []
      else RunID (last (filter (\<lambda>a. \<not> Undone a) actions)))
   \<and> markUndone run actions =
       map (\<lambda>a. if RunID a = run then a\<lparr>Undone := True\<rparr> else a) actions
   \<and> (loadHistory e w = Inr actions \<and> findLastRunID actions = run \<and> run \<noteq> [] \<and>
       confirms w \<and> configFails e = None \<longrightarrow>
        tagWrites (snd (undoLastRun e w)) =
          tagWrites w @ revertWrites (actionsOfRun run actions) \<and>
        (homeKnown e \<and> writeFails e = None \<longrightarrow>
           fst (undoLastRun e w) = None \<and>
           historyFile (snd (undoLastRun e w)) = Some (Marshal e (markUndone run actions)) \<and>
           saves (snd (undoLastRun e w)) = saves w + 1) \<and>
        (writesSucceed e (revertWrites (actionsOfRun run actions)) \<and>
         distinct (map Resource (actionsOfRun run actions)) \<longrightarrow>
           list_all (\<lambda>a. nameTags (snd (undoLastRun e w)) (Resource a) = OldValue a)
             (actionsOfRun run actions)))
   \<and> (loadHistory e w = Inr actions \<and> findLastRunID actions = run \<and> run \<noteq> [] \<and>
       declines w \<longrightarrow>
        undoLastRun e w = (None, w\<lparr>stdin := tl (stdin w)\<rparr>))
   \<and> (loadHistory e w = Inr actions \<and> findLastRunID actions = run \<and> run \<noteq> [] \<and>
       confirms w \<and> configFails e = Some err \<longrightarrow>
        undoLastRun e w =
          (Some (Err (''failed to load AWS config: '' @ err)), w\<lparr>stdin := tl (stdin w)\<rparr>))
   \<and> (loadHistory e w = Inr actions \<and> actions \<noteq> [] \<and> list_all Undone actions \<longrightarrow>
        undoLastRun e w = (Some (Err ''no undone runs found''), w))
   \<and> (loadHistory e w = Inr actions \<and> actions \<noteq> [] \<and> findLastRunID actions = [] \<longrightarrow>
        undoLastRun e w = (Some (Err ''no undone runs found''), w))
   \<and> (ledgerWorks e \<and> configFails e = None \<and> inputsReady autoApply (length rs) w \<and>
       writesSucceed e (applyWrites rs) \<and> rs \<noteq> [] \<and> runID \<noteq> [] \<and>
       actionsOfRun runID (ledger e w) = [] \<and> distinct (map ID rs) \<and>
       writesSucceed e (map (\<lambda>x. (ID x, Name x)) rs) \<and>
       list_all (readsBack e)
         (appendedLedgers (ledger e w) (map (entryOf e accountID runID) rs)) \<and>
       confirms (snd (applyTags e rs accountID runID autoApply w)) \<longrightarrow>
        fst (undoLastRun e (snd (applyTags e rs accountID runID autoApply w))) = None \<and>
        list_all
          (\<lambda>x. nameTags (snd (undoLastRun e (snd (applyTags e rs accountID runID autoApply w))))
                 (ID x) = Name x) rs \<and>
        historyFile (snd (undoLastRun e (snd (applyTags e rs accountID runID autoApply w)))) =
          Some (Marshal e
            (ledger e w @ map (\<lambda>x. (entryOf e accountID runID x)\<lparr>Undone := True\<rparr>) rs)) \<and>
        (readsBack e
           (ledger e w @ map (\<lambda>x. (entryOf e accountID runID x)\<lparr>Undone := True\<rparr>) rs) \<longrightarrow>
           ledger e (snd (undoLastRun e (snd (applyTags e rs accountID runID autoApply w)))) =
             ledger e w @ map (\<lambda>x. (entryOf e accountID runID x)\<lparr>Undone := True\<rparr>) rs \<and>
           (list_all Undone (ledger e w) \<longrightarrow>
              undoLastRun e
                (snd (undoLastRun e (snd (applyTags e rs accountID runID autoApply w)))) =
                (Some (Err ''no undone runs found''),
                 snd (undoLastRun e (snd (applyTags e rs accountID runID autoApply w)))))))"
proof -
  note c1 = findLastRunID_last[of actions]
  note c2 = markUndone_eq[of run actions]
  have c3: "loadHistory e w = Inr actions \<and> findLastRunID actions = run \<and> run \<noteq> [] \<and>
       confirms w \<and> configFails e = None \<longrightarrow>
        tagWrites (snd (undoLastRun e w)) =
          tagWrites w @ revertWrites (actionsOfRun run actions) \<and>
        (homeKnown e \<and> writeFails e = None \<longrightarrow>
           fst (undoLastRun e w) = None \<and>
           historyFile (snd (undoLastRun e w)) = Some (Marshal e (markUndone run actions)) \<and>
           saves (snd (undoLastRun e w)) = saves w + 1) \<and>
        (writesSucceed e (revertWrites (actionsOfRun run actions)) \<and>
         distinct (map Resource (actionsOfRun run actions)) \<longrightarrow>
           list_all (\<lambda>a. nameTags (snd (undoLastRun e w)) (Resource a) = OldValue a)
             (actionsOfRun run actions))"
  proof
    assume a: "loadHistory e w = Inr actions \<and> findLastRunID actions = run \<and> run \<noteq> [] \<and>
       confirms w \<and> configFails e = None"
    then have load: "loadHistory e w = Inr actions" and r: "findLastRunID actions = run"
      and n: "run \<noteq> []" and y: "confirms w" and c: "configFails e = None"
      by simp_all
    note eff = undoLastRun_effect[OF load r n y c]
    from eff(3) have "writesSucceed e (revertWrites (actionsOfRun run actions)) \<and>
         distinct (map Resource (actionsOfRun run actions)) \<longrightarrow>
           list_all (\<lambda>a. nameTags (snd (undoLastRun e w)) (Resource a) = OldValue a)
             (actionsOfRun run actions)"
      using restored_values[of "snd (undoLastRun e w)" "actionsOfRun run actions" "nameTags w"]
      by blast
    with eff(1) eff(2) show "tagWrites (snd (undoLastRun e w)) =
          tagWrites w @ revertWrites (actionsOfRun run actions) \<and>
        (homeKnown e \<and> writeFails e = None \<longrightarrow>
           fst (undoLastRun e w) = None \<and>
           historyFile (snd (undoLastRun e w)) = Some (Marshal e (markUndone run actions)) \<and>
           saves (snd (undoLastRun e w)) = saves w + 1) \<and>
        (writesSucceed e (revertWrites (actionsOfRun run actions)) \<and>
         distinct (map Resource (actionsOfRun run actions)) \<longrightarrow>
           list_all (\<lambda>a. nameTags (snd (undoLastRun e w)) (Resource a) = OldValue a)
             (actionsOfRun run actions))"
      by blast
  qed
  have c4: "loadHistory e w = Inr actions \<and> findLastRunID actions = run \<and> run \<noteq> [] \<and>
       declines w \<longrightarrow>
        undoLastRun e w = (None, w\<lparr>stdin := tl (stdin w)\<rparr>)"
    using undoLastRun_declined[of e w actions run] by blast
  have c5: "loadHistory e w = Inr actions \<and> findLastRunID actions = run \<and> run \<noteq> [] \<and>
       confirms w \<and> configFails e = Some err \<longrightarrow>
        undoLastRun e w =
          (Some (Err (''failed to load AWS config: '' @ err)), w\<lparr>stdin := tl (stdin w)\<rparr>)"
    using undoLastRun_no_client[of e w actions run err] by blast
  have c6: "loadHistory e w = Inr actions \<and> actions \<noteq> [] \<and> list_all Undone actions \<longrightarrow>
        undoLastRun e w = (Some (Err ''no undone runs found''), w)"
    using undoLastRun_all_undone[of e w actions] by blast
  have c7: "loadHistory e w = Inr actions \<and> actions \<noteq> [] \<and> findLastRunID actions = [] \<longrightarrow>
        undoLastRun e w = (Some (Err ''no undone runs found''), w)"
    using undoLastRun_blank[of e w actions] by blast
  have c8: "ledgerWorks e \<and> configFails e = None \<and> inputsReady autoApply (length rs) w \<and>
       writesSucceed e (applyWrites rs) \<and> rs \<noteq> [] \<and> runID \<noteq> [] \<and>
       actionsOfRun runID (ledger e w) = [] \<and> distinct (map ID rs) \<and>
       writesSucceed e (map (\<lambda>x. (ID x, Name x)) rs) \<and>
       list_all (readsBack e)
         (appendedLedgers (ledger e w) (map (entryOf e accountID runID) rs)) \<and>
       confirms (snd (applyTags e rs accountID runID autoApply w)) \<longrightarrow>
        fst (undoLastRun e (snd (applyTags e rs accountID runID autoApply w))) = None \<and>
        list_all
          (\<lambda>x. nameTags (snd (undoLastRun e (snd (applyTags e rs accountID runID autoApply w))))
                 (ID x) = Name x) rs \<and>
        historyFile (snd (undoLastRun e (snd (applyTags e rs accountID runID autoApply w)))) =
          Some (Marshal e
            (ledger e w @ map (\<lambda>x. (entryOf e accountID runID x)\<lparr>Undone := True\<rparr>) rs)) \<and>
        (readsBack e
           (ledger e w @ map (\<lambda>x. (entryOf e accountID runID x)\<lparr>Undone := True\<rparr>) rs) \<longrightarrow>
           ledger e (snd (undoLastRun e (snd (applyTags e rs accountID runID autoApply w)))) =
             ledger e w @ map (\<lambda>x. (entryOf e accountID runID x)\<lparr>Undone := True\<rparr>) rs \<and>
           (list_all Undone (ledger e w) \<longrightarrow>
              undoLastRun e
                (snd (undoLastRun e (snd (applyTags e rs accountID runID autoApply w)))) =
                (Some (Err ''no undone runs found''),
                 snd (undoLastRun e (snd (applyTags e rs accountID runID autoApply w))))))"
    using apply_then_undo[of e autoApply rs w runID accountID]
      second_undo[of e autoApply rs w runID accountID]
    unfolding list_all_iff by blast
  from c1 c2 c3 c4 c5 c6 c7 c8 show ?thesis by (intro conjI)
qed

theorem undo_last_run_witness:
  "ledgerWorks goodEnv \<and> configFails goodEnv = None
   \<and> inputsReady True (length [resB]) freshWorld
   \<and> writesSucceed goodEnv (applyWrites [resB])
   \<and> actionsOfRun ''run-1'' (ledger goodEnv freshWorld) = []
   \<and> writesSucceed goodEnv [(''vol-02'', ''X'')]
   \<and> list_all (readsBack goodEnv)
        (appendedLedgers (ledger goodEnv freshWorld)
           (map (entryOf goodEnv ''123456789012'' ''run-1'') [resB]))
   \<and> readsBack goodEnv [(entryOf goodEnv ''123456789012'' ''run-1'' resB)\<lparr>Undone := True\<rparr>]
   \<and> confirms (snd (applyTags goodEnv [resB] ''123456789012'' ''run-1'' True freshWorld))
   \<and> nameTags freshWorld ''vol-02'' = ''X''
   \<and> nameTags (snd (applyTags goodEnv [resB] ''123456789012'' ''run-1'' True freshWorld))
        ''vol-02'' = ''Y''
   \<and> fst (undoLastRun goodEnv
        (snd (applyTags goodEnv [resB] ''123456789012'' ''run-1'' True freshWorld))) = None
   \<and> nameTags (snd (undoLastRun goodEnv
        (snd (applyTags goodEnv [resB] ''123456789012'' ''run-1'' True freshWorld))))
        ''vol-02'' = ''X''
   \<and> ledger goodEnv (snd (undoLastRun goodEnv
        (snd (applyTags goodEnv [resB] ''123456789012'' ''run-1'' True freshWorld)))) =
       [(entryOf goodEnv ''123456789012'' ''run-1'' resB)\<lparr>Undone := True\<rparr>]
   \<and> fst (undoLastRun goodEnv (snd (undoLastRun goodEnv
        (snd (applyTags goodEnv [resB] ''123456789012'' ''run-1'' True freshWorld))))) =
       Some (Err ''no undone runs found'')
   \<and> loadHistory flakyEnv appliedWorld = Inr (ledger flakyEnv appliedWorld)
   \<and> findLastRunID (ledger flakyEnv appliedWorld) = ''run-1''
   \<and> confirms appliedWorld
   \<and> createTagsFails flakyEnv ''i-0cc'' [] = Some ''InvalidInstanceID.NotFound''
   \<and> createTagsFails flakyEnv ''eni-01'' [] = Some ''RequestLimitExceeded''
   \<and> tagWrites (snd (undoLastRun flakyEnv appliedWorld)) =
       [(''i-0cc'', []), (''vol-02'', ''X''), (''eni-01'', [])]
   \<and> fst (undoLastRun flakyEnv appliedWorld) = None
   \<and> list_all Undone (ledger flakyEnv (snd (undoLastRun flakyEnv appliedWorld)))
   \<and> saves (snd (undoLastRun flakyEnv appliedWorld)) = saves appliedWorld + 1
   \<and> loadHistory goodEnv declinedWorld = Inr (ledger goodEnv declinedWorld)
   \<and> findLastRunID (ledger goodEnv declinedWorld) = ''run-1''
   \<and> declines declinedWorld
   \<and> fst (undoLastRun goodEnv declinedWorld) = None
   \<and> tagWrites (snd (undoLastRun goodEnv declinedWorld)) = []
   \<and> historyFile (snd (undoLastRun goodEnv declinedWorld)) = historyFile declinedWorld
   \<and> saves (snd (undoLastRun goodEnv declinedWorld)) = 0
   \<and> loadHistory noClientEnv appliedWorld = Inr (ledger noClientEnv appliedWorld)
   \<and> findLastRunID (ledger noClientEnv appliedWorld) = ''run-1''
   \<and> configFails noClientEnv = Some ''no credentials''
   \<and> fst (undoLastRun noClientEnv appliedWorld) =
       Some (Err ''failed to load AWS config: no credentials'')
   \<and> tagWrites (snd (undoLastRun noClientEnv appliedWorld)) = []
   \<and> historyFile (snd (undoLastRun noClientEnv appliedWorld)) = historyFile appliedWorld
   \<and> saves (snd (undoLastRun noClientEnv appliedWorld)) = 0"
proof -
  let ?w1 = "snd (applyTags goodEnv [resB] ''123456789012'' ''run-1'' True freshWorld)"
  let ?w2 = "snd (undoLastRun goodEnv ?w1)"
  have h: "ledgerWorks goodEnv" "configFails goodEnv = None"
    "inputsReady True (length [resB]) freshWorld"
    "writesSucceed goodEnv (applyWrites [resB])"
    "actionsOfRun ''run-1'' (ledger goodEnv freshWorld) = []"
    "writesSucceed goodEnv [(''vol-02'', ''X'')]"
    "list_all (readsBack goodEnv)
        (appendedLedgers (ledger goodEnv freshWorld)
           (map (entryOf goodEnv ''123456789012'' ''run-1'') [resB]))"
    "readsBack goodEnv [(entryOf goodEnv ''123456789012'' ''run-1'' resB)\<lparr>Undone := True\<rparr>]"
    "confirms ?w1"
    "list_all Undone (ledger goodEnv freshWorld)"
    by code_simp+
  have v: "map (\<lambda>x. (ID x, Name x)) [resB] = [(''vol-02'', ''X'')]" "distinct (map ID [resB])"
    "ID resB = ''vol-02''" "Name resB = ''X''"
    by (simp_all add: resB_def)
  have lf: "ledger goodEnv freshWorld = []" by code_simp
  have a0: "nameTags freshWorld ''vol-02'' = ''X''"
    by code_simp
  have a1: "nameTags ?w1 ''vol-02'' = ''Y''"
    by code_simp
  note t1 = undo_last_run [where e = goodEnv and w = freshWorld and autoApply = True
      and rs = "[resB]" and runID = "''run-1''" and accountID = "''123456789012''"
      and actions = "[]" and run = "[]" and err = "[]"]
  from t1 h v lf have r1: "fst (undoLastRun goodEnv ?w1) = None"
    and r2: "list_all (\<lambda>x. nameTags ?w2 (ID x) = Name x) [resB]"
    and r3: "ledger goodEnv ?w2 =
       [(entryOf goodEnv ''123456789012'' ''run-1'' resB)\<lparr>Undone := True\<rparr>]"
    and r4: "undoLastRun goodEnv ?w2 = (Some (Err ''no undone runs found''), ?w2)"
    by (simp_all del: applyTags.simps)
  from r2 v have r2': "nameTags ?w2 ''vol-02'' = ''X''"
    by (simp del: applyTags.simps)
  from r4 have r4': "fst (undoLastRun goodEnv ?w2) = Some (Err ''no undone runs found'')"
    by (simp del: applyTags.simps)
  have g: "loadHistory flakyEnv appliedWorld = Inr (ledger flakyEnv appliedWorld)"
    "findLastRunID (ledger flakyEnv appliedWorld) = ''run-1''"
    "confirms appliedWorld"
    "configFails flakyEnv = None"
    "homeKnown flakyEnv" "writeFails flakyEnv = None"
    "createTagsFails flakyEnv ''i-0cc'' [] = Some ''InvalidInstanceID.NotFound''"
    "createTagsFails flakyEnv ''eni-01'' [] = Some ''RequestLimitExceeded''"
    by code_simp+
  have k: "tagWrites appliedWorld @
       revertWrites (actionsOfRun ''run-1'' (ledger flakyEnv appliedWorld)) =
       [(''i-0cc'', []), (''vol-02'', ''X''), (''eni-01'', [])]"
    "list_all Undone
       (Unmarshal flakyEnv
          (Marshal flakyEnv (markUndone ''run-1'' (ledger flakyEnv appliedWorld))))"
    by code_simp+
  note t2 = undo_last_run [where e = flakyEnv and w = appliedWorld
      and actions = "ledger flakyEnv appliedWorld" and run = "''run-1''" and rs = "[]"
      and autoApply = True and runID = "[]" and accountID = "[]" and err = "[]"]
  from t2 g have s1: "tagWrites (snd (undoLastRun flakyEnv appliedWorld)) =
       tagWrites appliedWorld @
       revertWrites (actionsOfRun ''run-1'' (ledger flakyEnv appliedWorld))"
    and s2: "fst (undoLastRun flakyEnv appliedWorld) = None"
    and s3: "historyFile (snd (undoLastRun flakyEnv appliedWorld)) =
       Some (Marshal flakyEnv (markUndone ''run-1'' (ledger flakyEnv appliedWorld)))"
    and s4: "saves (snd (undoLastRun flakyEnv appliedWorld)) = saves appliedWorld + 1"
    by simp_all
  from s1 k(1) have s1': "tagWrites (snd (undoLastRun flakyEnv appliedWorld)) =
       [(''i-0cc'', []), (''vol-02'', ''X''), (''eni-01'', [])]" by simp
  from s3 k(2)
  have s3': "list_all Undone (ledger flakyEnv (snd (undoLastRun flakyEnv appliedWorld)))"
    by (simp add: ledger_def)
  have d: "loadHistory goodEnv declinedWorld = Inr (ledger goodEnv declinedWorld)"
    "findLastRunID (ledger goodEnv declinedWorld) = ''run-1''"
    "declines declinedWorld"
    by code_simp+
  have dw: "tagWrites declinedWorld = []" "saves declinedWorld = 0"
    by (simp_all add: declinedWorld_def appliedWorld_def freshWorld_def)
  note t3 = undo_last_run [where e = goodEnv and w = declinedWorld
      and actions = "ledger goodEnv declinedWorld" and run = "''run-1''" and rs = "[]"
      and autoApply = True and runID = "[]" and accountID = "[]" and err = "[]"]
  from t3 d have "undoLastRun goodEnv declinedWorld =
      (None, declinedWorld\<lparr>stdin := tl (stdin declinedWorld)\<rparr>)"
    by simp
  with dw have u: "fst (undoLastRun goodEnv declinedWorld) = None"
    "tagWrites (snd (undoLastRun goodEnv declinedWorld)) = []"
    "historyFile (snd (undoLastRun goodEnv declinedWorld)) = historyFile declinedWorld"
    "saves (snd (undoLastRun goodEnv declinedWorld)) = 0"
    by simp_all
  have c: "loadHistory noClientEnv appliedWorld = Inr (ledger noClientEnv appliedWorld)"
    "findLastRunID (ledger noClientEnv appliedWorld) = ''run-1''"
    "configFails noClientEnv = Some ''no credentials''"
    by code_simp+
  have aw: "tagWrites appliedWorld = []" "saves appliedWorld = 0"
    by (simp_all add: appliedWorld_def freshWorld_def)
  note t4 = undo_last_run [where e = noClientEnv and w = appliedWorld
      and actions = "ledger noClientEnv appliedWorld" and run = "''run-1''" and rs = "[]"
      and autoApply = True and runID = "[]" and accountID = "[]"
      and err = "''no credentials''"]
  from t4 c g(3) have "undoLastRun noClientEnv appliedWorld =
      (Some (Err (''failed to load AWS config: '' @ ''no credentials'')),
       appliedWorld\<lparr>stdin := tl (stdin appliedWorld)\<rparr>)"
    by simp
  with aw have n: "fst (undoLastRun noClientEnv appliedWorld) =
       Some (Err ''failed to load AWS config: no credentials'')"
    "tagWrites (snd (undoLastRun noClientEnv appliedWorld)) = []"
    "historyFile (snd (undoLastRun noClientEnv appliedWorld)) = historyFile appliedWorld"
    "saves (snd (undoLastRun noClientEnv appliedWorld)) = 0"
    by simp_all
  from h(1-9) a0 a1 r1 r2' r3 r4' g(1,2,3,7,8) s1' s2 s3' s4 d u c n show ?thesis
    by (intro conjI)
qed

text \<open>The claim as it is written fails where the last entry that is not undone has the
  empty run id: undo reports that no run is left to undo and writes no tag.\<close>

theorem undo_last_run_counterexample:
  "ledger goodEnv blankRunWorld = [blankRunEntry]
   \<and> Undone blankRunEntry = False
   \<and> confirms blankRunWorld
   \<and> fst (undoLastRun goodEnv blankRunWorld) = Some (Err ''no undone runs found'')
   \<and> tagWrites (snd (undoLastRun goodEnv blankRunWorld)) = []
   \<and> ledger goodEnv (snd (undoLastRun goodEnv blankRunWorld)) = [blankRunEntry]"
  by code_simp

end
